theory Spec2Isabelle
  imports Complex_Main
begin

section \<open>Game constants (velma/game.py)\<close>

text \<open>
  Card identifiers are Python integers, the cards being \<open>0 .. NCARDS - 1\<close>: characters first, then rooms,
  then weapons.  \<open>NULLCARD\<close> is the first integer that is not a card.
\<close>

definition MAXPLAYERS :: int where "MAXPLAYERS = 6"
definition MINPLAYERS :: int where "MINPLAYERS = 2"

definition CHARNAMES :: "string list" where
  "CHARNAMES = [''Col. Mustard'', ''Prof. Plum'', ''Mr. Green'', ''Mrs. Peacock'',
     ''Miss Scarlet'', ''Mrs. White'']"

definition CHARIXSTARTORDER :: "nat list" where
  "CHARIXSTARTORDER = [4, 0, 5, 2, 3, 1]"

definition ROOMNAMES :: "string list" where
  "ROOMNAMES = [''Hall'', ''Lounge'', ''Dining Room'', ''Kitchen'', ''Ballroom'',
     ''Conservatory'', ''Billiard Room'', ''Library'', ''Study'']"

definition WEAPNAMES :: "string list" where
  "WEAPNAMES = [''Knife'', ''Candlestick'', ''Revolver'', ''Rope'', ''Lead Pipe'', ''Wrench'']"

definition CHARSTARTNODES :: "nat list" where
  "CHARSTARTNODES = [51, 38, 197, 171, 2, 196]"

definition ROOMNODES :: "nat list" where
  "ROOMNODES = [3, 1, 79, 161, 153, 177, 104, 50, 5]"

definition NCHARS :: nat where "NCHARS = length CHARNAMES"
definition NROOMS :: nat where "NROOMS = length ROOMNAMES"
definition NWEAPS :: nat where "NWEAPS = length WEAPNAMES"
definition NCARDS :: nat where "NCARDS = NCHARS + NROOMS + NWEAPS"

definition CHARS :: "int list" where "CHARS = map int [0 ..< NCHARS]"
definition ROOMS :: "int list" where "ROOMS = map int [NCHARS ..< NROOMS + NCHARS]"
definition WEAPS :: "int list" where "WEAPS = map int [NROOMS + NCHARS ..< NCARDS]"
definition NULLCARD :: int where "NULLCARD = int NCARDS"

definition ALLOWEDCHARS :: "int set" where "ALLOWEDCHARS = set CHARS"
definition ALLOWEDROOMS :: "int set" where "ALLOWEDROOMS = set ROOMS"
definition ALLOWEDWEAPS :: "int set" where "ALLOWEDWEAPS = set WEAPS"
definition ALLOWEDCARDS :: "int set" where
  "ALLOWEDCARDS = ALLOWEDCHARS \<union> ALLOWEDROOMS \<union> ALLOWEDWEAPS"

definition CARDNAMES :: "string list" where
  "CARDNAMES = CHARNAMES @ ROOMNAMES @ WEAPNAMES"

text \<open>
  The index dictionaries \<open>CHARINDEX\<close>, \<open>ROOMINDEX\<close> and \<open>WEAPINDEX\<close> send the i-th card
  of a family to i; a card of another family is a missing key.
\<close>

definition CHARINDEX :: "int \<rightharpoonup> nat" where
  "CHARINDEX = map_of (zip CHARS [0 ..< NCHARS])"
definition ROOMINDEX :: "int \<rightharpoonup> nat" where
  "ROOMINDEX = map_of (zip ROOMS [0 ..< NROOMS])"
definition WEAPINDEX :: "int \<rightharpoonup> nat" where
  "WEAPINDEX = map_of (zip WEAPS [0 ..< NWEAPS])"

definition ROOMCARDNODES :: "int \<rightharpoonup> nat" where
  "ROOMCARDNODES = map_of (zip ROOMS ROOMNODES)"
definition ROOMNODEIXS :: "nat \<rightharpoonup> nat" where
  "ROOMNODEIXS = map_of (zip ROOMNODES [0 ..< NROOMS])"

section \<open>Floating-point values as numpy yields them\<close>

text \<open>
  A float is a real number or one of the three non-finite values.  Only the operations
  the program applies are defined, with numpy's rules for the non-finite cases
  (\<open>0/0 = nan\<close>, \<open>x/0 = \<plusminus>inf\<close>, \<open>log 0 = -inf\<close>, \<open>0 * inf = nan\<close>).  Rounding is not
  modelled: finite arithmetic is exact.
\<close>

datatype npfloat = Fin real | PInf | NInf | NaN

fun fneg :: "npfloat \<Rightarrow> npfloat" where
  "fneg (Fin x) = Fin (- x)"
| "fneg PInf = NInf"
| "fneg NInf = PInf"
| "fneg NaN = NaN"

fun fadd :: "npfloat \<Rightarrow> npfloat \<Rightarrow> npfloat" where
  "fadd (Fin x) (Fin y) = Fin (x + y)"
| "fadd NaN _ = NaN"
| "fadd _ NaN = NaN"
| "fadd PInf NInf = NaN"
| "fadd NInf PInf = NaN"
| "fadd PInf _ = PInf"
| "fadd _ PInf = PInf"
| "fadd NInf _ = NInf"
| "fadd _ NInf = NInf"

fun fmul :: "npfloat \<Rightarrow> npfloat \<Rightarrow> npfloat" where
  "fmul (Fin x) (Fin y) = Fin (x * y)"
| "fmul NaN _ = NaN"
| "fmul _ NaN = NaN"
| "fmul (Fin x) PInf = (if x = 0 then NaN else if x > 0 then PInf else NInf)"
| "fmul (Fin x) NInf = (if x = 0 then NaN else if x > 0 then NInf else PInf)"
| "fmul PInf (Fin y) = (if y = 0 then NaN else if y > 0 then PInf else NInf)"
| "fmul NInf (Fin y) = (if y = 0 then NaN else if y > 0 then NInf else PInf)"
| "fmul PInf PInf = PInf"
| "fmul NInf NInf = PInf"
| "fmul PInf NInf = NInf"
| "fmul NInf PInf = NInf"

fun fdiv :: "npfloat \<Rightarrow> npfloat \<Rightarrow> npfloat" where
  "fdiv (Fin x) (Fin y) =
     (if y = 0 then (if x = 0 then NaN else if x > 0 then PInf else NInf) else Fin (x / y))"
| "fdiv NaN _ = NaN"
| "fdiv _ NaN = NaN"
| "fdiv (Fin x) _ = Fin 0"
| "fdiv PInf (Fin y) = (if y \<ge> 0 then PInf else NInf)"
| "fdiv NInf (Fin y) = (if y \<ge> 0 then NInf else PInf)"
| "fdiv _ _ = NaN"

fun flog :: "npfloat \<Rightarrow> npfloat" where
  "flog (Fin x) = (if x > 0 then Fin (ln x) else if x = 0 then NInf else NaN)"
| "flog PInf = PInf"
| "flog NInf = NaN"
| "flog NaN = NaN"

text \<open>\<open>a[np.isnan(a)] = 0.\<close>, one element at a time.\<close>

fun nantozero :: "npfloat \<Rightarrow> npfloat" where
  "nantozero NaN = Fin 0"
| "nantozero x = x"

text \<open>\<open>x > 0.\<close>: a comparison with nan is false.\<close>

fun fpositive :: "npfloat \<Rightarrow> bool" where
  "fpositive (Fin x) = (x > 0)"
| "fpositive PInf = True"
| "fpositive _ = False"

text \<open>
  The order numpy sorts by: the reals in their order between the infinities, nan last.
\<close>

fun flt :: "npfloat \<Rightarrow> npfloat \<Rightarrow> bool" where
  "flt (Fin x) (Fin y) = (x < y)"
| "flt _ NaN = False"
| "flt NaN _ = False"
| "flt _ NInf = False"
| "flt NInf _ = True"
| "flt PInf _ = False"
| "flt _ PInf = True"

text \<open>\<open>x <= y\<close> on floats: false when either side is nan.\<close>

fun fle :: "npfloat \<Rightarrow> npfloat \<Rightarrow> bool" where
  "fle (Fin x) (Fin y) = (x \<le> y)"
| "fle NaN _ = False"
| "fle _ NaN = False"
| "fle NInf _ = True"
| "fle _ PInf = True"
| "fle _ _ = False"

text \<open>\<open>np.sum\<close> of floats: addition is associative and commutative on this model.\<close>

instantiation npfloat :: comm_monoid_add
begin

definition zero_npfloat :: npfloat where "zero_npfloat = Fin 0"
definition plus_npfloat :: "npfloat \<Rightarrow> npfloat \<Rightarrow> npfloat" where "plus_npfloat = fadd"

instance
proof
  fix a b c :: npfloat
  show "a + b + c = a + (b + c)"
    unfolding plus_npfloat_def by (cases a; cases b; cases c) simp_all
  show "a + b = b + a"
    unfolding plus_npfloat_def by (cases a; cases b) simp_all
  show "0 + a = a"
    unfolding plus_npfloat_def zero_npfloat_def by (cases a) simp_all
qed

end

section \<open>Data structures (velma/core.py)\<close>

text \<open>The exceptions the modelled code can raise.\<close>

datatype pyerror =
  TypeError | ValueError | KeyError | IndexError | NameError | AttributeError | AssertionError
  | StopIteration | ZeroDivisionError

text \<open>
  The event namedtuples.  \<open>EventSuggestion\<close>, \<open>EventPass\<close> and \<open>EventAccusation\<close> have
  the same fields; \<open>EventUnseenAnswer\<close> has them and \<open>consumer\<close>.  Every event has
  \<open>turn\<close> and \<open>actor\<close>; a field read works on any record that has the field, as an
  attribute read does in Python.
\<close>

record Event =
  turn :: nat
  actor :: nat

record EventMove = Event +
  nodeStart :: nat
  nodeStop :: nat

record EventSuggestion = Event +
  character :: int
  room :: int
  weapon :: int

type_synonym EventPass = EventSuggestion
type_synonym EventAccusation = EventSuggestion

record EventUnseenAnswer = EventSuggestion +
  consumer :: nat

record EventSeenAnswer = Event +
  consumer_seen :: nat
  card :: int

text \<open>
  A hypothesis is a Python list: one set of cards for each player, then the tuple
  \<open>(ixChar, ixRoom, ixWeap)\<close> of the murder scenario as its last element.
\<close>

type_synonym scenario = "nat \<times> nat \<times> nat"

record hypothesis =
  hands :: "int set list"
  envelope :: scenario

text \<open>
  \<open>DBGSCENARIOREMINDER\<close> is a Boolean or the text naming the cards of every hand.
\<close>

datatype reminder = ReminderFlag bool | ReminderText "string set list"

text \<open>
  The Detective object.  \<open>playersOusted\<close> is \<open>None\<close> until \<open>initialise\<close> makes the array.
  Every other field that is \<open>None\<close> before \<open>initialise\<close> holds the empty value of its type
  here, so that reading it raises, as it does in the program.  Count tensors are functions of the index, zero outside the
  shape of the array.  The game host and the hooks of the user interface take no part
  in the state.
\<close>

record detective =
  HYPSAMPLECOUNT :: nat
  THRESHAPPROXHYPCOUNT :: int
  PACCUSATIONTHRESH :: real
  SECRETIVE :: bool
  DBGSCENARIO :: "int set list option"
  DBGSCENARIOREMINDER :: reminder
  isGameOver :: bool
  isInitialised :: bool
  playersOusted :: "bool list option"
  nPlayers :: int
  ixDealer :: int
  nCardsHeld :: "int list"
  playerCharIxs :: "nat list"
  myCardSet :: "int set"
  myCards :: "int list"
  myCardsShownTo :: "bool list list"
  myCardsShownCounts :: "nat list"
  charLocations :: "nat list"
  forbidden :: "bool list list"
  forbiddenSets :: "int set list"
  hypotheses :: "hypothesis list"
  areHypothesesEnumerable :: bool
  hasEnteredRoomYet :: bool
  canSuggestInCurrentRoom :: bool
  ixTurn :: nat
  ixHotSeat :: nat
  logMoves :: "EventMove list"
  logSuggestions :: "EventSuggestion list"
  logPasses :: "EventPass list"
  logUnseenAnswers :: "EventUnseenAnswer list"
  logSeenAnswers :: "EventSeenAnswer list"
  logIncorrectAccusations :: "EventAccusation list"
  hypCountByCharacter :: "nat \<Rightarrow> real"
  hypCountByRoom :: "nat \<Rightarrow> real"
  hypCountByWeapon :: "nat \<Rightarrow> real"
  hypCountByScenario :: "scenario \<Rightarrow> real"
  pScenario :: "scenario \<Rightarrow> real"
  scenarioEntropy :: npfloat

section \<open>Statistics of a count tensor (statsfromcounts)\<close>

definition in_shape :: "scenario \<Rightarrow> bool" where
  "in_shape s = (case s of (c, r, w) \<Rightarrow> c < NCHARS \<and> r < NROOMS \<and> w < NWEAPS)"

text \<open>Sums over all three axes of an \<open>NCHARS x NROOMS x NWEAPS\<close> array.\<close>

definition sum3 :: "(scenario \<Rightarrow> 'a::comm_monoid_add) \<Rightarrow> 'a" where
  "sum3 f = (\<Sum>c<NCHARS. \<Sum>r<NROOMS. \<Sum>w<NWEAPS. f (c, r, w))"

text \<open>The elementwise \<open>(-p)*np.log(p)\<close> with the nan entries set to zero.\<close>

definition entropyterm :: "npfloat \<Rightarrow> npfloat" where
  "entropyterm p = nantozero (fmul (fneg p) (flog p))"

definition statsfromcounts :: "(scenario \<Rightarrow> real) \<Rightarrow> (scenario \<Rightarrow> real) \<times> npfloat" where
  "statsfromcounts countMatrix =
     (let countSum = sum3 countMatrix in
      if countSum > 0 then
        (let p = (\<lambda>s. if in_shape s then countMatrix s / countSum else 0);
             entropy = sum3 (\<lambda>s. entropyterm (Fin (p s)))
         in (p, entropy))
      else (\<lambda>s. 0, Fin 0))"

section \<open>Expected posteriors of a suggestion (suggestionexpposteriors)\<close>

text \<open>
  \<open>card in hypothesis[ix]\<close>: a player's hand for an index below the number of hands,
  the scenario tuple of indices for the last element, IndexError beyond.
\<close>

definition holds :: "hypothesis \<Rightarrow> nat \<Rightarrow> int \<Rightarrow> pyerror + bool" where
  "holds h ix c =
     (if ix < length (hands h) then Inr (c \<in> hands h ! ix)
      else if ix = length (hands h) then
        (case envelope h of (a, b, d) \<Rightarrow> Inr (c = int a \<or> c = int b \<or> c = int d))
      else Inl IndexError)"

text \<open>The bin \<open>ixAnswer\<close> of one player: bit 1 character, bit 2 room, bit 4 weapon.\<close>

definition answerbin :: "hypothesis \<Rightarrow> nat \<Rightarrow> int \<Rightarrow> int \<Rightarrow> int \<Rightarrow> pyerror + nat" where
  "answerbin h ixPlayer ch rm wp =
     (case holds h ixPlayer ch of
        Inl e \<Rightarrow> Inl e
      | Inr hc \<Rightarrow>
          (case holds h ixPlayer rm of
             Inl e \<Rightarrow> Inl e
           | Inr hr \<Rightarrow>
               (case holds h ixPlayer wp of
                  Inl e \<Rightarrow> Inl e
                | Inr hw \<Rightarrow>
                    Inr ((if hc then 1 else 0) + (if hr then 2 else 0)
                         + (if hw then 4 else 0)))))"

text \<open>
  The inner loop over the players: the first player with a non-zero bin answers
  (\<open>break\<close>); \<open>None\<close> is the \<open>else\<close> of the loop, nobody answers.
\<close>

fun firstanswer ::
  "hypothesis \<Rightarrow> nat list \<Rightarrow> int \<Rightarrow> int \<Rightarrow> int \<Rightarrow> pyerror + (nat \<times> nat) option" where
  "firstanswer h [] ch rm wp = Inr None"
| "firstanswer h (ixPlayer # ixs) ch rm wp =
     (case answerbin h ixPlayer ch rm wp of
        Inl e \<Rightarrow> Inl e
      | Inr ixAnswer \<Rightarrow>
          if ixAnswer > 0 then Inr (Some (ixPlayer, ixAnswer))
          else firstanswer h ixs ch rm wp)"

text \<open>
  The two arrays of phase 1: \<open>hypCountsSorted[player, bin, scenario]\<close> and
  \<open>hypCountsNoAnswer[scenario]\<close>.  An index outside the array raises IndexError.
\<close>

type_synonym sortedcounts = "nat \<Rightarrow> nat \<Rightarrow> scenario \<Rightarrow> real"

fun sorthypotheses ::
  "nat list \<Rightarrow> hypothesis list \<Rightarrow> int \<Rightarrow> int \<Rightarrow> int \<Rightarrow>
   sortedcounts \<times> (scenario \<Rightarrow> real) \<Rightarrow> pyerror + sortedcounts \<times> (scenario \<Rightarrow> real)" where
  "sorthypotheses players [] ch rm wp acc = Inr acc"
| "sorthypotheses players (h # hs) ch rm wp (hypCountsSorted, hypCountsNoAnswer) =
     (case firstanswer h players ch rm wp of
        Inl e \<Rightarrow> Inl e
      | Inr (Some (ixPlayer, ixAnswer)) \<Rightarrow>
          if in_shape (envelope h) then
            sorthypotheses players hs ch rm wp
              (hypCountsSorted (ixPlayer - 1 :=
                 (hypCountsSorted (ixPlayer - 1)) (ixAnswer - 1 :=
                   (hypCountsSorted (ixPlayer - 1) (ixAnswer - 1)) (envelope h :=
                      hypCountsSorted (ixPlayer - 1) (ixAnswer - 1) (envelope h) + 1))),
               hypCountsNoAnswer)
          else Inl IndexError
      | Inr None \<Rightarrow>
          if in_shape (envelope h) then
            sorthypotheses players hs ch rm wp
              (hypCountsSorted,
               hypCountsNoAnswer (envelope h := hypCountsNoAnswer (envelope h) + 1))
          else Inl IndexError)"

text \<open>Phase 2.  The bins kept by each answer: the index tuples of the four slices.\<close>

definition hypCountsAfterAnswer :: "sortedcounts \<Rightarrow> nat \<Rightarrow> nat \<Rightarrow> scenario \<Rightarrow> real" where
  "hypCountsAfterAnswer hypCountsSorted p a s =
     hypCountsSorted p ([0, 1, 3] ! a) s + hypCountsSorted p ([2, 2, 4] ! a) s +
     hypCountsSorted p ([4, 5, 5] ! a) s + hypCountsSorted p ([6, 6, 6] ! a) s"

definition sumbyroom :: "(scenario \<Rightarrow> real) \<Rightarrow> nat \<Rightarrow> real" where
  "sumbyroom f r = (\<Sum>c<NCHARS. \<Sum>w<NWEAPS. f (c, r, w))"

definition hypCountsByRoomAfterAnswer :: "sortedcounts \<Rightarrow> nat \<Rightarrow> nat \<Rightarrow> nat \<Rightarrow> real" where
  "hypCountsByRoomAfterAnswer hypCountsSorted p a =
     sumbyroom (hypCountsAfterAnswer hypCountsSorted p a)"

definition hypCountSumsAfterAnswer :: "sortedcounts \<Rightarrow> nat \<Rightarrow> nat \<Rightarrow> real" where
  "hypCountSumsAfterAnswer hypCountsSorted p a =
     (\<Sum>r<NROOMS. hypCountsByRoomAfterAnswer hypCountsSorted p a r)"

definition pAfterAnswer :: "sortedcounts \<Rightarrow> nat \<Rightarrow> nat \<Rightarrow> scenario \<Rightarrow> npfloat" where
  "pAfterAnswer hypCountsSorted p a s =
     fdiv (Fin (hypCountsAfterAnswer hypCountsSorted p a s))
          (Fin (hypCountSumsAfterAnswer hypCountsSorted p a))"

definition entAfterAnswer :: "sortedcounts \<Rightarrow> nat \<Rightarrow> nat \<Rightarrow> npfloat" where
  "entAfterAnswer hypCountsSorted p a =
     sum3 (\<lambda>s. entropyterm (pAfterAnswer hypCountsSorted p a s))"

definition hypCountSumNoAnswer :: "(scenario \<Rightarrow> real) \<Rightarrow> real" where
  "hypCountSumNoAnswer hypCountsNoAnswer = (\<Sum>r<NROOMS. sumbyroom hypCountsNoAnswer r)"

definition entNoAnswer :: "(scenario \<Rightarrow> real) \<Rightarrow> npfloat" where
  "entNoAnswer hypCountsNoAnswer =
     (if hypCountSumNoAnswer hypCountsNoAnswer > 0 then
        sum3 (\<lambda>s. entropyterm
          (fdiv (Fin (hypCountsNoAnswer s)) (Fin (hypCountSumNoAnswer hypCountsNoAnswer))))
      else Fin 0)"

text \<open>
  Phase 3.  \<open>np.argsort\<close> of a row of three: numpy sorts a row this short by insertion
  with a strict comparison, so equal keys keep their order.
\<close>

fun insertix :: "(nat \<Rightarrow> npfloat) \<Rightarrow> nat \<Rightarrow> nat list \<Rightarrow> nat list" where
  "insertix key i [] = [i]"
| "insertix key i (j # js) = (if flt (key i) (key j) then i # j # js else j # insertix key i js)"

definition argsort :: "npfloat list \<Rightarrow> nat list" where
  "argsort xs = foldl (\<lambda>acc i. insertix (\<lambda>k. xs ! k) i acc) [] [0 ..< length xs]"

definition playerDecisions :: "sortedcounts \<Rightarrow> nat \<Rightarrow> nat list" where
  "playerDecisions hypCountsSorted p =
     rev (argsort (map (entAfterAnswer hypCountsSorted p) [0, 1, 2]))"

text \<open>
  The bins allotted to each answer of one player: a bin of one card to that card, bin 7
  to the preferred answer, a bin of two cards to the preferred answer when it is one of
  the two and to the second preference otherwise.
\<close>

definition allotted :: "nat list \<Rightarrow> nat \<Rightarrow> nat \<Rightarrow> bool" where
  "allotted decisions thisBin a =
     (if and thisBin (2 ^ (decisions ! 0)) \<noteq> 0 then a = decisions ! 0 else a = decisions ! 1)"

definition receivedHypCounts :: "sortedcounts \<Rightarrow> nat \<Rightarrow> nat \<Rightarrow> scenario \<Rightarrow> real" where
  "receivedHypCounts hypCountsSorted p a s =
     (let decisions = playerDecisions hypCountsSorted p in
      hypCountsSorted p ([0, 1, 3] ! a) s
      + (if a = decisions ! 0 then hypCountsSorted p 6 s else 0)
      + (\<Sum>thisBin\<leftarrow>[3, 5, 6].
           if allotted decisions thisBin a then hypCountsSorted p (thisBin - 1) s else 0))"

definition totalReceivedCounts :: "sortedcounts \<Rightarrow> nat \<Rightarrow> nat \<Rightarrow> real" where
  "totalReceivedCounts hypCountsSorted p a = sum3 (receivedHypCounts hypCountsSorted p a)"

record posteriors =
  expEntropy :: npfloat
  expRoomDist :: "npfloat list"

text \<open>
  Phases 2 and 3 on the arrays of phase 1, for \<open>nOthers = nPlayers - 1\<close> answering
  players and \<open>totalHypCount\<close> hypotheses.
\<close>

definition expectation ::
  "nat \<Rightarrow> nat \<Rightarrow> sortedcounts \<Rightarrow> (scenario \<Rightarrow> real) \<Rightarrow> pyerror + posteriors" where
  "expectation nOthers totalHypCount hypCountsSorted hypCountsNoAnswer =
     (if real totalHypCount \<noteq>
         (\<Sum>p<nOthers. \<Sum>a<3. totalReceivedCounts hypCountsSorted p a)
           + hypCountSumNoAnswer hypCountsNoAnswer
      then Inl AssertionError
      else
        (let expEnt =
               fdiv (fmul (entNoAnswer hypCountsNoAnswer)
                          (Fin (hypCountSumNoAnswer hypCountsNoAnswer))
                     + (\<Sum>p<nOthers. \<Sum>a<3.
                          fmul (entAfterAnswer hypCountsSorted p a)
                               (Fin (totalReceivedCounts hypCountsSorted p a))))
                    (Fin (real totalHypCount));
             roomDist = (\<lambda>r.
               sumbyroom hypCountsNoAnswer r * hypCountSumNoAnswer hypCountsNoAnswer
               + (\<Sum>p<nOthers. \<Sum>a<3.
                    hypCountsByRoomAfterAnswer hypCountsSorted p a r
                    * totalReceivedCounts hypCountsSorted p a));
             total = (\<Sum>r<NROOMS. roomDist r)
         in Inr \<lparr> expEntropy = expEnt,
                  expRoomDist = map (\<lambda>r. fdiv (Fin (roomDist r)) (Fin total)) [0 ..< NROOMS] \<rparr>))"

text \<open>
  The function body for \<open>n\<close> players: \<open>np.zeros\<close> refuses a negative dimension with
  ValueError.
\<close>

definition expposteriors ::
  "int \<Rightarrow> hypothesis list \<Rightarrow> int \<Rightarrow> int \<Rightarrow> int \<Rightarrow> pyerror + posteriors" where
  "expposteriors n hyps ch rm wp =
     (if n - 1 < 0 then Inl ValueError
      else
        case sorthypotheses [1 ..< nat n] hyps ch rm wp (\<lambda>p b s. 0, \<lambda>s. 0) of
          Inl e \<Rightarrow> Inl e
        | Inr (hypCountsSorted, hypCountsNoAnswer) \<Rightarrow>
            expectation (nat (n - 1)) (length hyps) hypCountsSorted hypCountsNoAnswer)"

text \<open>
  \<open>Detective.suggestionexpposteriors\<close> reads \<open>self.nPlayers\<close> and \<open>self.hypotheses\<close>;
  the object is returned with the result, as the method leaves it.
\<close>

definition suggestionexpposteriors ::
  "detective \<Rightarrow> int \<Rightarrow> int \<Rightarrow> int \<Rightarrow> (pyerror + posteriors) \<times> detective" where
  "suggestionexpposteriors self ch rm wp =
     (expposteriors (nPlayers self) (hypotheses self) ch rm wp, self)"

text \<open>
  \<open>parcore.suggestionexpposteriors\<close> has the same body on a list of hypotheses it is
  given, and takes the number of players from \<open>len(hypotheses) - 1\<close>.
\<close>

definition parcore_suggestionexpposteriors ::
  "hypothesis list \<Rightarrow> int \<Rightarrow> int \<Rightarrow> int \<Rightarrow> pyerror + posteriors" where
  "parcore_suggestionexpposteriors hyps ch rm wp =
     expposteriors (int (length hyps) - 1) hyps ch rm wp"

section \<open>Expected dice rolls (velma/game.py, dicerollstomove)\<close>

definition DICEROLLSTOMOVE :: "real list" where
  "DICEROLLSTOMOVE = [0, 1, 1,
     37 / 36,
     108333333333333 / 100000000000000,
     116512345679012 / 100000000000000,
     128163580246913 / 100000000000000,
     142817644032921 / 100000000000000,
     160988940329218 / 100000000000000,
     177443415637860 / 100000000000000,
     193233453360767 / 100000000000000]"

definition dicerollstomove :: "int \<Rightarrow> npfloat" where
  "dicerollstomove distance =
     (if distance > 10 then Fin ((real_of_int distance + 35 / 10) / 7)
      else if distance \<ge> 0 then Fin (DICEROLLSTOMOVE ! nat distance)
      else PInf)"

section \<open>The forbidden matrix and the pool under an event (velma/core.py)\<close>

text \<open>
  What a method does: it returns a value and leaves the object changed, it raises, or its
  sampling loop has not ended on the random draws it was given.  The object an exception
  leaves behind is not modelled for the methods of this section.
\<close>

datatype 'a outcome = Returns 'a detective | Raises pyerror | Exhausted

text \<open>An index into a numpy axis of length \<open>n\<close>: a negative index counts from the end.\<close>

definition npindex :: "nat \<Rightarrow> int \<Rightarrow> nat option" where
  "npindex n i =
     (if 0 \<le> i \<and> i < int n then Some (nat i)
      else if - int n \<le> i \<and> i < 0 then Some (nat (int n + i))
      else None)"

text \<open>\<open>self.forbidden[ix, card]\<close>.\<close>

definition isforbidden :: "detective \<Rightarrow> nat \<Rightarrow> int \<Rightarrow> pyerror + bool" where
  "isforbidden self ix c =
     (if ix < length (forbidden self) then
        (case npindex (length (forbidden self ! ix)) c of
           None \<Rightarrow> Inl IndexError
         | Some j \<Rightarrow> Inr (forbidden self ! ix ! j))
      else Inl IndexError)"

text \<open>\<open>self.forbidden[ix, card] = v\<close>.\<close>

definition setforbidden :: "nat \<Rightarrow> int \<Rightarrow> bool \<Rightarrow> detective \<Rightarrow> pyerror + detective" where
  "setforbidden ix c v self =
     (if ix < length (forbidden self) then
        (case npindex (length (forbidden self ! ix)) c of
           None \<Rightarrow> Inl IndexError
         | Some j \<Rightarrow>
             Inr (self \<lparr> forbidden := (forbidden self)[ix := (forbidden self ! ix)[j := v]] \<rparr>))
      else Inl IndexError)"

text \<open>
  \<open>self.forbidden[ix, card] = True\<close> followed by \<open>self.forbiddenSets[ix].add(card)\<close>.
\<close>

definition forbid :: "nat \<Rightarrow> int \<Rightarrow> detective \<Rightarrow> pyerror + detective" where
  "forbid ix c self =
     (case setforbidden ix c True self of
        Inl e \<Rightarrow> Inl e
      | Inr s \<Rightarrow>
          if ix < length (forbiddenSets s) then
            Inr (s \<lparr> forbiddenSets := (forbiddenSets s)[ix := insert c (forbiddenSets s ! ix)] \<rparr>)
          else Inl IndexError)"

fun forbidall :: "nat \<Rightarrow> int list \<Rightarrow> detective \<Rightarrow> pyerror + detective" where
  "forbidall ix [] self = Inr self"
| "forbidall ix (c # cs) self =
     (case forbid ix c self of Inl e \<Rightarrow> Inl e | Inr s \<Rightarrow> forbidall ix cs s)"

text \<open>
  \<open>all(self.forbidden[0:self.nPlayers, card])\<close>: a slice stops at the end of the axis,
  the column must exist.
\<close>

definition allplayersforbidden :: "detective \<Rightarrow> int \<Rightarrow> pyerror + bool" where
  "allplayersforbidden self c =
     (case npindex NCARDS c of
        None \<Rightarrow> Inl IndexError
      | Some j \<Rightarrow> Inr (list_all (\<lambda>row. row ! j) (take (nat (nPlayers self)) (forbidden self))))"

text \<open>
  One card of a pass: the card is forbidden to the actor, and when it is then forbidden
  to every player, every other card of its family is forbidden to the murder hand.
  \<open>set.remove\<close> raises KeyError when the card is not of the family.  Python iterates a
  set in no promised order; the model takes ascending order.
\<close>

definition passcard :: "int set \<Rightarrow> nat \<Rightarrow> int \<Rightarrow> detective \<Rightarrow> pyerror + detective" where
  "passcard family ix c self =
     (case forbid ix c self of
        Inl e \<Rightarrow> Inl e
      | Inr s \<Rightarrow>
          (case allplayersforbidden s c of
             Inl e \<Rightarrow> Inl e
           | Inr False \<Rightarrow> Inr s
           | Inr True \<Rightarrow>
               if c \<in> family
               then forbidall (nat (nPlayers s)) (sorted_list_of_set (family - {c})) s
               else Inl KeyError))"

text \<open>
  \<open>removehypfromcounts\<close>: the four count arrays lose one at the scenario of the
  hypothesis.
\<close>

definition removehypfromcounts :: "hypothesis \<Rightarrow> detective \<Rightarrow> pyerror + detective" where
  "removehypfromcounts h self =
     (case envelope h of (ixChar, ixRoom, ixWeap) \<Rightarrow>
        if in_shape (envelope h) then
          Inr (self \<lparr>
            hypCountByScenario := (hypCountByScenario self)
               (envelope h := hypCountByScenario self (envelope h) - 1),
            hypCountByCharacter := (hypCountByCharacter self)
               (ixChar := hypCountByCharacter self ixChar - 1),
            hypCountByRoom := (hypCountByRoom self)
               (ixRoom := hypCountByRoom self ixRoom - 1),
            hypCountByWeapon := (hypCountByWeapon self)
               (ixWeap := hypCountByWeapon self ixWeap - 1) \<rparr>)
        else Inl IndexError)"

definition addhyptocounts :: "hypothesis \<Rightarrow> detective \<Rightarrow> pyerror + detective" where
  "addhyptocounts h self =
     (case envelope h of (ixChar, ixRoom, ixWeap) \<Rightarrow>
        if in_shape (envelope h) then
          Inr (self \<lparr>
            hypCountByScenario := (hypCountByScenario self)
               (envelope h := hypCountByScenario self (envelope h) + 1),
            hypCountByCharacter := (hypCountByCharacter self)
               (ixChar := hypCountByCharacter self ixChar + 1),
            hypCountByRoom := (hypCountByRoom self)
               (ixRoom := hypCountByRoom self ixRoom + 1),
            hypCountByWeapon := (hypCountByWeapon self)
               (ixWeap := hypCountByWeapon self ixWeap + 1) \<rparr>)
        else Inl IndexError)"

definition updatestats :: "detective \<Rightarrow> detective" where
  "updatestats self =
     (case statsfromcounts (hypCountByScenario self) of
        (p, entropy) \<Rightarrow> self \<lparr> pScenario := p, scenarioEntropy := entropy \<rparr>)"

text \<open>
  The loop that removes the invalidated hypotheses: \<open>keep\<close> is the test of the event; a
  hypothesis that fails it is taken out of the counts, the others form the new list.
\<close>

fun removeinvalidated ::
  "(hypothesis \<Rightarrow> pyerror + bool) \<Rightarrow> hypothesis list \<Rightarrow> hypothesis list \<Rightarrow> detective \<Rightarrow>
   pyerror + hypothesis list \<times> detective" where
  "removeinvalidated keep [] hypsNew self = Inr (hypsNew, self)"
| "removeinvalidated keep (h # hs) hypsNew self =
     (case keep h of
        Inl e \<Rightarrow> Inl e
      | Inr True \<Rightarrow> removeinvalidated keep hs (hypsNew @ [h]) self
      | Inr False \<Rightarrow>
          (case removehypfromcounts h self of
             Inl e \<Rightarrow> Inl e
           | Inr s \<Rightarrow> removeinvalidated keep hs hypsNew s))"

text \<open>
  \<open>len(cards & hypothesis[ix])\<close>: a player's hand for an index below the number of hands;
  the last element is a tuple, and a set and a tuple have no intersection (TypeError).
\<close>

definition holdsany :: "hypothesis \<Rightarrow> nat \<Rightarrow> int set \<Rightarrow> pyerror + bool" where
  "holdsany h ix cards =
     (if ix < length (hands h) then Inr (cards \<inter> hands h ! ix \<noteq> {})
      else if ix = length (hands h) then Inl TypeError
      else Inl IndexError)"


section \<open>Sampling one hypothesis (genfeasiblehypothesis)\<close>

text \<open>
  The random draws of one pass of the sampling loop are a list of numbers, read from the
  front (zero once the list is used up).  \<open>random.sample(cards, 1)[0]\<close> is the card at
  the drawn position of the ascending list of the set; \<open>random.shuffle\<close> draws the next
  card of the deck again and again, so every order of the deck is a possible outcome.
\<close>

definition draw :: "nat list \<Rightarrow> nat \<times> nat list" where
  "draw ds = (case ds of [] \<Rightarrow> (0, []) | d # rest \<Rightarrow> (d, rest))"

definition sample :: "int set \<Rightarrow> nat \<Rightarrow> int" where
  "sample cards d = sorted_list_of_set cards ! (d mod Finite_Set.card cards)"

fun shuffle :: "nat list \<Rightarrow> int list \<Rightarrow> int list" where
  "shuffle ds [] = []"
| "shuffle ds (x # xs) =
     (let i = fst (draw ds) mod length (x # xs)
      in (x # xs) ! i # shuffle (snd (draw ds)) (take i (x # xs) @ drop (Suc i) (x # xs)))"

text \<open>
  Step 2: every seen answer deals its card to the player who showed it, unless that hand
  has it already.
\<close>

fun dealseen ::
  "EventSeenAnswer list \<Rightarrow> int set list \<times> int set \<Rightarrow> pyerror + int set list \<times> int set" where
  "dealseen [] acc = Inr acc"
| "dealseen (constraint # rest) (hypothesis, dealt) =
     (if actor constraint < length hypothesis then
        (if card constraint \<in> hypothesis ! actor constraint then dealseen rest (hypothesis, dealt)
         else dealseen rest
                (hypothesis[actor constraint :=
                   insert (card constraint) (hypothesis ! actor constraint)],
                 insert (card constraint) dealt))
      else Inl IndexError)"

text \<open>
  Step 3: an unseen answer that no card of the hand satisfies yet gets one of the three
  cards, drawn among those not dealt and not forbidden to the player; \<open>None\<close> is
  \<open>hypValid = False\<close>.
\<close>

fun satisfyunseen ::
  "detective \<Rightarrow> EventUnseenAnswer list \<Rightarrow> int set list \<times> int set \<times> nat list \<Rightarrow>
   pyerror + (int set list \<times> int set \<times> nat list) option" where
  "satisfyunseen self [] acc = Inr (Some acc)"
| "satisfyunseen self (constraint # rest) (hypothesis, dealt, ds) =
     (let constraintset = {character constraint, room constraint, weapon constraint} in
      if actor constraint < length hypothesis then
        (if constraintset \<inter> hypothesis ! actor constraint \<noteq> {}
         then satisfyunseen self rest (hypothesis, dealt, ds)
         else if actor constraint < length (nCardsHeld self) then
           (if int (Finite_Set.card (hypothesis ! actor constraint)) < nCardsHeld self ! actor constraint then
              (if actor constraint < length (forbiddenSets self) then
                 (let allowedCards =
                        constraintset - dealt - forbiddenSets self ! actor constraint in
                  if allowedCards \<noteq> {} then
                    (let chosenCard = sample allowedCards (fst (draw ds)) in
                     satisfyunseen self rest
                       (hypothesis[actor constraint :=
                          insert chosenCard (hypothesis ! actor constraint)],
                        insert chosenCard dealt, snd (draw ds)))
                  else Inr None)
               else Inl IndexError)
            else Inr None)
         else Inl IndexError)
      else Inl IndexError)"

text \<open>
  Step 4: the murder scenario, one family after the other, among the cards not dealt and
  not forbidden to the murder hand (\<open>self.forbiddenSets[-1]\<close>); an empty choice makes
  \<open>random.sample\<close> raise the ValueError the loop catches (\<open>None\<close>).
\<close>

definition lookup :: "(int \<rightharpoonup> nat) \<Rightarrow> int \<Rightarrow> pyerror + nat" where
  "lookup m k = (case m k of None \<Rightarrow> Inl KeyError | Some v \<Rightarrow> Inr v)"

definition selectscenario ::
  "detective \<Rightarrow> int set \<times> nat list \<Rightarrow>
   pyerror + ((int \<times> int \<times> int) \<times> scenario \<times> int set \<times> nat list) option" where
  "selectscenario self acc =
     (case acc of (dealt, ds) \<Rightarrow>
      if forbiddenSets self = [] then Inl IndexError
      else
        (let chars = (ALLOWEDCHARS - dealt) - last (forbiddenSets self) in
         if chars = {} then Inr None
         else
           (let murderer = sample chars (fst (draw ds));
                ds1 = snd (draw ds);
                dealt1 = insert murderer dealt;
                rooms = (ALLOWEDROOMS - dealt1) - last (forbiddenSets self) in
            if rooms = {} then Inr None
            else
              (let murderRoom = sample rooms (fst (draw ds1));
                   ds2 = snd (draw ds1);
                   dealt2 = insert murderRoom dealt1;
                   weaps = (ALLOWEDWEAPS - dealt2) - last (forbiddenSets self) in
               if weaps = {} then Inr None
               else
                 (let murderWeap = sample weaps (fst (draw ds2));
                      ds3 = snd (draw ds2);
                      dealt3 = insert murderWeap dealt2 in
                  case lookup CHARINDEX murderer of
                    Inl e \<Rightarrow> Inl e
                  | Inr ixChar \<Rightarrow>
                      (case lookup ROOMINDEX murderRoom of
                         Inl e \<Rightarrow> Inl e
                       | Inr ixRoom \<Rightarrow>
                           (case lookup WEAPINDEX murderWeap of
                              Inl e \<Rightarrow> Inl e
                            | Inr ixWeap \<Rightarrow>
                                Inr (Some ((murderer, murderRoom, murderWeap),
                                           (ixChar, ixRoom, ixWeap), dealt3, ds3)))))))))"

text \<open>
  Step 5: the first player who is not forbidden the card and has room for it receives
  it; \<open>None\<close> when nobody can.
\<close>

fun recipient ::
  "detective \<Rightarrow> int set list \<Rightarrow> int \<Rightarrow> nat list \<Rightarrow> pyerror + nat option" where
  "recipient self hypothesis c [] = Inr None"
| "recipient self hypothesis c (ix # ixs) =
     (case isforbidden self ix c of
        Inl e \<Rightarrow> Inl e
      | Inr True \<Rightarrow> recipient self hypothesis c ixs
      | Inr False \<Rightarrow>
          if ix < length hypothesis then
            (if ix < length (nCardsHeld self) then
               (if int (Finite_Set.card (hypothesis ! ix)) < nCardsHeld self ! ix then Inr (Some ix)
                else recipient self hypothesis c ixs)
             else Inl IndexError)
          else Inl IndexError)"

fun dealdeck ::
  "detective \<Rightarrow> int list \<Rightarrow> int set list \<times> int set \<Rightarrow>
   pyerror + (int set list \<times> int set) option" where
  "dealdeck self [] acc = Inr (Some acc)"
| "dealdeck self (c # cs) (hypothesis, dealt) =
     (case recipient self hypothesis c [0 ..< nat (nPlayers self)] of
        Inl e \<Rightarrow> Inl e
      | Inr None \<Rightarrow> Inr None
      | Inr (Some ix) \<Rightarrow>
          dealdeck self cs (hypothesis[ix := insert c (hypothesis ! ix)], insert c dealt))"

text \<open>Step 6: a scenario that a wrong accusation named is rejected.\<close>

definition wronglyaccused :: "detective \<Rightarrow> int \<times> int \<times> int \<Rightarrow> bool" where
  "wronglyaccused self triple =
     list_ex (\<lambda>wrongAcc. triple = (character wrongAcc, room wrongAcc, weapon wrongAcc))
       (logIncorrectAccusations self)"

text \<open>
  One pass of the loop.  \<open>Inr None\<close>: the pass ended with \<open>hypValid = False\<close>;
  \<open>Inr (Some (h, dealt))\<close>: a hypothesis was completed, \<open>dealt\<close> being the cards dealt.  The
  list under construction has a set for every player and one more, which step 4
  replaces by the scenario tuple.
\<close>

definition attempt :: "detective \<Rightarrow> nat list \<Rightarrow> pyerror + (hypothesis \<times> int set) option" where
  "attempt self ds =
     (let hypothesis0 = replicate (nat (nPlayers self + 1)) ({} :: int set) in
      if hypothesis0 = [] then Inl IndexError
      else
        case dealseen (logSeenAnswers self) (hypothesis0[0 := myCardSet self], myCardSet self) of
          Inl e \<Rightarrow> Inl e
        | Inr (hypothesis1, dealt1) \<Rightarrow>
            (case satisfyunseen self (logUnseenAnswers self) (hypothesis1, dealt1, ds) of
               Inl e \<Rightarrow> Inl e
             | Inr None \<Rightarrow> Inr None
             | Inr (Some (hypothesis2, dealt2, ds2)) \<Rightarrow>
                 (case selectscenario self (dealt2, ds2) of
                    Inl e \<Rightarrow> Inl e
                  | Inr None \<Rightarrow> Inr None
                  | Inr (Some (triple, ixs, dealt3, ds3)) \<Rightarrow>
                      (case dealdeck self (shuffle ds3 (sorted_list_of_set (ALLOWEDCARDS - dealt3)))
                              (butlast hypothesis2, dealt3) of
                         Inl e \<Rightarrow> Inl e
                       | Inr None \<Rightarrow> Inr None
                       | Inr (Some (hypothesis4, dealt4)) \<Rightarrow>
                           if wronglyaccused self triple then Inr None
                           else Inr (Some (\<lparr> hands = hypothesis4, envelope = ixs \<rparr>, dealt4))))))"

text \<open>
  The loop runs until a pass completes a hypothesis, then asserts that every card was
  dealt.  Each element of \<open>rng\<close> holds the draws of one pass; \<open>None\<close>: the loop has not
  ended on the passes given.  The result carries the number of passes and the draws left.
\<close>

fun genfeasiblehypothesis ::
  "detective \<Rightarrow> nat list list \<Rightarrow> nat \<Rightarrow> ((pyerror + hypothesis \<times> nat) \<times> nat list list) option" where
  "genfeasiblehypothesis self [] genAttempts = None"
| "genfeasiblehypothesis self (ds # rng) genAttempts =
     (case attempt self ds of
        Inl e \<Rightarrow> Some (Inl e, rng)
      | Inr None \<Rightarrow> genfeasiblehypothesis self rng (genAttempts + 1)
      | Inr (Some (hypothesis, dealt)) \<Rightarrow>
          if dealt = ALLOWEDCARDS then Some (Inr (hypothesis, genAttempts + 1), rng)
          else Some (Inl AssertionError, rng))"


section \<open>Rebuilding the pool (rebuildhypotheses)\<close>

text \<open>
  \<open>nCr\<close> is \<open>scipy.misc.comb(N, k, exact=True)\<close>: the binomial coefficient, and zero when
  \<open>k > N\<close>, \<open>N < 0\<close> or \<open>k < 0\<close>.
\<close>

definition nCr :: "int \<Rightarrow> int \<Rightarrow> int" where
  "nCr N k = (if k > N \<or> N < 0 \<or> k < 0 then 0 else int (nat N choose nat k))"

fun collect :: "('a \<Rightarrow> pyerror + 'b) \<Rightarrow> 'a list \<Rightarrow> pyerror + 'b list" where
  "collect f [] = Inr []"
| "collect f (x # xs) =
     (case f x of
        Inl e \<Rightarrow> Inl e
      | Inr y \<Rightarrow> (case collect f xs of Inl e \<Rightarrow> Inl e | Inr ys \<Rightarrow> Inr (y # ys)))"

definition trues :: "bool list \<Rightarrow> int" where
  "trues bs = int (length (filter (\<lambda>b. b) bs))"

text \<open>\<open>np.sum(self.forbidden[:, card])\<close> and \<open>np.sum(self.forbidden[ix, :])\<close>.\<close>

definition forbiddenincolumn :: "detective \<Rightarrow> int \<Rightarrow> pyerror + int" where
  "forbiddenincolumn self c =
     (case collect (\<lambda>ix. isforbidden self ix c) [0 ..< length (forbidden self)] of
        Inl e \<Rightarrow> Inl e
      | Inr col \<Rightarrow> Inr (trues col))"

definition forbiddeninrow :: "detective \<Rightarrow> nat \<Rightarrow> pyerror + int" where
  "forbiddeninrow self ix =
     (if ix < length (forbidden self) then Inr (trues (forbidden self ! ix)) else Inl IndexError)"

text \<open>
  \<open>np.sum(self.forbidden[self.nPlayers, list(cards)])\<close>, the cards of a family that the
  murder hand is forbidden.
\<close>

definition murderforbidden :: "detective \<Rightarrow> int list \<Rightarrow> pyerror + int" where
  "murderforbidden self cards =
     (case npindex (length (forbidden self)) (nPlayers self) of
        None \<Rightarrow> Inl IndexError
      | Some ix \<Rightarrow>
          (case collect (\<lambda>c. isforbidden self ix c) cards of
             Inl e \<Rightarrow> Inl e
           | Inr row \<Rightarrow> Inr (trues row)))"

text \<open>
  The first hand, the murder hand included, that is not forbidden the card; \<open>None\<close> when
  there is none.
\<close>

fun firstallowed :: "detective \<Rightarrow> int \<Rightarrow> nat list \<Rightarrow> pyerror + nat option" where
  "firstallowed self c [] = Inr None"
| "firstallowed self c (ix # ixs) =
     (case isforbidden self ix c of
        Inl e \<Rightarrow> Inl e
      | Inr True \<Rightarrow> firstallowed self c ixs
      | Inr False \<Rightarrow> Inr (Some ix))"

text \<open>
  The cards whose place is known leave one card less to deal and one space less in the
  hand of their holder.  A Python set of small integers is walked in ascending order.
\<close>

fun knowncards ::
  "detective \<Rightarrow> int list \<Rightarrow> int list \<times> int \<Rightarrow> pyerror + int list \<times> int" where
  "knowncards self [] acc = Inr acc"
| "knowncards self (c # cs) (dealSpaces, cardsLeft) =
     (case forbiddenincolumn self c of
        Inl e \<Rightarrow> Inl e
      | Inr n \<Rightarrow>
          if n = nPlayers self then
            (case firstallowed self c [0 ..< nat (nPlayers self + 1)] of
               Inl e \<Rightarrow> Inl e
             | Inr None \<Rightarrow> Inl StopIteration
             | Inr (Some ixAllowed) \<Rightarrow>
                 if int ixAllowed \<noteq> nPlayers self then
                   (if ixAllowed < length dealSpaces
                    then knowncards self cs
                           (dealSpaces[ixAllowed := dealSpaces ! ixAllowed - 1], cardsLeft - 1)
                    else Inl IndexError)
                 else knowncards self cs (dealSpaces, cardsLeft))
          else knowncards self cs (dealSpaces, cardsLeft))"

text \<open>
  The players in the order of the deal, each contributing the number of ways of choosing
  the free spaces of the hand among the cards left.
\<close>

fun dealfactors ::
  "detective \<Rightarrow> nat list \<Rightarrow> int list \<Rightarrow> int \<times> int \<Rightarrow> pyerror + int" where
  "dealfactors self [] dealSpaces acc = Inr (fst acc)"
| "dealfactors self (ixPlayer # ixs) dealSpaces (nHypsApprox, cardsLeft) =
     (case forbiddeninrow self ixPlayer of
        Inl e \<Rightarrow> Inl e
      | Inr n \<Rightarrow>
          if ixPlayer < length dealSpaces then
            dealfactors self ixs dealSpaces
              (nHypsApprox * nCr (min cardsLeft (int NCARDS - n)) (dealSpaces ! ixPlayer),
               cardsLeft - dealSpaces ! ixPlayer)
          else Inl IndexError)"

definition dealorder :: "detective \<Rightarrow> nat list" where
  "dealorder self =
     map (\<lambda>k. nat ((ixDealer self + int k) mod nPlayers self)) [0 ..< nat (nPlayers self)]"

definition nHypsApprox :: "detective \<Rightarrow> pyerror + int" where
  "nHypsApprox self =
     (case knowncards self (sorted_list_of_set ALLOWEDCARDS) (nCardsHeld self, int NCARDS - 3) of
        Inl e \<Rightarrow> Inl e
      | Inr (dealSpaces, cardsLeft) \<Rightarrow>
          (case murderforbidden self (sorted_list_of_set ALLOWEDCHARS) of
             Inl e \<Rightarrow> Inl e
           | Inr fc \<Rightarrow>
               (case murderforbidden self (sorted_list_of_set ALLOWEDROOMS) of
                  Inl e \<Rightarrow> Inl e
                | Inr fr \<Rightarrow>
                    (case murderforbidden self (sorted_list_of_set ALLOWEDWEAPS) of
                       Inl e \<Rightarrow> Inl e
                     | Inr fw \<Rightarrow>
                         dealfactors self (dealorder self) dealSpaces
                           ((int NCHARS - fc) * (int NROOMS - fr) * (int NWEAPS - fw),
                            cardsLeft)))))"

subsection \<open>Enumeration of every deal\<close>

text \<open>
  A hypothesis under construction: the hands, the three entries of its last element
  (\<open>-1\<close> while not chosen), and the cards dealt so far.
\<close>

record partialhyp =
  phands :: "int set list"
  pscenario :: "int \<times> int \<times> int"
  pdealt :: "int set"

text \<open>
  Step 1: a card that all hands but one are forbidden goes to that hand; a card of the
  murder hand sets the entry of its family.
\<close>

definition setmurderentry :: "int \<Rightarrow> int \<times> int \<times> int \<Rightarrow> int \<times> int \<times> int" where
  "setmurderentry c entries =
     (case entries of (ec, er, ew) \<Rightarrow>
        (case CHARINDEX c of
           Some ixChar \<Rightarrow> (int ixChar, er, ew)
         | None \<Rightarrow>
             (case ROOMINDEX c of
                Some ixRoom \<Rightarrow> (ec, int ixRoom, ew)
              | None \<Rightarrow>
                  (case WEAPINDEX c of
                     Some ixWeap \<Rightarrow> (ec, er, int ixWeap)
                   | None \<Rightarrow> (ec, er, ew)))))"

fun dealknown :: "detective \<Rightarrow> int list \<Rightarrow> partialhyp \<Rightarrow> pyerror + partialhyp" where
  "dealknown self [] h = Inr h"
| "dealknown self (c # cs) h =
     (case forbiddenincolumn self c of
        Inl e \<Rightarrow> Inl e
      | Inr n \<Rightarrow>
          if n = nPlayers self then
            (case collect (\<lambda>ix. isforbidden self ix c) [0 ..< nat (nPlayers self + 1)] of
               Inl e \<Rightarrow> Inl e
             | Inr row \<Rightarrow>
                 (case filter (\<lambda>ix. \<not> row ! ix) [0 ..< length row] of
                    [] \<Rightarrow> Inl IndexError
                  | ixHolder # others \<Rightarrow>
                      if int ixHolder < nPlayers self then
                        dealknown self cs
                          (h \<lparr> phands := (phands h)[ixHolder := insert c (phands h ! ixHolder)],
                               pdealt := insert c (pdealt h) \<rparr>)
                      else
                        dealknown self cs
                          (h \<lparr> pscenario := setmurderentry c (pscenario h),
                               pdealt := insert c (pdealt h) \<rparr>)))
          else dealknown self cs h)"

text \<open>
  Step 3: the murder scenarios of a hypothesis.  An entry already set leaves one card of
  its family; otherwise the cards of the family neither dealt nor in
  \<open>self.forbiddenSets[-1]\<close>.  The result pairs every hypothesis with the three cards
  chosen for it.
\<close>

definition familychoice :: "int \<Rightarrow> int list \<Rightarrow> int set \<Rightarrow> int set \<Rightarrow> int set \<Rightarrow> pyerror + int set" where
  "familychoice entry cards family dealt forbiddenLast =
     (if entry \<ge> 0 then
        (if nat entry < length cards then Inr {cards ! nat entry} else Inl IndexError)
      else Inr (family - dealt - forbiddenLast))"

definition scenarios ::
  "detective \<Rightarrow> partialhyp \<Rightarrow> pyerror + (hypothesis \<times> int set \<times> int \<times> int \<times> int) list" where
  "scenarios self h =
     (case pscenario h of (ec, er, ew) \<Rightarrow>
        if forbiddenSets self = [] \<and> (ec < 0 \<or> er < 0 \<or> ew < 0) then Inl IndexError
        else
          (case familychoice ec CHARS ALLOWEDCHARS (pdealt h) (last (forbiddenSets self)) of
             Inl e \<Rightarrow> Inl e
           | Inr charSet \<Rightarrow>
               (case familychoice er ROOMS ALLOWEDROOMS (pdealt h) (last (forbiddenSets self)) of
                  Inl e \<Rightarrow> Inl e
                | Inr roomSet \<Rightarrow>
                    (case familychoice ew WEAPS ALLOWEDWEAPS (pdealt h)
                            (last (forbiddenSets self)) of
                       Inl e \<Rightarrow> Inl e
                     | Inr weapSet \<Rightarrow>
                         collect
                           (\<lambda>t. case t of (murderer, murderRoom, murderWeap) \<Rightarrow>
                              (case lookup CHARINDEX murderer of
                                 Inl e \<Rightarrow> Inl e
                               | Inr ixChar \<Rightarrow>
                                   (case lookup ROOMINDEX murderRoom of
                                      Inl e \<Rightarrow> Inl e
                                    | Inr ixRoom \<Rightarrow>
                                        (case lookup WEAPINDEX murderWeap of
                                           Inl e \<Rightarrow> Inl e
                                         | Inr ixWeap \<Rightarrow>
                                             Inr (\<lparr> hands = phands h,
                                                     envelope = (ixChar, ixRoom, ixWeap) \<rparr>,
                                                  pdealt h \<union> {murderer, murderRoom, murderWeap},
                                                  murderer, murderRoom, murderWeap)))))
                           (concat (map (\<lambda>murderer.
                              concat (map (\<lambda>murderRoom.
                                map (\<lambda>murderWeap. (murderer, murderRoom, murderWeap))
                                  (sorted_list_of_set weapSet))
                                (sorted_list_of_set roomSet)))
                              (sorted_list_of_set charSet)))))))"

text \<open>
  Step 4, one round: a hypothesis with every card dealt is kept; otherwise a card not
  yet dealt (\<open>set.pop\<close>, here the least) goes to every player, the detective apart, who
  has room for it and is not forbidden it, each giving a hypothesis of the next round.
\<close>

fun destinations :: "detective \<Rightarrow> int set list \<Rightarrow> int \<Rightarrow> nat list \<Rightarrow> pyerror + nat list" where
  "destinations self hs c [] = Inr []"
| "destinations self hs c (ixPlayer # ixs) =
     (if ixPlayer < length hs \<and> ixPlayer < length (nCardsHeld self) then
        (if int (Finite_Set.card (hs ! ixPlayer)) < nCardsHeld self ! ixPlayer then
           (if ixPlayer < length (forbiddenSets self) then
              (case destinations self hs c ixs of
                 Inl e \<Rightarrow> Inl e
               | Inr ds \<Rightarrow>
                   Inr (if c \<notin> forbiddenSets self ! ixPlayer then ixPlayer # ds else ds))
            else Inl IndexError)
         else destinations self hs c ixs)
      else Inl IndexError)"

fun dealround ::
  "detective \<Rightarrow> (hypothesis \<times> int set) list \<Rightarrow>
   pyerror + (hypothesis \<times> int set) list \<times> nat" where
  "dealround self [] = Inr ([], 0)"
| "dealround self ((h, dealt) # rest) =
     (if dealt = ALLOWEDCARDS then
        (case dealround self rest of
           Inl e \<Rightarrow> Inl e
         | Inr (newHyps, hypsComplete) \<Rightarrow> Inr ((h, dealt) # newHyps, hypsComplete + 1))
      else if ALLOWEDCARDS - dealt = {} then Inl KeyError
      else
        (let dealtCard = Min (ALLOWEDCARDS - dealt) in
         case destinations self (hands h) dealtCard [1 ..< nat (nPlayers self)] of
           Inl e \<Rightarrow> Inl e
         | Inr ds \<Rightarrow>
             (case dealround self rest of
                Inl e \<Rightarrow> Inl e
              | Inr (newHyps, hypsComplete) \<Rightarrow>
                  Inr (map (\<lambda>ixPlayer.
                         (h \<lparr> hands := (hands h)[ixPlayer := insert dealtCard (hands h ! ixPlayer)] \<rparr>,
                          insert dealtCard dealt)) ds @ newHyps,
                       hypsComplete))))"


text \<open>
  Step 4, the loop: rounds are dealt while the round before kept fewer hypotheses than
  the list now holds.
\<close>

fun undealt :: "(hypothesis \<times> int set) list \<Rightarrow> nat" where
  "undealt [] = 0"
| "undealt ((h, dealt) # rest) = max (Finite_Set.card (ALLOWEDCARDS - dealt)) (undealt rest)"

function dealremaining ::
  "detective \<Rightarrow> (hypothesis \<times> int set) list \<Rightarrow> nat \<Rightarrow> pyerror + (hypothesis \<times> int set) list" where
  "dealremaining self hyps hypsComplete =
     (if hypsComplete < length hyps then
        (case dealround self hyps of
           Inl e \<Rightarrow> Inl e
         | Inr (newHyps, nComplete) \<Rightarrow> dealremaining self newHyps nComplete)
      else Inr hyps)"
  by pat_completeness auto

lemma finite_ALLOWEDCARDS: "finite ALLOWEDCARDS"
  by (simp add: ALLOWEDCARDS_def ALLOWEDCHARS_def ALLOWEDROOMS_def ALLOWEDWEAPS_def)

lemma undealt_append: "undealt (xs @ ys) = max (undealt xs) (undealt ys)"
  by (induction xs rule: undealt.induct) auto

lemma undealt_children:
  assumes "ALLOWEDCARDS - dealt \<noteq> {}"
  shows "undealt (map (\<lambda>ix. (f ix, insert (Min (ALLOWEDCARDS - dealt)) dealt)) ds)
         \<le> Finite_Set.card (ALLOWEDCARDS - dealt) - 1"
proof (induction ds)
  case Nil
  show ?case by simp
next
  case (Cons ix ds)
  have fin: "finite (ALLOWEDCARDS - dealt)"
    using finite_ALLOWEDCARDS by simp
  have "Min (ALLOWEDCARDS - dealt) \<in> ALLOWEDCARDS - dealt"
    using fin assms by (rule Min_in)
  moreover have "ALLOWEDCARDS - insert (Min (ALLOWEDCARDS - dealt)) dealt
                 = (ALLOWEDCARDS - dealt) - {Min (ALLOWEDCARDS - dealt)}"
    by auto
  ultimately have "Finite_Set.card (ALLOWEDCARDS - insert (Min (ALLOWEDCARDS - dealt)) dealt)
                   = Finite_Set.card (ALLOWEDCARDS - dealt) - 1"
    using fin by (simp add: card_Diff_singleton)
  with Cons show ?case by simp
qed

lemma dealround_undealt:
  "dealround self hyps = Inr (newHyps, nComplete) \<Longrightarrow> undealt newHyps \<le> undealt hyps - 1"
proof (induction hyps arbitrary: newHyps nComplete)
  case Nil
  then show ?case by simp
next
  case (Cons x rest)
  obtain h dealt where x: "x = (h, dealt)" by (cases x)
  from Cons.prems obtain restHyps restComplete
    where rest: "dealround self rest = Inr (restHyps, restComplete)"
    unfolding x by (auto simp: Let_def split: if_splits sum.splits prod.splits)
  have ih: "undealt restHyps \<le> undealt rest - 1"
    using Cons.IH rest by blast
  show ?case
  proof (cases "dealt = ALLOWEDCARDS")
    case True
    with Cons.prems rest have "newHyps = (h, dealt) # restHyps"
      unfolding x by auto
    with True ih show ?thesis unfolding x by simp
  next
    case False
    with Cons.prems have ne: "ALLOWEDCARDS - dealt \<noteq> {}"
      unfolding x by (auto split: if_splits)
    define deal where "deal = (\<lambda>ixPlayer.
         h \<lparr> hands := (hands h)[ixPlayer := insert (Min (ALLOWEDCARDS - dealt)) (hands h ! ixPlayer)] \<rparr>)"
    from Cons.prems False ne rest obtain ds where
      new: "newHyps = map (\<lambda>ix. (deal ix, insert (Min (ALLOWEDCARDS - dealt)) dealt)) ds @ restHyps"
      unfolding x deal_def by (auto simp: Let_def split: sum.splits)
    have "undealt (map (\<lambda>ix. (deal ix, insert (Min (ALLOWEDCARDS - dealt)) dealt)) ds)
          \<le> Finite_Set.card (ALLOWEDCARDS - dealt) - 1"
      by (rule undealt_children [OF ne])
    then have "undealt newHyps
               \<le> max (Finite_Set.card (ALLOWEDCARDS - dealt) - 1) (undealt restHyps)"
      unfolding new undealt_append by (rule max.mono) simp
    with ih show ?thesis unfolding x by auto
  qed
qed

lemma dealround_complete:
  "dealround self hyps = Inr (newHyps, nComplete) \<Longrightarrow> undealt hyps = 0 \<Longrightarrow>
   newHyps = hyps \<and> nComplete = length hyps"
proof (induction hyps arbitrary: newHyps nComplete)
  case Nil
  then show ?case by simp
next
  case (Cons x rest)
  obtain h dealt where x: "x = (h, dealt)" by (cases x)
  from Cons.prems(2) have zero: "Finite_Set.card (ALLOWEDCARDS - dealt) = 0" "undealt rest = 0"
    unfolding x by auto
  then have empty: "ALLOWEDCARDS - dealt = {}"
    using finite_ALLOWEDCARDS by simp
  from Cons.prems(1) empty have eq: "dealt = ALLOWEDCARDS"
    unfolding x by (auto split: if_splits)
  from Cons.prems(1) eq obtain restHyps restComplete
    where rest: "dealround self rest = Inr (restHyps, restComplete)"
      and new: "newHyps = (h, dealt) # restHyps" "nComplete = restComplete + 1"
    unfolding x by (auto split: sum.splits)
  from Cons.IH [OF rest zero(2)] new show ?case unfolding x by simp
qed

termination dealremaining
proof (relation "measure (\<lambda>(self, hyps, hypsComplete).
                   2 * undealt hyps + (if hypsComplete < length hyps then 1 else 0))")
  show "wf (measure (\<lambda>(self, hyps, hypsComplete).
                   2 * undealt hyps + (if hypsComplete < length hyps then 1 else 0)))"
    by simp
next
  fix self :: detective and hyps :: "(hypothesis \<times> int set) list" and hypsComplete :: nat
    and x2 newHyps nComplete
  assume less: "hypsComplete < length hyps"
    and round: "dealround self hyps = Inr x2" and x2: "(newHyps, nComplete) = x2"
  have r: "dealround self hyps = Inr (newHyps, nComplete)"
    using round x2 by simp
  show "((self, newHyps, nComplete), (self, hyps, hypsComplete))
        \<in> measure (\<lambda>(self, hyps, hypsComplete).
                   2 * undealt hyps + (if hypsComplete < length hyps then 1 else 0))"
  proof (cases "undealt hyps = 0")
    case True
    with dealround_complete [OF r] less show ?thesis by simp
  next
    case False
    with dealround_undealt [OF r] have "undealt newHyps < undealt hyps" by linarith
    with less show ?thesis by simp
  qed
qed

text \<open>
  The trim after the enumeration compares the last element of every hypothesis, a
  tuple of indices, with the tuple of the three cards that step 3 chose last.
\<close>

definition trim ::
  "detective \<Rightarrow> (int \<times> int \<times> int) option \<Rightarrow> hypothesis list \<Rightarrow> pyerror + hypothesis list" where
  "trim self lastChosen hyps =
     (if logIncorrectAccusations self = [] \<or> hyps = [] then Inr hyps
      else
        (case lastChosen of
           None \<Rightarrow> Inl NameError
         | Some (murderer, murderRoom, murderWeap) \<Rightarrow>
             Inr (filter (\<lambda>x. (case envelope x of (ixChar, ixRoom, ixWeap) \<Rightarrow>
                                 (int ixChar, int ixRoom, int ixWeap))
                               \<noteq> (murderer, murderRoom, murderWeap)) hyps)))"

fun counthyps :: "hypothesis list \<Rightarrow> detective \<Rightarrow> pyerror + detective" where
  "counthyps [] self = Inr self"
| "counthyps (h # hs) self =
     (case addhyptocounts h self of Inl e \<Rightarrow> Inl e | Inr s \<Rightarrow> counthyps hs s)"

definition zerocounts :: "detective \<Rightarrow> detective" where
  "zerocounts self =
     self \<lparr> hypCountByScenario := (\<lambda>s. 0), hypCountByCharacter := (\<lambda>i. 0),
            hypCountByRoom := (\<lambda>i. 0), hypCountByWeapon := (\<lambda>i. 0) \<rparr>"

definition enumerate_deals :: "detective \<Rightarrow> pyerror + detective" where
  "enumerate_deals self =
     (case dealknown self (sorted_list_of_set ALLOWEDCARDS)
             \<lparr> phands = replicate (nat (nPlayers self)) {}, pscenario = (-1, -1, -1),
               pdealt = {} \<rparr> of
        Inl e \<Rightarrow> Inl e
      | Inr h1 \<Rightarrow>
          if logUnseenAnswers self \<noteq> [] then Inl AttributeError
          else
            (case scenarios self h1 of
               Inl e \<Rightarrow> Inl e
             | Inr chosen \<Rightarrow>
                 (case dealremaining self (map (\<lambda>t. (fst t, fst (snd t))) chosen) 0 of
                    Inl e \<Rightarrow> Inl e
                  | Inr dealtHyps \<Rightarrow>
                      (case trim self (if chosen = [] then None else Some (snd (snd (last chosen))))
                              (map fst dealtHyps) of
                         Inl e \<Rightarrow> Inl e
                       | Inr hyps \<Rightarrow>
                           (case counthyps hyps (zerocounts (self \<lparr> hypotheses := hyps \<rparr>)) of
                              Inl e \<Rightarrow> Inl e
                            | Inr s \<Rightarrow> Inr (s \<lparr> areHypothesesEnumerable := True \<rparr>))))))"

subsection \<open>Sampling up to the target length\<close>

fun generate :: "nat \<Rightarrow> detective \<Rightarrow> nat list list \<Rightarrow> (pyerror + detective) option" where
  "generate 0 self rng = Some (Inr self)"
| "generate (Suc n) self rng =
     (case genfeasiblehypothesis self rng 0 of
        None \<Rightarrow> None
      | Some (Inl e, rest) \<Rightarrow> Some (Inl e)
      | Some (Inr (hypothesis, genAttempts), rest) \<Rightarrow>
          (case addhyptocounts hypothesis (self \<lparr> hypotheses := hypotheses self @ [hypothesis] \<rparr>) of
             Inl e \<Rightarrow> Some (Inl e)
           | Inr s \<Rightarrow> generate n s rest))"

text \<open>
  \<open>rebuildhypotheses\<close>.  With exact inference there is nothing to do.  Otherwise the
  number of deals is estimated; under the threshold the pool becomes the list of all
  deals, else hypotheses are sampled until the pool has \<open>HYPSAMPLECOUNT\<close> of them
  (\<open>np.zeros\<close> of a negative length raises ValueError).
\<close>

definition rebuildhypotheses :: "detective \<Rightarrow> nat list list \<Rightarrow> unit outcome" where
  "rebuildhypotheses self rng =
     (if areHypothesesEnumerable self then Returns () self
      else
        (case nHypsApprox self of
           Inl e \<Rightarrow> Raises e
         | Inr n \<Rightarrow>
             if n < THRESHAPPROXHYPCOUNT self then
               (case enumerate_deals self of
                  Inl e \<Rightarrow> Raises e
                | Inr s \<Rightarrow> Returns () (updatestats s))
             else if HYPSAMPLECOUNT self < length (hypotheses self) then Raises ValueError
             else
               (case generate (HYPSAMPLECOUNT self - length (hypotheses self)) self rng of
                  None \<Rightarrow> Exhausted
                | Some (Inl e) \<Rightarrow> Raises e
                | Some (Inr s) \<Rightarrow> Returns () (updatestats s))))"

section \<open>Events (velma/core.py)\<close>

text \<open>
  An argument left out of a call is \<open>None\<close>.  The end of every event that changes the
  pool: the hypotheses that fail the test of the event go, the pool is rebuilt and the
  statistics are updated.
\<close>

definition reducepool ::
  "(hypothesis \<Rightarrow> pyerror + bool) \<Rightarrow> detective \<Rightarrow> nat list list \<Rightarrow> unit outcome" where
  "reducepool keep self rng =
     (case removeinvalidated keep (hypotheses self) [] self of
        Inl e \<Rightarrow> Raises e
      | Inr (hypsNew, s) \<Rightarrow>
          (case rebuildhypotheses (s \<lparr> hypotheses := hypsNew \<rparr>) rng of
             Returns u s' \<Rightarrow> Returns () (updatestats s')
           | Raises e \<Rightarrow> Raises e
           | Exhausted \<Rightarrow> Exhausted))"

definition listindex :: "'a list \<Rightarrow> nat \<Rightarrow> pyerror + 'a" where
  "listindex xs i = (if i < length xs then Inr (xs ! i) else Inl IndexError)"

definition event_move :: "detective \<Rightarrow> nat option \<Rightarrow> nat option \<Rightarrow> unit outcome" where
  "event_move self destNode player =
     (case (case destNode of
              None \<Rightarrow> if logMoves self = [] then Inl IndexError
                       else Inr (last (logMoves self), self)
            | Some dest \<Rightarrow>
                (case listindex (playerCharIxs self) (case player of None \<Rightarrow> 0 | Some p \<Rightarrow> p) of
                   Inl e \<Rightarrow> Inl e
                 | Inr ixChar \<Rightarrow>
                     (case listindex (charLocations self) ixChar of
                        Inl e \<Rightarrow> Inl e
                      | Inr start \<Rightarrow>
                          (let event = \<lparr> turn = ixTurn self,
                                         actor = (case player of None \<Rightarrow> 0 | Some p \<Rightarrow> p),
                                         nodeStart = start, nodeStop = dest \<rparr>
                           in Inr (event, self \<lparr> logMoves := logMoves self @ [event] \<rparr>))))) of
        Inl e \<Rightarrow> Raises e
      | Inr (event, s) \<Rightarrow>
          (let s1 = (if actor event = 0
                     then s \<lparr> canSuggestInCurrentRoom := True,
                              hasEnteredRoomYet :=
                                (case destNode of
                                   None \<Rightarrow> hasEnteredRoomYet s
                                 | Some dest \<Rightarrow> ROOMNODEIXS dest \<noteq> None \<or> hasEnteredRoomYet s) \<rparr>
                     else s)
           in case listindex (playerCharIxs s1) (actor event) of
                Inl e \<Rightarrow> Raises e
              | Inr ixChar \<Rightarrow>
                  if ixChar < length (charLocations s1)
                  then Returns () (s1 \<lparr> charLocations := (charLocations s1)[ixChar := nodeStop event] \<rparr>)
                  else Raises IndexError))"


definition event_suggestion ::
  "detective \<Rightarrow> int option \<Rightarrow> int option \<Rightarrow> int option \<Rightarrow> nat option \<Rightarrow> unit outcome" where
  "event_suggestion self character' room' weapon' player =
     (case (case (character', room', weapon') of
              (Some ch, Some rm, Some wp) \<Rightarrow>
                (let event = \<lparr> turn = ixTurn self,
                               actor = (case player of None \<Rightarrow> 0 | Some p \<Rightarrow> p),
                               character = ch, room = rm, weapon = wp \<rparr>
                 in Inr (event, self \<lparr> logSuggestions := logSuggestions self @ [event] \<rparr>))
            | _ \<Rightarrow> if logSuggestions self = [] then Inl IndexError
                   else Inr (last (logSuggestions self), self)) of
        Inl e \<Rightarrow> Raises e
      | Inr (event, s) \<Rightarrow>
          (case lookup CHARINDEX (character event) of
             Inl e \<Rightarrow> Raises e
           | Inr ixChar \<Rightarrow>
               (case (if actor event = 0 then Inr (s \<lparr> canSuggestInCurrentRoom := False \<rparr>)
                      else
                        (case listindex (playerCharIxs s) 0 of
                           Inl e \<Rightarrow> Inl e
                         | Inr myChar \<Rightarrow>
                             if ixChar = myChar then
                               (case listindex (charLocations s) myChar of
                                  Inl e \<Rightarrow> Inl e
                                | Inr node \<Rightarrow>
                                    if node \<noteq> actor event
                                    then Inr (s \<lparr> canSuggestInCurrentRoom := True \<rparr>)
                                    else Inr s)
                             else Inr s)) of
                  Inl e \<Rightarrow> Raises e
                | Inr s1 \<Rightarrow>
                    (case lookup ROOMCARDNODES (room event) of
                       Inl e \<Rightarrow> Raises e
                     | Inr node \<Rightarrow>
                         if ixChar < length (charLocations s1)
                         then Returns () (s1 \<lparr> charLocations := (charLocations s1)[ixChar := node] \<rparr>)
                         else Raises IndexError))))"

text \<open>
  What \<open>event_pass\<close> does with the event it has read or made: the three cards are
  forbidden to the actor, and the hypotheses in which the actor holds one of them go.
\<close>

definition applypass ::
  "detective \<Rightarrow> nat \<Rightarrow> int \<Rightarrow> int \<Rightarrow> int \<Rightarrow> nat list list \<Rightarrow> unit outcome" where
  "applypass self ixActor ch rm wp rng =
     (case passcard ALLOWEDCHARS ixActor ch self of
        Inl e \<Rightarrow> Raises e
      | Inr s1 \<Rightarrow>
          (case passcard ALLOWEDROOMS ixActor rm s1 of
             Inl e \<Rightarrow> Raises e
           | Inr s2 \<Rightarrow>
               (case passcard ALLOWEDWEAPS ixActor wp s2 of
                  Inl e \<Rightarrow> Raises e
                | Inr s3 \<Rightarrow>
                    reducepool
                      (\<lambda>h. case holdsany h ixActor {ch, rm, wp} of
                              Inl e \<Rightarrow> Inl e
                            | Inr b \<Rightarrow> Inr (\<not> b))
                      s3 rng)))"

definition event_pass ::
  "detective \<Rightarrow> int option \<Rightarrow> int option \<Rightarrow> int option \<Rightarrow> nat option \<Rightarrow> nat list list \<Rightarrow>
   unit outcome" where
  "event_pass self character' room' weapon' player rng =
     (case (character', room', weapon') of
        (Some ch, Some rm, Some wp) \<Rightarrow>
          (let event = \<lparr> turn = ixTurn self,
                         actor = (case player of None \<Rightarrow> 0 | Some p \<Rightarrow> p),
                         character = ch, room = rm, weapon = wp \<rparr>
           in applypass (self \<lparr> logPasses := logPasses self @ [event] \<rparr>)
                (actor event) (character event) (room event) (weapon event) rng)
      | _ \<Rightarrow>
          if logPasses self = [] then Raises IndexError
          else
            (let event = last (logPasses self)
             in applypass self (actor event) (character event) (room event) (weapon event) rng))"

text \<open>
  \<open>event_seenresponse\<close>: the card is forbidden to every hand but the one that showed
  it, and the hypotheses in which that hand does not hold it go.
\<close>

fun seenforbid :: "nat \<Rightarrow> int \<Rightarrow> nat list \<Rightarrow> detective \<Rightarrow> pyerror + detective" where
  "seenforbid ixActor c [] self = Inr self"
| "seenforbid ixActor c (ixPlayer # ixs) self =
     (if ixPlayer \<noteq> ixActor then
        (case forbid ixPlayer c self of
           Inl e \<Rightarrow> Inl e
         | Inr s \<Rightarrow> seenforbid ixActor c ixs s)
      else
        (case setforbidden ixPlayer c False self of
           Inl e \<Rightarrow> Inl e
         | Inr s \<Rightarrow>
             seenforbid ixActor c ixs
               (if ixPlayer < length (forbiddenSets s)
                then s \<lparr> forbiddenSets := (forbiddenSets s)[ixPlayer := forbiddenSets s ! ixPlayer - {c}] \<rparr>
                else s)))"

definition applyseen :: "detective \<Rightarrow> nat \<Rightarrow> int \<Rightarrow> nat list list \<Rightarrow> unit outcome" where
  "applyseen self ixActor c rng =
     (case seenforbid ixActor c [0 ..< nat (nPlayers self + 1)] self of
        Inl e \<Rightarrow> Raises e
      | Inr s \<Rightarrow> reducepool (\<lambda>h. holds h ixActor c) s rng)"

definition event_seenresponse ::
  "detective \<Rightarrow> int option \<Rightarrow> nat option \<Rightarrow> nat option \<Rightarrow> nat list list \<Rightarrow> unit outcome" where
  "event_seenresponse self cardShown shower viewer rng =
     (if cardShown = None \<or> (shower = None \<and> viewer = None) then
        (if logSeenAnswers self = [] then Raises IndexError
         else
           (let event = last (logSeenAnswers self)
            in applyseen self (actor event) (card event) rng))
      else
        (let event = \<lparr> turn = ixTurn self,
                       actor = (case shower of None \<Rightarrow> 0 | Some p \<Rightarrow> p),
                       consumer_seen = (case viewer of None \<Rightarrow> 0 | Some p \<Rightarrow> p),
                       card = the cardShown \<rparr>
         in applyseen (self \<lparr> logSeenAnswers := logSeenAnswers self @ [event] \<rparr>)
              (actor event) (card event) rng))"

text \<open>
  \<open>event_unseenresponse\<close>: the hypotheses in which the actor holds none of the three
  cards go.  Called without arguments it reads the last entry of \<open>self.logPasses\<close>.
\<close>

definition applyunseen ::
  "detective \<Rightarrow> nat \<Rightarrow> int \<Rightarrow> int \<Rightarrow> int \<Rightarrow> nat list list \<Rightarrow> unit outcome" where
  "applyunseen self ixActor ch rm wp rng =
     reducepool (\<lambda>h. holdsany h ixActor {ch, rm, wp}) self rng"

definition event_unseenresponse ::
  "detective \<Rightarrow> int option \<Rightarrow> int option \<Rightarrow> int option \<Rightarrow> nat option \<Rightarrow> nat option \<Rightarrow>
   nat list list \<Rightarrow> unit outcome" where
  "event_unseenresponse self character' room' weapon' shower viewer rng =
     (if character' = None \<or> room' = None \<or> weapon' = None \<or> (shower = None \<and> viewer = None) then
        (if logPasses self = [] then Raises IndexError
         else
           (let event = last (logPasses self)
            in applyunseen self (actor event) (character event) (room event) (weapon event) rng))
      else
        (let event = \<lparr> turn = ixTurn self,
                       actor = (case shower of None \<Rightarrow> 0 | Some p \<Rightarrow> p),
                       character = the character', room = the room', weapon = the weapon',
                       consumer = (case viewer of None \<Rightarrow> 0 | Some p \<Rightarrow> p) \<rparr>
         in applyunseen (self \<lparr> logUnseenAnswers := logUnseenAnswers self @ [event] \<rparr>)
              (actor event) (character event) (room event) (weapon event) rng))"

definition event_accusation ::
  "detective \<Rightarrow> int option \<Rightarrow> int option \<Rightarrow> int option \<Rightarrow> nat option \<Rightarrow> unit outcome" where
  "event_accusation self character' room' weapon' player = Returns () self"

definition event_accusationcorrect ::
  "detective \<Rightarrow> int option \<Rightarrow> int option \<Rightarrow> int option \<Rightarrow> nat option \<Rightarrow> unit outcome" where
  "event_accusationcorrect self character' room' weapon' player =
     Returns () (self \<lparr> isGameOver := True \<rparr>)"

text \<open>
  \<open>event_accusationwrong\<close>.  With the three cards given, the event is to be made by
  \<open>AccusationRecord\<close>, a name that the module does not define: NameError.  Without
  them the last logged accusation is read, and the rest of the method works on the
  arguments, not on the event: \<open>self.playersOusted[None] = True\<close> sets every entry of
  the array (a TypeError while \<open>playersOusted\<close> is \<open>None\<close>), and \<open>None\<close> is no key of the
  index dictionaries.
\<close>

definition oust :: "nat option \<Rightarrow> detective \<Rightarrow> pyerror + detective" where
  "oust player self =
     (case player of
        None \<Rightarrow>
          (case playersOusted self of
             None \<Rightarrow> Inl TypeError
           | Some ousted \<Rightarrow> Inr (self \<lparr> playersOusted := Some (map (\<lambda>b. True) ousted) \<rparr>))
      | Some p \<Rightarrow>
          (case playersOusted self of
             None \<Rightarrow> Inl TypeError
           | Some ousted \<Rightarrow>
               if p < length ousted
               then Inr (self \<lparr> playersOusted := Some (ousted[p := True]) \<rparr>)
               else Inl IndexError))"

definition lookupopt :: "(int \<rightharpoonup> nat) \<Rightarrow> int option \<Rightarrow> pyerror + nat" where
  "lookupopt m k = (case k of None \<Rightarrow> Inl KeyError | Some c \<Rightarrow> lookup m c)"

definition event_accusationwrong ::
  "detective \<Rightarrow> int option \<Rightarrow> int option \<Rightarrow> int option \<Rightarrow> nat option \<Rightarrow> nat list list \<Rightarrow>
   unit outcome" where
  "event_accusationwrong self character' room' weapon' player rng =
     (case (if character' = None \<or> room' = None \<or> weapon' = None then
              (if logIncorrectAccusations self = [] then Inl IndexError
               else Inr (last (logIncorrectAccusations self), self))
            else Inl NameError) of
        Inl e \<Rightarrow> Raises e
      | Inr (event, s) \<Rightarrow>
          (case oust player s of
             Inl e \<Rightarrow> Raises e
           | Inr s1 \<Rightarrow>
               (case lookupopt CHARINDEX character' of
                  Inl e \<Rightarrow> Raises e
                | Inr ixChar \<Rightarrow>
                    (case lookupopt ROOMINDEX room' of
                       Inl e \<Rightarrow> Raises e
                     | Inr ixRoom \<Rightarrow>
                         (case lookupopt WEAPINDEX weapon' of
                            Inl e \<Rightarrow> Raises e
                          | Inr ixWeap \<Rightarrow>
                              reducepool (\<lambda>h. Inr (envelope h \<noteq> (ixChar, ixRoom, ixWeap)))
                                s1 rng)))))"

text \<open>
  The end of a turn in \<open>run\<close>: the hot seat moves on and skips the players ousted.  The
  loop need not end; \<open>None\<close> is a loop that does not.
\<close>

partial_function (option) skipousted :: "detective \<Rightarrow> nat \<Rightarrow> (pyerror + nat) option" where
  "skipousted self ix =
     (case playersOusted self of
        None \<Rightarrow> Some (Inl TypeError)
      | Some ousted \<Rightarrow>
          if ix < length ousted then
            (if ousted ! ix
             then skipousted self (nat ((int ix + 1) mod nPlayers self))
             else Some (Inr ix))
          else Some (Inl IndexError))"

definition nextturn :: "detective \<Rightarrow> (pyerror + detective) option" where
  "nextturn self =
     (if nPlayers self = 0 then Some (Inl ZeroDivisionError) else
      case skipousted self (nat ((int (ixHotSeat self) + 1) mod nPlayers self)) of
        None \<Rightarrow> None
      | Some (Inl e) \<Rightarrow> Some (Inl e)
      | Some (Inr ix) \<Rightarrow> Some (Inr (self \<lparr> ixTurn := ixTurn self + 1, ixHotSeat := ix \<rparr>)))"


section \<open>Answering a suggestion (answersuggestion)\<close>

text \<open>
  \<open>list.index\<close> raises ValueError for a value that is not in the list; \<open>np.argmax\<close>
  gives the first position of the greatest value.
\<close>

fun pyindex :: "int list \<Rightarrow> int \<Rightarrow> pyerror + nat" where
  "pyindex [] c = Inl ValueError"
| "pyindex (x # xs) c =
     (if x = c then Inr 0
      else (case pyindex xs c of Inl e \<Rightarrow> Inl e | Inr i \<Rightarrow> Inr (Suc i)))"

fun argmax :: "nat list \<Rightarrow> nat" where
  "argmax [] = 0"
| "argmax (x # xs) = (if list_all (\<lambda>y. y \<le> x) xs then 0 else Suc (argmax xs))"

text \<open>\<open>self.myCardsShownTo[suggester - 1, ix]\<close>.\<close>

definition shownto :: "detective \<Rightarrow> nat \<Rightarrow> nat \<Rightarrow> pyerror + bool" where
  "shownto self suggester ix =
     (case npindex (length (myCardsShownTo self)) (int suggester - 1) of
        None \<Rightarrow> Inl IndexError
      | Some r \<Rightarrow>
          if ix < length (myCardsShownTo self ! r) then Inr (myCardsShownTo self ! r ! ix)
          else Inl IndexError)"

definition setshownto :: "nat \<Rightarrow> nat \<Rightarrow> detective \<Rightarrow> pyerror + detective" where
  "setshownto suggester ix self =
     (case npindex (length (myCardsShownTo self)) (int suggester - 1) of
        None \<Rightarrow> Inl IndexError
      | Some r \<Rightarrow>
          if ix < length (myCardsShownTo self ! r)
          then Inr (self \<lparr> myCardsShownTo :=
                             (myCardsShownTo self)[r := (myCardsShownTo self ! r)[ix := True]] \<rparr>)
          else Inl IndexError)"

definition countshown :: "nat \<Rightarrow> detective \<Rightarrow> detective" where
  "countshown ixCard self =
     self \<lparr> myCardsShownCounts := (myCardsShownCounts self)[ixCard := myCardsShownCounts self ! ixCard + 1] \<rparr>"

text \<open>
  The card shown: among the cards of the suggestion that the detective holds, one the
  suggester has seen before if there is one, and of those the one shown most often.
\<close>

definition answersuggestion ::
  "detective \<Rightarrow> int \<Rightarrow> int \<Rightarrow> int \<Rightarrow> nat \<Rightarrow> nat list list \<Rightarrow> int outcome" where
  "answersuggestion self ch rm wp suggester rng =
     (let showables = sorted_list_of_set (myCardSet self \<inter> {ch, rm, wp}) in
      case collect (pyindex (myCards self)) showables of
        Inl e \<Rightarrow> Raises e
      | Inr ixShowables \<Rightarrow>
          (case collect (shownto self suggester) ixShowables of
             Inl e \<Rightarrow> Raises e
           | Inr flags \<Rightarrow>
               (let ixShownShowables = map fst (filter snd (zip ixShowables flags)) in
                if ixShowables \<noteq> [] then
                  (if ixShownShowables \<noteq> [] then
                     (case collect (listindex (myCardsShownCounts self)) ixShownShowables of
                        Inl e \<Rightarrow> Raises e
                      | Inr counts \<Rightarrow>
                          (let ixCard = ixShownShowables ! argmax counts in
                           case event_seenresponse (countshown ixCard self)
                                  (Some (myCards self ! ixCard)) (Some 0) (Some suggester) rng of
                             Returns u s \<Rightarrow> Returns (myCards self ! ixCard) s
                           | Raises e \<Rightarrow> Raises e
                           | Exhausted \<Rightarrow> Exhausted))
                   else
                     (case collect (listindex (myCardsShownCounts self)) ixShowables of
                        Inl e \<Rightarrow> Raises e
                      | Inr counts \<Rightarrow>
                          (let ixCard = ixShowables ! argmax counts in
                           case setshownto suggester ixCard self of
                             Inl e \<Rightarrow> Raises e
                           | Inr s1 \<Rightarrow>
                               (case event_seenresponse (countshown ixCard s1)
                                       (Some (myCards self ! ixCard)) (Some 0) (Some suggester) rng of
                                  Returns u s \<Rightarrow> Returns (myCards self ! ixCard) s
                                | Raises e \<Rightarrow> Raises e
                                | Exhausted \<Rightarrow> Exhausted))))
                else
                  (case event_pass self (Some ch) (Some rm) (Some wp) (Some 0) rng of
                     Returns u s \<Rightarrow> Returns NULLCARD s
                   | Raises e \<Rightarrow> Raises e
                   | Exhausted \<Rightarrow> Exhausted))))"

section \<open>Setting up a game (initialise)\<close>

text \<open>
  What \<open>hook_collectgamesetup\<close> returns, the setup asked of the user.
\<close>

record gamesetup =
  setup_nPlayers :: int
  setup_ixDealer :: int
  setup_playerCharCards :: "int list"
  setup_playerCardHeldCounts :: "int list"
  setup_myCards :: "int list"

text \<open>
  The result of \<open>initialise\<close>: the object initialised; an exception raised while the
  setup was read, with the object as the assignments made until then have left it; an
  exception raised afterwards; or a sampling loop that has not ended on the random draws
  given.
\<close>

datatype initresult =
  Initialised detective | Rejected pyerror detective | Failed pyerror | Unfinished

definition cardname :: "int \<Rightarrow> pyerror + string" where
  "cardname c = (case npindex (length CARDNAMES) c of
                   None \<Rightarrow> Inl IndexError
                 | Some j \<Rightarrow> Inr (CARDNAMES ! j))"

text \<open>
  The character of every player and the place of the dealer, read the same way in the
  first two ways of calling \<open>initialise\<close>.
\<close>

definition readplayers ::
  "detective \<Rightarrow> int list option \<Rightarrow> int option \<Rightarrow> pyerror \<times> detective + detective" where
  "readplayers self playerCharCards ixDealer' =
     (case playerCharCards of
        None \<Rightarrow> Inl (TypeError, self)
      | Some cards \<Rightarrow>
          (case collect (lookup CHARINDEX) cards of
             Inl e \<Rightarrow> Inl (KeyError, self)
           | Inr ixs \<Rightarrow>
               (let s1 = self \<lparr> playerCharIxs := ixs \<rparr> in
                if int (length ixs) \<noteq> nPlayers s1 then Inl (TypeError, s1)
                else
                  (case ixDealer' of
                     None \<Rightarrow> Inl (TypeError, s1)
                   | Some d \<Rightarrow>
                       (let s2 = s1 \<lparr> ixDealer := d \<rparr> in
                        if d < 0 \<or> d \<ge> nPlayers s2 then Inl (ValueError, s2)
                        else Inr s2)))))"

definition readscenario ::
  "detective \<Rightarrow> int list list \<Rightarrow> int list option \<Rightarrow> int option \<Rightarrow>
   pyerror \<times> detective + detective" where
  "readscenario self scenario playerCharCards ixDealer' =
     (let s1 = self \<lparr> DBGSCENARIO := Some (map set scenario) \<rparr> in
      case collect (collect cardname) scenario of
        Inl e \<Rightarrow> Inl (ValueError, s1)
      | Inr names \<Rightarrow>
          (let s2 = s1 \<lparr> DBGSCENARIOREMINDER := ReminderText (map set names) \<rparr> in
           if \<Union> (set (map set scenario)) \<noteq> ALLOWEDCARDS then Inl (ValueError, s2)
           else if Finite_Set.card (set (last scenario)) \<noteq> 3 then Inl (TypeError, s2)
           else if length (filter (\<lambda>c. c \<in> ALLOWEDCHARS) (last scenario)) \<noteq> 1
                 \<or> length (filter (\<lambda>c. c \<notin> ALLOWEDCHARS \<and> c \<in> ALLOWEDROOMS) (last scenario)) \<noteq> 1
                 \<or> length (filter (\<lambda>c. c \<notin> ALLOWEDCHARS \<and> c \<notin> ALLOWEDROOMS \<and> c \<in> ALLOWEDWEAPS)
                             (last scenario)) \<noteq> 1
                then Inl (ValueError, s2)
           else
             (let s3 = s2 \<lparr> nPlayers := int (length scenario) - 1 \<rparr> in
              if nPlayers s3 < 2 \<or> nPlayers s3 > 6 then Inl (ValueError, s3)
              else
                readplayers
                  (s3 \<lparr> nCardsHeld := map (\<lambda>hand. int (length hand)) (butlast scenario),
                        myCards := hd scenario, myCardSet := set (hd scenario) \<rparr>)
                  playerCharCards ixDealer')))"

definition readarguments ::
  "detective \<Rightarrow> int \<Rightarrow> int list \<Rightarrow> int option \<Rightarrow> int list option \<Rightarrow> int list option \<Rightarrow>
   pyerror \<times> detective + detective" where
  "readarguments self n playerCharCards ixDealer' playerCardHeldCounts myCards' =
     (let s1 = self \<lparr> DBGSCENARIO := None, DBGSCENARIOREMINDER := ReminderFlag False,
                      nPlayers := n \<rparr> in
      if n < 2 \<or> n > 6 then Inl (ValueError, s1)
      else
        (case playerCardHeldCounts of
           None \<Rightarrow> Inl (TypeError, s1)
         | Some counts \<Rightarrow>
             (let s2 = s1 \<lparr> nCardsHeld := counts \<rparr> in
              if int (length counts) \<noteq> n then Inl (TypeError, s2)
              else if list_ex (\<lambda>entry. entry \<le> 0) counts then Inl (ValueError, s2)
              else
                (case myCards' of
                   None \<Rightarrow> Inl (TypeError, s2)
                 | Some cards \<Rightarrow>
                     (let s3 = s2 \<lparr> myCards := cards, myCardSet := set cards \<rparr> in
                      if int (Finite_Set.card (set cards)) \<noteq> hd counts then Inl (TypeError, s3)
                      else if \<not> set cards \<subseteq> ALLOWEDCARDS then Inl (ValueError, s3)
                      else readplayers s3 (Some playerCharCards) ixDealer')))))"

definition readcollected :: "detective \<Rightarrow> gamesetup \<Rightarrow> pyerror \<times> detective + detective" where
  "readcollected self collected =
     (let s1 = self \<lparr> DBGSCENARIO := None, DBGSCENARIOREMINDER := ReminderFlag False,
                      nPlayers := setup_nPlayers collected,
                      ixDealer := setup_ixDealer collected \<rparr> in
      case collect (lookup CHARINDEX) (setup_playerCharCards collected) of
        Inl e \<Rightarrow> Inl (KeyError, s1)
      | Inr ixs \<Rightarrow>
          Inr (s1 \<lparr> playerCharIxs := ixs,
                    nCardsHeld := setup_playerCardHeldCounts collected,
                    myCards := setup_myCards collected,
                    myCardSet := set (setup_myCards collected) \<rparr>))"

text \<open>The game starts: the variables of the last game are reset.\<close>

definition firstmover :: "detective \<Rightarrow> nat" where
  "firstmover self =
     (case filter (\<lambda>ixChar. ixChar \<in> set (playerCharIxs self)) CHARIXSTARTORDER of
        [] \<Rightarrow> ixHotSeat self
      | ixChar # others \<Rightarrow> length (takeWhile (\<lambda>x. x \<noteq> ixChar) (playerCharIxs self)))"

definition newgame :: "detective \<Rightarrow> detective" where
  "newgame self =
     (let s = self \<lparr>
        charLocations := CHARSTARTNODES,
        hypotheses := [],
        areHypothesesEnumerable := False,
        hasEnteredRoomYet := False,
        canSuggestInCurrentRoom := True,
        ixTurn := 0,
        logMoves := [],
        logSuggestions := [],
        logPasses := [],
        logUnseenAnswers := [],
        logSeenAnswers := [],
        logIncorrectAccusations := [],
        hypCountByCharacter := (\<lambda>i. 0),
        hypCountByRoom := (\<lambda>i. 0),
        hypCountByWeapon := (\<lambda>i. 0),
        hypCountByScenario := (\<lambda>s. 0),
        isGameOver := False,
        playersOusted := Some (replicate (nat (nPlayers self)) False),
        myCardsShownTo :=
          replicate (nat (nPlayers self - 1)) (replicate (length (myCards self)) False),
        myCardsShownCounts := replicate (length (myCards self)) 0,
        forbidden := replicate (nat (nPlayers self + 1)) (replicate NCARDS False),
        forbiddenSets := replicate (nat (nPlayers self + 1)) {} \<rparr>
      in s \<lparr> ixHotSeat := firstmover s \<rparr>)"

text \<open>
  The cards of the detective are forbidden to every other hand, the murder hand
  included, and every other card is forbidden to the detective.
\<close>

fun forbidothers :: "int list \<Rightarrow> detective \<Rightarrow> pyerror + detective" where
  "forbidothers [] self = Inr self"
| "forbidothers (cardid # cs) self =
     (case fold (\<lambda>ixPlayer r. case r of Inl e \<Rightarrow> Inl e | Inr s \<Rightarrow> forbid ixPlayer cardid s)
             [1 ..< nat (nPlayers self + 1)] (Inr self) of
        Inl e \<Rightarrow> Inl e
      | Inr s \<Rightarrow> forbidothers cs s)"

fun forbidmine :: "int list \<Rightarrow> detective \<Rightarrow> pyerror + detective" where
  "forbidmine [] self = Inr self"
| "forbidmine (cardid # cs) self =
     (case (if cardid \<in> myCardSet self then setforbidden 0 cardid False self
            else forbid 0 cardid self) of
        Inl e \<Rightarrow> Inl e
      | Inr s \<Rightarrow> forbidmine cs s)"

definition initialise ::
  "detective \<Rightarrow> int option \<Rightarrow> int list option \<Rightarrow> int option \<Rightarrow> int list option \<Rightarrow>
   int list option \<Rightarrow> int list list option \<Rightarrow> gamesetup \<Rightarrow> nat list list \<Rightarrow> initresult" where
  "initialise self nPlayers' playerCharCards ixDealer' playerCardHeldCounts myCards' DBGSCENARIO'
     collected rng =
     (case (case DBGSCENARIO' of
              Some scenario \<Rightarrow> readscenario self scenario playerCharCards ixDealer'
            | None \<Rightarrow>
                (case (nPlayers', playerCharCards) of
                   (Some n, Some cards) \<Rightarrow>
                     readarguments self n cards ixDealer' playerCardHeldCounts myCards'
                 | _ \<Rightarrow> readcollected self collected)) of
        Inl (e, s) \<Rightarrow> Rejected e s
      | Inr s \<Rightarrow>
          if nPlayers s < 1 then Failed ValueError
          else
          (case forbidothers (sorted_list_of_set (myCardSet s)) (newgame s) of
             Inl e \<Rightarrow> Failed e
           | Inr s1 \<Rightarrow>
               (case forbidmine (sorted_list_of_set ALLOWEDCARDS) s1 of
                  Inl e \<Rightarrow> Failed e
                | Inr s2 \<Rightarrow>
                    (case rebuildhypotheses s2 rng of
                       Returns u s3 \<Rightarrow> Initialised (s3 \<lparr> isInitialised := True \<rparr>)
                     | Raises e \<Rightarrow> Failed e
                     | Exhausted \<Rightarrow> Unfinished))))"


section \<open>Auxiliary definitions for the proofs\<close>

text \<open>
  The index set of a scenario array, the number of hypotheses of a list with a given
  property and scenario, the Detective object with the defaults of its class, and the
  pools the properties are evaluated on.  The two-player hypotheses are deals of the
  scenario of \<open>TestSuggestionPosteriors\<close> (test_core.py).
\<close>

definition scenarioset :: "scenario set" where
  "scenarioset = {..<NCHARS} \<times> {..<NROOMS} \<times> {..<NWEAPS}"

definition countwhere :: "(hypothesis \<Rightarrow> bool) \<Rightarrow> hypothesis list \<Rightarrow> scenario \<Rightarrow> real" where
  "countwhere P hyps s = real (length (filter (\<lambda>h. P h \<and> envelope h = s) hyps))"

definition Detective :: detective where
  "Detective = \<lparr>
     HYPSAMPLECOUNT = 100000,
     THRESHAPPROXHYPCOUNT = 500000,
     PACCUSATIONTHRESH = 79 / 100,
     SECRETIVE = False,
     DBGSCENARIO = None,
     DBGSCENARIOREMINDER = ReminderFlag True,
     isGameOver = False,
     isInitialised = False,
     playersOusted = None,
     nPlayers = 0,
     ixDealer = 0,
     nCardsHeld = [],
     playerCharIxs = [],
     myCardSet = {},
     myCards = [],
     myCardsShownTo = [],
     myCardsShownCounts = [],
     charLocations = CHARSTARTNODES,
     forbidden = [],
     forbiddenSets = [],
     hypotheses = [],
     areHypothesesEnumerable = False,
     hasEnteredRoomYet = False,
     canSuggestInCurrentRoom = True,
     ixTurn = 0,
     ixHotSeat = 0,
     logMoves = [],
     logSuggestions = [],
     logPasses = [],
     logUnseenAnswers = [],
     logSeenAnswers = [],
     logIncorrectAccusations = [],
     hypCountByCharacter = (\<lambda>i. 0),
     hypCountByRoom = (\<lambda>i. 0),
     hypCountByWeapon = (\<lambda>i. 0),
     hypCountByScenario = (\<lambda>s. 0),
     pScenario = (\<lambda>s. 0),
     scenarioEntropy = Fin 0 \<rparr>"

definition twoplayer_hyp_a :: hypothesis where
  "twoplayer_hyp_a = \<lparr> hands = [{0, 1, 4, 8, 10, 11, 15, 18, 20}, {3, 5, 6, 7, 12, 13, 14, 16, 19}],
      envelope = (2, 3, 2) \<rparr>"

definition twoplayer_hyp_b :: hypothesis where
  "twoplayer_hyp_b = \<lparr> hands = [{0, 1, 4, 8, 10, 11, 15, 18, 20}, {2, 5, 6, 7, 12, 13, 14, 16, 19}],
      envelope = (3, 3, 2) \<rparr>"

definition twoplayer_pool :: detective where
  "twoplayer_pool = Detective \<lparr> nPlayers := 2, myCardSet := {0, 1, 4, 8, 10, 11, 15, 18, 20},
      hypotheses := [twoplayer_hyp_a, twoplayer_hyp_b] \<rparr>"


definition twoplayer_hyp_c :: hypothesis where
  "twoplayer_hyp_c = \<lparr> hands = [{0, 1, 4, 8, 10, 11, 15, 18, 20}, {2, 3, 6, 7, 12, 13, 14, 16, 19}],
      envelope = (5, 3, 2) \<rparr>"

definition twoplayer_hyp_d :: hypothesis where
  "twoplayer_hyp_d = \<lparr> hands = [{0, 1, 4, 8, 10, 11, 15, 18, 20}, {3, 5, 6, 7, 9, 13, 14, 16, 19}],
      envelope = (2, 6, 2) \<rparr>"

definition twoplayer_hyp_e :: hypothesis where
  "twoplayer_hyp_e = \<lparr> hands = [{0, 1, 4, 8, 10, 11, 15, 18, 20}, {2, 5, 6, 7, 9, 13, 14, 16, 19}],
      envelope = (3, 6, 2) \<rparr>"

definition fivehyp_list :: "hypothesis list" where
  "fivehyp_list =
     [twoplayer_hyp_a, twoplayer_hyp_b, twoplayer_hyp_c, twoplayer_hyp_d, twoplayer_hyp_e]"

definition fivehyp_pool :: detective where
  "fivehyp_pool = Detective \<lparr> nPlayers := 2, myCardSet := {0, 1, 4, 8, 10, 11, 15, 18, 20},
      hypotheses := fivehyp_list \<rparr>"

text \<open>
  For the bound on the expected entropy: \<open>xlogratio c n\<close> is \<open>-c ln (c/n)\<close> with the
  convention for \<open>c = 0\<close>; \<open>singlecard\<close> says that the bins of two and three cards of a
  player are empty; \<open>singleanswer\<close> says that in a hypothesis the first player able to
  answer holds exactly one of the three suggested cards, or that nobody can answer.  The
  three-player hypotheses are deals of 21 cards to three hands of six and the envelope.
\<close>

definition xlogratio :: "real \<Rightarrow> real \<Rightarrow> real" where
  "xlogratio c n = (if c > 0 then - c * ln (c / n) else 0)"

definition singlecard :: "sortedcounts \<Rightarrow> nat \<Rightarrow> bool" where
  "singlecard cs p = (cs p 2 = (\<lambda>s. 0) \<and> cs p 4 = (\<lambda>s. 0) \<and> cs p 5 = (\<lambda>s. 0) \<and> cs p 6 = (\<lambda>s. 0))"

definition singleanswer :: "hypothesis \<Rightarrow> nat list \<Rightarrow> int \<Rightarrow> int \<Rightarrow> int \<Rightarrow> bool" where
  "singleanswer h players ch rm wp =
     (case firstanswer h players ch rm wp of
        Inl e \<Rightarrow> False
      | Inr None \<Rightarrow> True
      | Inr (Some (ixPlayer, ixAnswer)) \<Rightarrow> ixAnswer = 1 \<or> ixAnswer = 2 \<or> ixAnswer = 4)"

definition threeplayer_hyp_a :: hypothesis where
  "threeplayer_hyp_a = \<lparr> hands = [{1, 7, 9, 10, 16, 18}, {0, 3, 4, 6, 11, 12},
      {5, 13, 14, 15, 19, 20}], envelope = (2, 2, 2) \<rparr>"

definition threeplayer_hyp_b :: hypothesis where
  "threeplayer_hyp_b = \<lparr> hands = [{1, 7, 9, 10, 16, 18}, {0, 2, 4, 6, 11, 12},
      {5, 13, 14, 15, 19, 20}], envelope = (3, 2, 2) \<rparr>"

definition threeplayer_hyp_c :: hypothesis where
  "threeplayer_hyp_c = \<lparr> hands = [{1, 7, 9, 10, 16, 18}, {3, 4, 6, 11, 12, 13},
      {0, 5, 14, 15, 19, 20}], envelope = (2, 2, 2) \<rparr>"

definition threeplayer_pool :: detective where
  "threeplayer_pool = Detective \<lparr> nPlayers := 3, myCardSet := {1, 7, 9, 10, 16, 18},
      hypotheses := [threeplayer_hyp_a, threeplayer_hyp_b, threeplayer_hyp_c],
      hypCountByScenario := (\<lambda>s. 0)((2, 2, 2) := 2, (3, 2, 2) := 1) \<rparr>"

definition threeplayer_sorted :: sortedcounts where
  "threeplayer_sorted p b s =
     (if p = 0 \<and> b = 2 \<and> (s = (2, 2, 2) \<or> s = (3, 2, 2)) then 1
      else if p = 0 \<and> b = 1 \<and> s = (2, 2, 2) then 1 else 0)"

definition twoplayer_counted :: detective where
  "twoplayer_counted = twoplayer_pool \<lparr> hypCountByScenario := (\<lambda>s. 0)((2, 3, 2) := 1, (3, 3, 2) := 1) \<rparr>"

text \<open>
  For the events: \<open>nopool\<close> forgets the pool, its counts and its statistics, so that
  two objects with the same \<open>nopool\<close> differ in these fields at most; \<open>exact_twoplayer\<close>
  is a two-player game with exact inference, the pool holding two deals.
\<close>

definition nopool :: "detective \<Rightarrow> detective" where
  "nopool self = self \<lparr> hypotheses := [], areHypothesesEnumerable := False,
      hypCountByCharacter := (\<lambda>i. 0), hypCountByRoom := (\<lambda>i. 0),
      hypCountByWeapon := (\<lambda>i. 0), hypCountByScenario := (\<lambda>s. 0),
      pScenario := (\<lambda>s. 0), scenarioEntropy := Fin 0 \<rparr>"

definition exact_twoplayer :: detective where
  "exact_twoplayer = twoplayer_counted \<lparr>
     areHypothesesEnumerable := True,
     isInitialised := True,
     nCardsHeld := [9, 9],
     playerCharIxs := [1, 4],
     ixDealer := 1,
     myCards := [0, 1, 4, 8, 10, 11, 15, 18, 20],
     playersOusted := Some [False, False],
     myCardsShownTo := [replicate 9 False],
     myCardsShownCounts := replicate 9 0,
     forbidden := [map (\<lambda>c. c \<notin> {0, 1, 4, 8, 10, 11, 15, 18, 20}) (map int [0 ..< 21]),
                   map (\<lambda>c. c \<in> {0, 1, 4, 8, 10, 11, 15, 18, 20}) (map int [0 ..< 21]),
                   map (\<lambda>c. c \<in> {0, 1, 4, 8, 10, 11, 15, 18, 20}) (map int [0 ..< 21])],
     forbiddenSets := [{2, 3, 5, 6, 7, 9, 12, 13, 14, 16, 17, 19},
                       {0, 1, 4, 8, 10, 11, 15, 18, 20}, {0, 1, 4, 8, 10, 11, 15, 18, 20}],
     hypCountByCharacter := (\<lambda>i. 0)(2 := 1, 3 := 1),
     hypCountByRoom := (\<lambda>i. 0)(3 := 2),
     hypCountByWeapon := (\<lambda>i. 0)(2 := 2) \<rparr>"

definition unseen_event :: EventUnseenAnswer where
  "unseen_event = \<lparr> turn = 0, actor = 1, character = 3, room = 12, weapon = 16, consumer = 0 \<rparr>"

definition after_unseen :: detective where
  "after_unseen = updatestats (exact_twoplayer \<lparr> logUnseenAnswers := [unseen_event] \<rparr>)"

text \<open>
  For \<open>initialise\<close>: \<open>nosetup\<close> forgets the eight fields that hold the setup of the
  game, so that two objects with the same \<open>nosetup\<close> differ in these fields at most.
  \<open>malformed\<close> collects the malformations of the arguments: a scenario that does not
  deal the full set of cards, a murder hand without exactly one card of each family, a
  number of players outside 2 to 6, a list of hand sizes of the wrong length, with an
  entry that is not positive or whose first entry is not the number of the detective's
  cards, and, the characters of the players being valid, a dealer outside the players.
  \<open>no_setup\<close> stands for the answer of a user interface that is not asked.
\<close>

definition nosetup :: "detective \<Rightarrow> detective" where
  "nosetup self = self \<lparr> DBGSCENARIO := None, DBGSCENARIOREMINDER := ReminderFlag False,
      nPlayers := 0, nCardsHeld := [], myCards := [], myCardSet := {}, playerCharIxs := [],
      ixDealer := 0 \<rparr>"

definition onepercard :: "int list \<Rightarrow> bool" where
  "onepercard hand =
     (Finite_Set.card (set hand) = 3
      \<and> length (filter (\<lambda>c. c \<in> ALLOWEDCHARS) hand) = 1
      \<and> length (filter (\<lambda>c. c \<in> ALLOWEDROOMS) hand) = 1
      \<and> length (filter (\<lambda>c. c \<in> ALLOWEDWEAPS) hand) = 1)"

definition dealerbad :: "int option \<Rightarrow> int list option \<Rightarrow> int \<Rightarrow> bool" where
  "dealerbad dealer chars n =
     (case (dealer, chars) of
        (Some d, Some cs) \<Rightarrow> set cs \<subseteq> ALLOWEDCHARS \<and> (d < 0 \<or> d \<ge> n)
      | _ \<Rightarrow> False)"

definition handsizesbad :: "int \<Rightarrow> int list option \<Rightarrow> int list option \<Rightarrow> bool" where
  "handsizesbad n counts cards =
     (case counts of
        None \<Rightarrow> False
      | Some sizes \<Rightarrow>
          int (length sizes) \<noteq> n \<or> list_ex (\<lambda>entry. entry \<le> 0) sizes
          \<or> (case cards of None \<Rightarrow> False
               | Some cs \<Rightarrow> int (Finite_Set.card (set cs)) \<noteq> hd sizes))"

definition malformed ::
  "int option \<Rightarrow> int list option \<Rightarrow> int option \<Rightarrow> int list option \<Rightarrow> int list option \<Rightarrow>
   int list list option \<Rightarrow> bool" where
  "malformed n chars dealer counts cards scenario =
     (case scenario of
        Some hs \<Rightarrow>
          \<Union> (set (map set hs)) \<noteq> ALLOWEDCARDS \<or> \<not> onepercard (last hs)
          \<or> int (length hs) - 1 < 2 \<or> int (length hs) - 1 > 6
          \<or> dealerbad dealer chars (int (length hs) - 1)
      | None \<Rightarrow>
          (case (n, chars) of
             (Some k, Some cs) \<Rightarrow>
               k < 2 \<or> k > 6 \<or> handsizesbad k counts cards \<or> dealerbad dealer chars k
           | _ \<Rightarrow> False))"

definition no_setup :: gamesetup where
  "no_setup = \<lparr> setup_nPlayers = 0, setup_ixDealer = 0, setup_playerCharCards = [],
      setup_playerCardHeldCounts = [], setup_myCards = [] \<rparr>"

text \<open>
  For \<open>answersuggestion\<close>: \<open>ready\<close> collects what holds of an object that
  \<open>initialise\<close> has set up and that events have kept up to date.  The tables have the
  shapes \<open>initialise\<close> gives them; the cards of the detective are cards of the game, and
  the forbidden matrix knows them: the detective is forbidden exactly the other cards,
  and every other hand is forbidden the detective's cards; a card forbidden to every
  player has ruled out the other cards of its family for the murder hand; in every
  hypothesis the first hand is the detective's; and the last rebuild has done its work:
  inference is exact, or the estimate is at the threshold or above and the pool is full.
\<close>

definition cardfamily :: "int \<Rightarrow> int set" where
  "cardfamily c =
     (if c \<in> ALLOWEDCHARS then ALLOWEDCHARS
      else if c \<in> ALLOWEDROOMS then ALLOWEDROOMS else ALLOWEDWEAPS)"

definition shapes :: "detective \<Rightarrow> bool" where
  "shapes self =
     (2 \<le> nPlayers self
      \<and> length (myCardsShownTo self) = nat (nPlayers self - 1)
      \<and> list_all (\<lambda>row. length row = length (myCards self)) (myCardsShownTo self)
      \<and> length (myCardsShownCounts self) = length (myCards self)
      \<and> length (forbidden self) = nat (nPlayers self + 1)
      \<and> list_all (\<lambda>row. length row = NCARDS) (forbidden self)
      \<and> length (forbiddenSets self) = nat (nPlayers self + 1))"

definition ownhand :: "detective \<Rightarrow> bool" where
  "ownhand self =
     (set (myCards self) = myCardSet self
      \<and> myCardSet self \<subseteq> ALLOWEDCARDS
      \<and> list_all (\<lambda>c. forbidden self ! 0 ! nat c = (c \<notin> myCardSet self))
            (sorted_list_of_set ALLOWEDCARDS)
      \<and> list_all (\<lambda>ix. list_all (\<lambda>c. c \<in> myCardSet self \<longrightarrow> forbidden self ! ix ! nat c)
                         (sorted_list_of_set ALLOWEDCARDS))
            [1 ..< nat (nPlayers self + 1)]
      \<and> list_all (\<lambda>h. hands h \<noteq> [] \<and> hd (hands h) = myCardSet self \<and> in_shape (envelope h))
            (hypotheses self))"

definition murderruledout :: "detective \<Rightarrow> bool" where
  "murderruledout self =
     list_all (\<lambda>c. list_all (\<lambda>row. row ! nat c) (take (nat (nPlayers self)) (forbidden self))
                   \<longrightarrow> list_all (\<lambda>d. d = c \<or> forbidden self ! nat (nPlayers self) ! nat d)
                         (sorted_list_of_set (cardfamily c)))
       (sorted_list_of_set ALLOWEDCARDS)"

definition rebuilt :: "detective \<Rightarrow> bool" where
  "rebuilt self =
     (areHypothesesEnumerable self
      \<or> (case nHypsApprox self of
            Inl e \<Rightarrow> False
          | Inr n \<Rightarrow> THRESHAPPROXHYPCOUNT self \<le> n
                     \<and> length (hypotheses self) = HYPSAMPLECOUNT self))"

definition ready :: "detective \<Rightarrow> bool" where
  "ready self = (shapes self \<and> ownhand self \<and> murderruledout self \<and> rebuilt self)"

section \<open>Properties\<close>

subsection \<open>Sums over scenario arrays and the sorting phase\<close>

lemma sum_Fin: "finite A \<Longrightarrow> (\<Sum>x\<in>A. Fin (g x)) = Fin (\<Sum>x\<in>A. g x)"
  by (induction A rule: finite_induct) (simp_all add: zero_npfloat_def plus_npfloat_def)

lemma sum3_Fin: "sum3 (\<lambda>s. Fin (g s)) = Fin (sum3 g)"
  by (simp add: sum3_def sum_Fin)

lemma finite_scenarioset: "finite scenarioset"
  by (simp add: scenarioset_def)

lemma in_scenarioset: "s \<in> scenarioset \<longleftrightarrow> in_shape s"
  by (cases s) (auto simp: scenarioset_def in_shape_def)

lemma sum3_as_sum: "sum3 f = sum f scenarioset"
  by (simp add: sum3_def scenarioset_def sum.cartesian_product)

lemma sum3_cong: "(\<And>s. in_shape s \<Longrightarrow> f s = g s) \<Longrightarrow> sum3 f = sum3 g"
  unfolding sum3_as_sum by (rule sum.cong) (simp_all add: in_scenarioset)

lemma sum3_delta: "in_shape e \<Longrightarrow> sum3 (\<lambda>s. if s = e then v else 0) = v"
  unfolding sum3_as_sum by (simp add: finite_scenarioset in_scenarioset)

lemma sum3_add: "sum3 (\<lambda>s. f s + g s) = sum3 f + sum3 g"
  unfolding sum3_as_sum by (rule sum.distrib)

lemma sum3_zero: "sum3 (\<lambda>s. 0) = 0"
  unfolding sum3_as_sum by simp

lemma sum3_mult_left: "sum3 (\<lambda>s. (k::real) * f s) = k * sum3 f"
  unfolding sum3_as_sum by (simp add: sum_distrib_left)

lemma byroom_total: "(\<Sum>r<NROOMS. sumbyroom f r) = sum3 f"
proof -
  have "(\<Sum>r<NROOMS. sumbyroom f r) = (\<Sum>r<NROOMS. \<Sum>c<NCHARS. \<Sum>w<NWEAPS. f (c, r, w))"
    by (simp add: sumbyroom_def)
  also have "\<dots> = (\<Sum>c<NCHARS. \<Sum>r<NROOMS. \<Sum>w<NWEAPS. f (c, r, w))"
    by (rule sum.swap)
  finally show ?thesis by (simp add: sum3_def)
qed

lemma entropyterm_Fin:
  "entropyterm (Fin p) = Fin (if p > 0 then - p * ln p else 0)"
  by (simp add: entropyterm_def)

lemma entropyterm_NaN: "entropyterm NaN = Fin 0"
  by (simp add: entropyterm_def)

lemma entropyterm_fdiv:
  "(n = 0 \<Longrightarrow> c = 0) \<Longrightarrow>
   entropyterm (fdiv (Fin c) (Fin n)) = Fin (if n \<noteq> 0 \<and> c / n > 0 then - (c / n) * ln (c / n) else 0)"
  by (auto simp: entropyterm_def)

lemma countwhere_Nil: "countwhere P [] s = 0"
  by (simp add: countwhere_def)

lemma countwhere_Cons:
  "countwhere P (h # hs) s = (if P h \<and> envelope h = s then 1 else 0) + countwhere P hs s"
  by (simp add: countwhere_def)

lemma sorthypotheses_counts:
  assumes "\<forall>h\<in>set hyps. in_shape (envelope h)"
    and "\<forall>h\<in>set hyps. \<exists>r. firstanswer h players ch rm wp = Inr r"
  shows "sorthypotheses players hyps ch rm wp (cs, cn) =
     Inr (\<lambda>p b s. cs p b s +
            countwhere (\<lambda>h. \<exists>ip ia. firstanswer h players ch rm wp = Inr (Some (ip, ia)) \<and>
                              ip - 1 = p \<and> ia - 1 = b) hyps s,
          \<lambda>s. cn s + countwhere (\<lambda>h. firstanswer h players ch rm wp = Inr None) hyps s)"
  using assms
proof (induction hyps arbitrary: cs cn)
  case Nil
  then show ?case by (simp add: countwhere_Nil)
next
  case (Cons h hs)
  from Cons.prems obtain r where r: "firstanswer h players ch rm wp = Inr r" by auto
  have shape: "in_shape (envelope h)" using Cons.prems by simp
  have rest: "\<forall>h\<in>set hs. in_shape (envelope h)"
    "\<forall>h\<in>set hs. \<exists>r. firstanswer h players ch rm wp = Inr r"
    using Cons.prems by simp_all
  show ?case
  proof (cases r)
    case None
    show ?thesis
      using r None shape
      by (simp add: Cons.IH [OF rest] countwhere_Cons fun_eq_iff)
  next
    case (Some pa)
    obtain ip ia where pa: "pa = (ip, ia)" by (cases pa)
    show ?thesis
      using r Some pa shape
      by (simp add: Cons.IH [OF rest] countwhere_Cons fun_eq_iff)
  qed
qed

lemma sum3_countwhere:
  "\<forall>h\<in>set hyps. in_shape (envelope h) \<Longrightarrow>
   sum3 (countwhere P hyps) = real (length (filter P hyps))"
proof (induction hyps)
  case Nil
  then show ?case by (simp add: countwhere_Nil sum3_zero)
next
  case (Cons h hs)
  have "sum3 (countwhere P (h # hs)) =
        sum3 (\<lambda>s. (if s = envelope h then (if P h then 1 else 0) else 0) + countwhere P hs s)"
    by (rule sum3_cong) (auto simp: countwhere_Cons)
  also have "\<dots> = (if P h then 1 else 0) + sum3 (countwhere P hs)"
    using Cons.prems by (simp add: sum3_add sum3_delta)
  finally show ?case using Cons by simp
qed

lemma countwhere_none: "\<forall>h\<in>set hyps. \<not> P h \<Longrightarrow> countwhere P hyps s = 0"
  by (simp add: countwhere_def)

lemma countwhere_distinct:
  "distinct (map envelope hyps) \<Longrightarrow> countwhere (\<lambda>h. True) hyps s = 0 \<or> countwhere (\<lambda>h. True) hyps s = 1"
proof (induction hyps)
  case Nil
  then show ?case by (simp add: countwhere_Nil)
next
  case (Cons h hs)
  show ?case
  proof (cases "envelope h = s")
    case True
    with Cons.prems have "\<forall>h'\<in>set hs. \<not> (True \<and> envelope h' = s)" by (auto simp: image_iff)
    then have "countwhere (\<lambda>h. True) hs s = 0"
      by (simp add: countwhere_def)
    with True show ?thesis by (simp add: countwhere_Cons)
  next
    case False
    with Cons show ?thesis by (simp add: countwhere_Cons)
  qed
qed



lemma zeros_after [simp]: "hypCountsAfterAnswer (\<lambda>p b s. 0) p a s = 0"
  by (simp add: hypCountsAfterAnswer_def)

lemma zeros_byroom [simp]: "hypCountsByRoomAfterAnswer (\<lambda>p b s. 0) p a r = 0"
  by (simp add: hypCountsByRoomAfterAnswer_def sumbyroom_def)

lemma zeros_sums [simp]: "hypCountSumsAfterAnswer (\<lambda>p b s. 0) p a = 0"
  by (simp add: hypCountSumsAfterAnswer_def)

lemma zeros_ent [simp]: "entAfterAnswer (\<lambda>p b s. 0) p a = Fin 0"
  by (simp add: entAfterAnswer_def pAfterAnswer_def entropyterm_NaN sum3_Fin sum3_zero)

lemma zeros_received [simp]: "receivedHypCounts (\<lambda>p b s. 0) p a s = 0"
  by (simp add: receivedHypCounts_def Let_def)

lemma zeros_received_fun: "receivedHypCounts (\<lambda>p b s. 0) p a = (\<lambda>s. 0)"
  by (rule ext) simp

lemma zeros_total [simp]: "totalReceivedCounts (\<lambda>p b s. 0) p a = 0"
  by (simp add: totalReceivedCounts_def zeros_received_fun sum3_zero)

lemma sumNoAnswer_total: "hypCountSumNoAnswer f = sum3 f"
  by (simp add: hypCountSumNoAnswer_def byroom_total)

lemma entNoAnswer_distinct:
  assumes shape: "\<forall>h\<in>set hyps. in_shape (envelope h)"
    and dist: "distinct (map envelope hyps)"
    and ne: "hyps \<noteq> []"
  shows "entNoAnswer (countwhere (\<lambda>h. True) hyps) = Fin (ln (real (length hyps)))"
proof -
  let ?cn = "countwhere (\<lambda>h. True) hyps"
  let ?N = "real (length hyps)"
  have N: "sum3 ?cn = ?N" using sum3_countwhere [OF shape, of "\<lambda>h. True"] by simp
  have pos: "?N > 0" using ne by simp
  have tm: "entropyterm (fdiv (Fin (?cn s)) (Fin ?N)) = Fin ((ln ?N / ?N) * ?cn s)" for s
  proof -
    from countwhere_distinct [OF dist, of s] show ?thesis
    proof
      assume "?cn s = 0"
      then show ?thesis using pos by (simp add: entropyterm_Fin)
    next
      assume one: "?cn s = 1"
      have "ln (1 / ?N) = - ln ?N" using pos by (simp add: ln_div)
      then show ?thesis using pos one by (simp add: entropyterm_Fin)
    qed
  qed
  have "entNoAnswer ?cn = sum3 (\<lambda>s. entropyterm (fdiv (Fin (?cn s)) (Fin ?N)))"
    using pos by (simp add: entNoAnswer_def sumNoAnswer_total N)
  also have "\<dots> = Fin (sum3 (\<lambda>s. (ln ?N / ?N) * ?cn s))"
    by (simp only: tm sum3_Fin)
  also have "sum3 (\<lambda>s. (ln ?N / ?N) * ?cn s) = (ln ?N / ?N) * sum3 ?cn"
    by (rule sum3_mult_left)
  also have "(ln ?N / ?N) * sum3 ?cn = ln ?N"
    using pos by (simp add: N)
  finally show ?thesis .
qed

lemma expectation_noanswer:
  assumes shape: "\<forall>h\<in>set hyps. in_shape (envelope h)"
    and dist: "distinct (map envelope hyps)"
    and ne: "hyps \<noteq> []"
  shows "\<exists>r. expectation n (length hyps) (\<lambda>p b s. 0) (countwhere (\<lambda>h. True) hyps) = Inr r \<and>
             expEntropy r = Fin (ln (real (length hyps)))"
proof -
  let ?cn = "countwhere (\<lambda>h. True) hyps"
  let ?N = "real (length hyps)"
  have N: "sum3 ?cn = ?N" using sum3_countwhere [OF shape, of "\<lambda>h. True"] by simp
  have pos: "?N > 0" using ne by simp
  have z: "(\<Sum>p<n. \<Sum>a<(3::nat). Fin 0) = Fin 0"
    by (simp add: sum_Fin)
  show ?thesis
    using pos ne
    by (simp add: expectation_def Let_def sumNoAnswer_total N entNoAnswer_distinct [OF shape dist ne]
        plus_npfloat_def z)
qed

lemma NCHARS_eq: "NCHARS = 6" by (simp add: NCHARS_def CHARNAMES_def)

lemma NROOMS_eq: "NROOMS = 9" by (simp add: NROOMS_def ROOMNAMES_def)

lemma NWEAPS_eq: "NWEAPS = 6" by (simp add: NWEAPS_def WEAPNAMES_def)

lemma in_shape_simp: "in_shape (c, r, w) \<longleftrightarrow> c < 6 \<and> r < 9 \<and> w < 6"
  by (simp add: in_shape_def NCHARS_eq NROOMS_eq NWEAPS_eq)




subsection \<open>C9: dicerollstomove\<close>

lemma DICEROLLSTOMOVE_length: "length DICEROLLSTOMOVE = 11"
  by (simp add: DICEROLLSTOMOVE_def)

text \<open>
  C9. For every integer distance d, dicerollstomove returns plus infinity when d is
  negative, the d-th entry of the lookup table (which has exactly 11 entries, so the
  entry exists) when d is between 0 and 10, and (d + 3.5) / 7 when d exceeds 10.
\<close>

theorem dicerollstomove_cases:
  "(d < 0 \<longrightarrow> dicerollstomove d = PInf) \<and>
   (0 \<le> d \<and> d \<le> 10 \<longrightarrow>
      nat d < length DICEROLLSTOMOVE \<and> dicerollstomove d = Fin (DICEROLLSTOMOVE ! nat d)) \<and>
   (10 < d \<longrightarrow> dicerollstomove d = Fin ((real_of_int d + 35 / 10) / 7)) \<and>
   length DICEROLLSTOMOVE = 11"
  by (auto simp: dicerollstomove_def DICEROLLSTOMOVE_length)

theorem dicerollstomove_cases_witness:
  "dicerollstomove (- 1) = PInf \<and>
   dicerollstomove 0 = Fin 0 \<and>
   dicerollstomove 3 = Fin (37 / 36) \<and>
   dicerollstomove 10 = Fin (193233453360767 / 100000000000000) \<and>
   dicerollstomove 11 = Fin (29 / 14) \<and>
   dicerollstomove 20 = Fin (47 / 14)"
  using dicerollstomove_cases [of "- 1"] dicerollstomove_cases [of 0]
    dicerollstomove_cases [of 3] dicerollstomove_cases [of 10]
    dicerollstomove_cases [of 11] dicerollstomove_cases [of 20]
  by (simp add: DICEROLLSTOMOVE_def)

lemma expposteriors_noanswer:
  assumes np: "1 \<le> n"
    and ne: "hyps \<noteq> []"
    and shape: "\<forall>h\<in>set hyps. in_shape (envelope h)"
    and dist: "distinct (map envelope hyps)"
    and none: "\<And>h. h \<in> set hyps \<Longrightarrow> firstanswer h [1 ..< nat n] ch rm wp = Inr None"
  shows "\<exists>r. expposteriors n hyps ch rm wp = Inr r \<and>
             expEntropy r = Fin (ln (real (length hyps)))"
proof -
  let ?players = "[1 ..< nat n]"
  have ok: "\<forall>h\<in>set hyps. \<exists>r. firstanswer h ?players ch rm wp = Inr r"
    using none by simp
  have cs: "(\<lambda>p b s. 0 + countwhere (\<lambda>h. \<exists>ip ia.
                firstanswer h ?players ch rm wp = Inr (Some (ip, ia)) \<and> ip - 1 = p \<and> ia - 1 = b)
              hyps s) = (\<lambda>p b s. 0)"
  proof (intro ext)
    fix p b s
    have "countwhere (\<lambda>h. \<exists>ip ia.
                firstanswer h ?players ch rm wp = Inr (Some (ip, ia)) \<and> ip - 1 = p \<and> ia - 1 = b)
              hyps s = 0"
      by (rule countwhere_none) (use none in auto)
    then show "0 + countwhere (\<lambda>h. \<exists>ip ia.
                firstanswer h ?players ch rm wp = Inr (Some (ip, ia)) \<and> ip - 1 = p \<and> ia - 1 = b)
              hyps s = 0" by simp
  qed
  have cn: "(\<lambda>s. 0 + countwhere (\<lambda>h. firstanswer h ?players ch rm wp = Inr None) hyps s)
            = countwhere (\<lambda>h. True) hyps"
  proof (intro ext)
    fix s
    have "filter (\<lambda>h. firstanswer h ?players ch rm wp = Inr None \<and> envelope h = s) hyps
          = filter (\<lambda>h. True \<and> envelope h = s) hyps"
      by (rule filter_cong) (use none in auto)
    then show "0 + countwhere (\<lambda>h. firstanswer h ?players ch rm wp = Inr None) hyps s
          = countwhere (\<lambda>h. True) hyps s"
      by (simp add: countwhere_def)
  qed
  have sorted: "sorthypotheses ?players hyps ch rm wp (\<lambda>p b s. 0, \<lambda>s. 0) =
      Inr (\<lambda>p b s. 0, countwhere (\<lambda>h. True) hyps)"
    unfolding sorthypotheses_counts [OF shape ok] cs cn ..
  have "expposteriors n hyps ch rm wp =
      expectation (nat (n - 1)) (length hyps) (\<lambda>p b s. 0) (countwhere (\<lambda>h. True) hyps)"
    unfolding expposteriors_def sorted using np by simp
  with expectation_noanswer [OF shape dist ne, of "nat (n - 1)"]
  show ?thesis by simp
qed

subsection \<open>C7: suggestionexpposteriors is a read-only projection\<close>

text \<open>
  C7. For every suggestion triple, a call of suggestionexpposteriors leaves the Detective
  as it was: the hypothesis list, the forbidden matrix and the forbidden sets, the four
  count tensors, pScenario and scenarioEntropy are the same after the call as before it,
  and so is the whole object, whether the call returns a result or raises.
\<close>

theorem suggestionexpposteriors_readonly:
  "hypotheses (snd (suggestionexpposteriors self ch rm wp)) = hypotheses self \<and>
   forbidden (snd (suggestionexpposteriors self ch rm wp)) = forbidden self \<and>
   forbiddenSets (snd (suggestionexpposteriors self ch rm wp)) = forbiddenSets self \<and>
   hypCountByScenario (snd (suggestionexpposteriors self ch rm wp)) = hypCountByScenario self \<and>
   hypCountByCharacter (snd (suggestionexpposteriors self ch rm wp)) = hypCountByCharacter self \<and>
   hypCountByRoom (snd (suggestionexpposteriors self ch rm wp)) = hypCountByRoom self \<and>
   hypCountByWeapon (snd (suggestionexpposteriors self ch rm wp)) = hypCountByWeapon self \<and>
   pScenario (snd (suggestionexpposteriors self ch rm wp)) = pScenario self \<and>
   scenarioEntropy (snd (suggestionexpposteriors self ch rm wp)) = scenarioEntropy self \<and>
   snd (suggestionexpposteriors self ch rm wp) = self"
  by (simp add: suggestionexpposteriors_def)

subsection \<open>C8: a suggestion of three cards of the detective's own hand\<close>




subsection \<open>C6: the parallel variant against the method\<close>

lemma fivehyp_pool_simps:
  "nPlayers fivehyp_pool = 2"
  "hypotheses fivehyp_pool = fivehyp_list"
  by (simp_all add: fivehyp_pool_def)

lemmas twoplayer_hyp_defs = twoplayer_hyp_a_def twoplayer_hyp_b_def twoplayer_hyp_c_def
  twoplayer_hyp_d_def twoplayer_hyp_e_def

lemma players2: "[1 ..< nat 2] = [1]"
  by (simp add: upt_conv_Cons)

lemma fivehyp_none:
  "h \<in> set fivehyp_list \<Longrightarrow> firstanswer h [1 ..< nat 2] 4 8 15 = Inr None"
  unfolding players2
  by (auto simp: fivehyp_list_def twoplayer_hyp_defs answerbin_def holds_def)

lemma fivehyp_core:
  "\<exists>r. expposteriors 2 fivehyp_list 4 8 15 = Inr r \<and> expEntropy r = Fin (ln 5)"
proof -
  have "\<exists>r. expposteriors 2 fivehyp_list 4 8 15 = Inr r \<and>
      expEntropy r = Fin (ln (real (length fivehyp_list)))"
  proof (rule expposteriors_noanswer)
    show "(1::int) \<le> 2" by simp
    show "fivehyp_list \<noteq> []" by (simp add: fivehyp_list_def)
    show "\<forall>h\<in>set fivehyp_list. in_shape (envelope h)"
      by (simp add: fivehyp_list_def twoplayer_hyp_defs in_shape_simp)
    show "distinct (map envelope fivehyp_list)"
      by (simp add: fivehyp_list_def twoplayer_hyp_defs)
    show "\<And>h. h \<in> set fivehyp_list \<Longrightarrow> firstanswer h [1 ..< nat 2] 4 8 15 = Inr None"
      by (rule fivehyp_none)
  qed
  moreover have "real (length fivehyp_list) = 5" by (simp add: fivehyp_list_def)
  ultimately show ?thesis by simp
qed

lemma players4: "[1 ..< nat (int (length fivehyp_list) - 1)] = [1, 2, 3]"
  by (simp add: fivehyp_list_def upt_conv_Cons)

lemma fivehyp_parcore_first:
  "firstanswer twoplayer_hyp_a [1, 2, 3] 4 8 15 = Inl IndexError"
  by (simp add: twoplayer_hyp_a_def answerbin_def holds_def)

text \<open>
  C6 fails on the code.  On a pool of five hypotheses of a two-player game and the
  suggestion of three of the detective's own cards, the method returns expEntropy
  \<open>ln 5\<close>; the parallel variant takes \<open>len(hypotheses) - 1 = 4\<close> for the number of players,
  asks the first hypothesis for the hand of player 3 and raises IndexError.
\<close>

theorem parcore_diverges:
  "map_sum id expEntropy (fst (suggestionexpposteriors fivehyp_pool 4 8 15)) = Inr (Fin (ln 5)) \<and>
   parcore_suggestionexpposteriors (hypotheses fivehyp_pool) 4 8 15 = Inl IndexError"
proof
  from fivehyp_core obtain r where
    "expposteriors 2 fivehyp_list 4 8 15 = Inr r" "expEntropy r = Fin (ln 5)" by blast
  then show "map_sum id expEntropy (fst (suggestionexpposteriors fivehyp_pool 4 8 15))
      = Inr (Fin (ln 5))"
    by (simp add: suggestionexpposteriors_def fivehyp_pool_simps)
  have "sorthypotheses [1, 2, 3] fivehyp_list 4 8 15 (\<lambda>p b s. 0, \<lambda>s. 0) = Inl IndexError"
    unfolding fivehyp_list_def
    by (simp only: sorthypotheses.simps fivehyp_parcore_first sum.case)
  then show "parcore_suggestionexpposteriors (hypotheses fivehyp_pool) 4 8 15 = Inl IndexError"
    unfolding parcore_suggestionexpposteriors_def expposteriors_def fivehyp_pool_simps players4
    by (simp add: fivehyp_list_def)
qed

subsection \<open>C4: expected entropy against the prior entropy\<close>

text \<open>
  When in no hypothesis a player has a choice among the suggested cards, the value of
  the method is a conditional entropy, and computed without rounding it stays at or
  below the prior entropy (\<open>expposteriors_single_le\<close>).  With a choice of cards it need
  not, as the pool of three hypotheses further down shows.
\<close>

lemma xlogratio_term:
  fixes c n t N :: real
  assumes c: "0 \<le> c" and cn: "c \<le> n" and ct: "c \<le> t" and N: "0 < N"
  shows "xlogratio c n + c * ln (t / N) \<le> t * n / N - c"
proof (cases "c > 0")
  case False
  with c have "c = 0" by simp
  moreover have "0 \<le> t * n / N" using c cn ct N by simp
  ultimately show ?thesis by (simp add: xlogratio_def)
next
  case True
  then have n: "0 < n" and t: "0 < t" using cn ct by simp_all
  let ?x = "(t / N) / (c / n)"
  have x: "0 < ?x" using True n t N by simp
  have "xlogratio c n + c * ln (t / N) = c * (ln (t / N) - ln (c / n))"
    using True by (simp add: xlogratio_def algebra_simps)
  also have "ln (t / N) - ln (c / n) = ln ?x"
    using True n t N ln_div [of "t / N" "c / n"] by simp
  also have "c * ln ?x \<le> c * (?x - 1)"
    using ln_le_minus_one [OF x] True by (simp add: mult_left_mono)
  also have "c * (?x - 1) = t * n / N - c"
    using True n N by (simp add: field_simps)
  finally show ?thesis .
qed

lemma conditional_entropy_le:
  fixes c :: "'i \<Rightarrow> 's \<Rightarrow> real"
  assumes fin: "finite I" "finite S"
    and nonneg: "\<And>i s. i \<in> I \<Longrightarrow> s \<in> S \<Longrightarrow> 0 \<le> c i s"
    and pos: "0 < (\<Sum>i\<in>I. \<Sum>s\<in>S. c i s)"
  shows "(\<Sum>i\<in>I. \<Sum>s\<in>S. xlogratio (c i s) (\<Sum>s'\<in>S. c i s'))
         \<le> (\<Sum>s\<in>S. xlogratio (\<Sum>i\<in>I. c i s) (\<Sum>i\<in>I. \<Sum>s\<in>S. c i s))"
proof -
  define n where "n = (\<lambda>i. \<Sum>s\<in>S. c i s)"
  define t where "t = (\<lambda>s. \<Sum>i\<in>I. c i s)"
  define N where "N = (\<Sum>i\<in>I. \<Sum>s\<in>S. c i s)"
  have Nn: "N = (\<Sum>i\<in>I. n i)" by (simp add: N_def n_def)
  have Nt: "N = (\<Sum>s\<in>S. t s)" unfolding N_def t_def by (rule sum.swap)
  have N: "0 < N" using pos by (simp add: N_def)
  have cn: "c i s \<le> n i" if "i \<in> I" "s \<in> S" for i s
    unfolding n_def using that fin nonneg by (intro member_le_sum) auto
  have ct: "c i s \<le> t s" if "i \<in> I" "s \<in> S" for i s
    unfolding t_def using that fin nonneg by (intro member_le_sum) auto
  have tpos: "0 \<le> t s" if "s \<in> S" for s
    unfolding t_def using that nonneg by (intro sum_nonneg) auto
  have col: "(\<Sum>i\<in>I. c i s * ln (t s / N)) = - xlogratio (t s) N" if s: "s \<in> S" for s
  proof (cases "t s > 0")
    case True
    have "(\<Sum>i\<in>I. c i s * ln (t s / N)) = (\<Sum>i\<in>I. c i s) * ln (t s / N)"
      by (simp add: sum_distrib_right)
    then show ?thesis using True by (simp add: xlogratio_def t_def)
  next
    case False
    with tpos [OF s] have z: "t s = 0" by simp
    have "c i s = 0" if "i \<in> I" for i
      using ct [OF that s] nonneg [OF that s] z by simp
    then show ?thesis using z by (simp add: xlogratio_def)
  qed
  have prod: "(\<Sum>i\<in>I. \<Sum>s\<in>S. t s * n i / N) = N"
  proof -
    have "(\<Sum>i\<in>I. \<Sum>s\<in>S. t s * n i / N) = (\<Sum>i\<in>I. (\<Sum>s\<in>S. t s) * n i / N)"
      by (simp add: sum_distrib_right sum_divide_distrib)
    also have "\<dots> = (\<Sum>i\<in>I. n i)"
      using N by (simp add: Nt [symmetric])
    finally show ?thesis by (simp add: Nn)
  qed
  have "(\<Sum>i\<in>I. \<Sum>s\<in>S. xlogratio (c i s) (n i)) - (\<Sum>s\<in>S. xlogratio (t s) N)
        = (\<Sum>i\<in>I. \<Sum>s\<in>S. xlogratio (c i s) (n i)) + (\<Sum>s\<in>S. \<Sum>i\<in>I. c i s * ln (t s / N))"
    by (simp add: col sum_negf)
  also have "(\<Sum>s\<in>S. \<Sum>i\<in>I. c i s * ln (t s / N)) = (\<Sum>i\<in>I. \<Sum>s\<in>S. c i s * ln (t s / N))"
    by (rule sum.swap)
  also have "(\<Sum>i\<in>I. \<Sum>s\<in>S. xlogratio (c i s) (n i)) + (\<Sum>i\<in>I. \<Sum>s\<in>S. c i s * ln (t s / N))
        = (\<Sum>i\<in>I. \<Sum>s\<in>S. xlogratio (c i s) (n i) + c i s * ln (t s / N))"
    by (simp add: sum.distrib)
  also have "\<dots> \<le> (\<Sum>i\<in>I. \<Sum>s\<in>S. t s * n i / N - c i s)"
    by (intro sum_mono xlogratio_term nonneg cn ct N)
  also have "\<dots> = (\<Sum>i\<in>I. \<Sum>s\<in>S. t s * n i / N) - N"
    by (simp add: sum_subtractf N_def)
  also have "\<dots> = 0" by (simp add: prod)
  finally show ?thesis by (simp add: n_def t_def N_def)
qed

lemma sum3_nonneg: "(\<And>s. in_shape s \<Longrightarrow> 0 \<le> c s) \<Longrightarrow> 0 \<le> sum3 (c :: scenario \<Rightarrow> real)"
  unfolding sum3_as_sum by (rule sum_nonneg) (simp add: in_scenarioset)

lemma sum3_zero_iff:
  assumes "\<And>s. in_shape s \<Longrightarrow> 0 \<le> (c :: scenario \<Rightarrow> real) s" and "sum3 c = 0" and "in_shape s"
  shows "c s = 0"
proof -
  have "\<forall>s\<in>scenarioset. c s = 0"
    using assms(1,2) unfolding sum3_as_sum
    by (subst (asm) sum_nonneg_eq_0_iff) (simp_all add: finite_scenarioset in_scenarioset)
  then show ?thesis using assms(3) by (simp add: in_scenarioset)
qed

lemma weighted_entropy:
  assumes nonneg: "\<And>s. in_shape s \<Longrightarrow> 0 \<le> c s"
  shows "fmul (sum3 (\<lambda>s. entropyterm (fdiv (Fin (c s)) (Fin (sum3 c))))) (Fin (sum3 c))
         = Fin (sum3 (\<lambda>s. xlogratio (c s) (sum3 c)))"
proof (cases "sum3 c = 0")
  case True
  have "sum3 (\<lambda>s. entropyterm (fdiv (Fin (c s)) (Fin (sum3 c)))) = sum3 (\<lambda>s. Fin 0)"
    by (rule sum3_cong) (simp add: True sum3_zero_iff [OF nonneg True] entropyterm_NaN)
  moreover have "sum3 (\<lambda>s. xlogratio (c s) (sum3 c)) = sum3 (\<lambda>s. 0)"
    by (rule sum3_cong) (simp add: sum3_zero_iff [OF nonneg True] xlogratio_def)
  ultimately show ?thesis by (simp add: sum3_Fin sum3_zero True)
next
  case False
  with sum3_nonneg [of c] nonneg have pos: "0 < sum3 c" by fastforce
  have "sum3 (\<lambda>s. entropyterm (fdiv (Fin (c s)) (Fin (sum3 c))))
        = sum3 (\<lambda>s. Fin (xlogratio (c s) (sum3 c) / sum3 c))"
  proof (rule sum3_cong)
    fix s assume "in_shape s"
    then have "0 \<le> c s" by (rule nonneg)
    then show "entropyterm (fdiv (Fin (c s)) (Fin (sum3 c))) = Fin (xlogratio (c s) (sum3 c) / sum3 c)"
      using pos by (auto simp: entropyterm_Fin xlogratio_def zero_less_divide_iff)
  qed
  also have "\<dots> = Fin (sum3 (\<lambda>s. xlogratio (c s) (sum3 c)) / sum3 c)"
    by (simp add: sum3_Fin sum3_as_sum sum_divide_distrib)
  finally show ?thesis using pos by simp
qed

lemma statsfromcounts_entropy:
  assumes nonneg: "\<And>s. in_shape s \<Longrightarrow> 0 \<le> c s" and pos: "0 < sum3 c"
  shows "snd (statsfromcounts c) = Fin (sum3 (\<lambda>s. xlogratio (c s) (sum3 c)) / sum3 c)"
proof -
  have "sum3 (\<lambda>s. entropyterm (Fin (if in_shape s then c s / sum3 c else 0)))
        = sum3 (\<lambda>s. Fin (xlogratio (c s) (sum3 c) / sum3 c))"
  proof (rule sum3_cong)
    fix s assume s: "in_shape s"
    then have "0 \<le> c s" by (rule nonneg)
    then show "entropyterm (Fin (if in_shape s then c s / sum3 c else 0))
        = Fin (xlogratio (c s) (sum3 c) / sum3 c)"
      using pos s by (auto simp: entropyterm_Fin xlogratio_def zero_less_divide_iff)
  qed
  also have "\<dots> = Fin (sum3 (\<lambda>s. xlogratio (c s) (sum3 c)) / sum3 c)"
    by (simp add: sum3_Fin sum3_as_sum sum_divide_distrib)
  finally show ?thesis using pos by (simp add: statsfromcounts_def Let_def)
qed

lemma single_after:
  assumes single: "singlecard cs p" and a: "a < 3"
  shows "hypCountsAfterAnswer cs p a s = cs p ([0, 1, 3] ! a) s"
proof -
  from a have "a = 0 \<or> a = 1 \<or> a = 2" by auto
  then show ?thesis
    using single by (auto simp: hypCountsAfterAnswer_def singlecard_def)
qed

lemma single_received:
  assumes single: "singlecard cs p"
  shows "receivedHypCounts cs p a s = cs p ([0, 1, 3] ! a) s"
  using single by (simp add: receivedHypCounts_def Let_def singlecard_def)

lemma single_total:
  assumes single: "singlecard cs p"
  shows "totalReceivedCounts cs p a = sum3 (cs p ([0, 1, 3] ! a))"
  unfolding totalReceivedCounts_def
  by (rule sum3_cong) (simp add: single_received [OF single])

lemma single_sums:
  assumes single: "singlecard cs p" and a: "a < 3"
  shows "hypCountSumsAfterAnswer cs p a = sum3 (cs p ([0, 1, 3] ! a))"
proof -
  have "hypCountSumsAfterAnswer cs p a = sum3 (hypCountsAfterAnswer cs p a)"
    by (simp add: hypCountSumsAfterAnswer_def hypCountsByRoomAfterAnswer_def byroom_total)
  also have "\<dots> = sum3 (cs p ([0, 1, 3] ! a))"
    by (rule sum3_cong) (simp add: single_after [OF single a])
  finally show ?thesis .
qed

lemma single_weighted:
  assumes single: "singlecard cs p" and a: "a < 3"
    and nonneg: "\<And>b s. 0 \<le> cs p b s"
  shows "fmul (entAfterAnswer cs p a) (Fin (totalReceivedCounts cs p a))
         = Fin (sum3 (\<lambda>s. xlogratio (cs p ([0, 1, 3] ! a) s) (sum3 (cs p ([0, 1, 3] ! a)))))"
proof -
  have "entAfterAnswer cs p a = sum3 (\<lambda>s. entropyterm
          (fdiv (Fin (cs p ([0, 1, 3] ! a) s)) (Fin (sum3 (cs p ([0, 1, 3] ! a))))))"
    by (simp add: entAfterAnswer_def pAfterAnswer_def single_sums [OF single a]
        single_after [OF single a])
  then show ?thesis
    by (simp only: single_total [OF single] weighted_entropy [OF nonneg])
qed

lemma noanswer_weighted:
  assumes nonneg: "\<And>s. 0 \<le> cn s"
  shows "fmul (entNoAnswer cn) (Fin (hypCountSumNoAnswer cn))
         = Fin (sum3 (\<lambda>s. xlogratio (cn s) (sum3 cn)))"
proof (cases "0 < sum3 cn")
  case True
  then show ?thesis
    by (simp only: entNoAnswer_def sumNoAnswer_total if_True weighted_entropy [OF nonneg])
next
  case False
  with sum3_nonneg [of cn] nonneg have z: "sum3 cn = 0" by fastforce
  have "sum3 (\<lambda>s. xlogratio (cn s) (sum3 cn)) = sum3 (\<lambda>s. 0)"
    by (rule sum3_cong) (simp add: sum3_zero_iff [OF nonneg z] xlogratio_def)
  then show ?thesis
    by (simp add: entNoAnswer_def sumNoAnswer_total z sum3_zero)
qed

lemma sum_answers:
  fixes F :: "(nat \<times> nat) option \<Rightarrow> real"
  shows "(\<Sum>i\<in>insert None (Some ` ({..<nO} \<times> {..<(3::nat)})). F i)
         = F None + (\<Sum>p<nO. \<Sum>a<3. F (Some (p, a)))"
proof -
  have "(\<Sum>i\<in>Some ` ({..<nO} \<times> {..<(3::nat)}). F i) = (\<Sum>pa\<in>{..<nO} \<times> {..<3}. F (Some pa))"
    by (simp add: sum.reindex)
  also have "\<dots> = (\<Sum>p<nO. \<Sum>a<3. F (Some (p, a)))"
    by (simp add: sum.cartesian_product)
  finally show ?thesis by (subst sum.insert) auto
qed

lemma expectation_single_le:
  assumes nonneg_cs: "\<And>p b s. 0 \<le> cs p b s" and nonneg_cn: "\<And>s. 0 \<le> cn s"
    and single: "\<And>p. singlecard cs p"
    and total: "\<And>s. in_shape s \<Longrightarrow> T s = cn s + (\<Sum>p<nO. \<Sum>a<3. cs p ([0, 1, 3] ! a) s)"
    and N: "real N = sum3 T" and pos: "0 < N"
  shows "\<exists>r. expectation nO N cs cn = Inr r \<and> fle (expEntropy r) (snd (statsfromcounts T))"
proof -
  define c where "c = (\<lambda>i s. case i of None \<Rightarrow> cn s | Some (p, a) \<Rightarrow> cs p ([0, 1, 3] ! a) s)"
  define I where "I = insert None (Some ` ({..<nO} \<times> {..<(3::nat)}))"
  have finI: "finite I" by (simp add: I_def)
  have cnonneg: "0 \<le> c i s" for i s
    by (simp add: c_def nonneg_cs nonneg_cn split: option.split prod.split)
  have Tsum: "T s = (\<Sum>i\<in>I. c i s)" if "in_shape s" for s
    unfolding I_def sum_answers by (simp add: c_def total [OF that])
  have sumT: "sum3 T = (\<Sum>i\<in>I. \<Sum>s\<in>scenarioset. c i s)"
  proof -
    have "sum3 T = (\<Sum>s\<in>scenarioset. \<Sum>i\<in>I. c i s)"
      unfolding sum3_as_sum by (rule sum.cong) (simp_all add: Tsum in_scenarioset)
    then show ?thesis by (simp add: sum.swap [of _ I])
  qed
  have Tnonneg: "0 \<le> T s" if "in_shape s" for s
    unfolding Tsum [OF that] by (rule sum_nonneg) (rule cnonneg)
  have posT: "0 < sum3 T" using N pos by simp
  have asserted: "real N = (\<Sum>p<nO. \<Sum>a<3. totalReceivedCounts cs p a) + hypCountSumNoAnswer cn"
  proof -
    have "sum3 T = (\<Sum>i\<in>I. sum3 (c i))" using sumT unfolding sum3_as_sum .
    also have "\<dots> = sum3 cn + (\<Sum>p<nO. \<Sum>a<3. sum3 (cs p ([0, 1, 3] ! a)))"
      unfolding I_def sum_answers by (simp add: c_def)
    finally show ?thesis
      by (simp add: N single_total [OF single] sumNoAnswer_total)
  qed
  define X where "X = (\<Sum>i\<in>I. \<Sum>s\<in>scenarioset. xlogratio (c i s) (\<Sum>s'\<in>scenarioset. c i s'))"
  have Xeq: "X = sum3 (\<lambda>s. xlogratio (cn s) (sum3 cn))
      + (\<Sum>p<nO. \<Sum>a<3. sum3 (\<lambda>s. xlogratio (cs p ([0, 1, 3] ! a) s) (sum3 (cs p ([0, 1, 3] ! a)))))"
    unfolding X_def I_def sum_answers by (simp add: c_def sum3_as_sum)
  have weighted: "(\<Sum>p<nO. \<Sum>a<(3::nat). fmul (entAfterAnswer cs p a) (Fin (totalReceivedCounts cs p a)))
      = Fin (\<Sum>p<nO. \<Sum>a<(3::nat). sum3 (\<lambda>s. xlogratio (cs p ([0, 1, 3] ! a) s)
              (sum3 (cs p ([0, 1, 3] ! a)))))"
  proof -
    have "(\<Sum>a<(3::nat). fmul (entAfterAnswer cs p a) (Fin (totalReceivedCounts cs p a)))
        = Fin (\<Sum>a<(3::nat). sum3 (\<lambda>s. xlogratio (cs p ([0, 1, 3] ! a) s)
              (sum3 (cs p ([0, 1, 3] ! a)))))" for p
    proof -
      have "(\<Sum>a<(3::nat). fmul (entAfterAnswer cs p a) (Fin (totalReceivedCounts cs p a)))
          = (\<Sum>a<(3::nat). Fin (sum3 (\<lambda>s. xlogratio (cs p ([0, 1, 3] ! a) s)
              (sum3 (cs p ([0, 1, 3] ! a))))))"
        by (rule sum.cong) (simp_all add: single_weighted [OF single _ nonneg_cs])
      then show ?thesis by (simp add: sum_Fin)
    qed
    then show ?thesis by (simp add: sum_Fin)
  qed
  have expEnt: "fdiv (fmul (entNoAnswer cn) (Fin (hypCountSumNoAnswer cn))
                 + (\<Sum>p<nO. \<Sum>a<(3::nat). fmul (entAfterAnswer cs p a)
                        (Fin (totalReceivedCounts cs p a))))
             (Fin (real N)) = Fin (X / real N)"
    using pos by (simp add: weighted noanswer_weighted [OF nonneg_cn] plus_npfloat_def Xeq)
  have "X \<le> (\<Sum>s\<in>scenarioset. xlogratio (\<Sum>i\<in>I. c i s) (\<Sum>i\<in>I. \<Sum>s\<in>scenarioset. c i s))"
    unfolding X_def
    by (rule conditional_entropy_le [OF finI finite_scenarioset cnonneg])
       (use posT in \<open>simp add: sumT\<close>)
  also have "\<dots> = (\<Sum>s\<in>scenarioset. xlogratio (\<Sum>i\<in>I. c i s) (sum3 T))"
    by (simp only: sumT)
  also have "\<dots> = (\<Sum>s\<in>scenarioset. xlogratio (T s) (sum3 T))"
    by (rule sum.cong) (simp_all add: Tsum in_scenarioset)
  finally have le: "X \<le> sum3 (\<lambda>s. xlogratio (T s) (sum3 T))"
    by (simp only: sum3_as_sum [of "\<lambda>s. xlogratio (T s) (sum3 T)"])
  have prior: "snd (statsfromcounts T) = Fin (sum3 (\<lambda>s. xlogratio (T s) (sum3 T)) / sum3 T)"
    by (rule statsfromcounts_entropy [OF Tnonneg posT])
  have "fle (Fin (X / real N)) (snd (statsfromcounts T))"
    using le posT by (simp add: prior N divide_right_mono)
  then show ?thesis
    using asserted expEnt by (simp add: expectation_def Let_def)
qed

lemma firstanswer_Some:
  "firstanswer h players ch rm wp = Inr (Some (ip, ia)) \<Longrightarrow> ip \<in> set players \<and> 0 < ia"
  by (induction players) (auto split: sum.splits if_splits)

lemma countwhere_nonneg: "0 \<le> countwhere P hyps s"
  by (simp add: countwhere_def)

lemma answer_indicator:
  fixes ia ip :: nat
  assumes ia: "ia = 1 \<or> ia = 2 \<or> ia = 4" and ip: "ip - 1 < nO"
  shows "(\<Sum>p<nO. \<Sum>a<(3::nat). if ip - 1 = p \<and> ia - 1 = [0, 1, 3] ! a then (1::real) else 0) = 1"
proof -
  have inner: "(\<Sum>a<(3::nat). if ip - 1 = p \<and> ia - 1 = [0, 1, 3] ! a then (1::real) else 0)
      = (if p = ip - 1 then 1 else 0)" for p
    using ia by (auto simp: numeral_3_eq_3)
  show ?thesis unfolding inner using ip by simp
qed

lemma count_partition:
  assumes single: "\<forall>h\<in>set hyps. singleanswer h players ch rm wp"
    and inrange: "\<forall>ip\<in>set players. ip - 1 < nO"
  shows "countwhere (\<lambda>h. True) hyps s =
           countwhere (\<lambda>h. firstanswer h players ch rm wp = Inr None) hyps s
           + (\<Sum>p<nO. \<Sum>a<(3::nat). countwhere (\<lambda>h. \<exists>ip ia.
                 firstanswer h players ch rm wp = Inr (Some (ip, ia)) \<and> ip - 1 = p \<and>
                 ia - 1 = [0, 1, 3] ! a) hyps s)"
  using single
proof (induction hyps)
  case Nil
  then show ?case by (simp add: countwhere_Nil)
next
  case (Cons h hs)
  let ?fa = "firstanswer h players ch rm wp"
  have one: "(if envelope h = s then (1::real) else 0) =
        (if ?fa = Inr None \<and> envelope h = s then 1 else 0)
        + (\<Sum>p<nO. \<Sum>a<(3::nat). if (\<exists>ip ia. ?fa = Inr (Some (ip, ia)) \<and> ip - 1 = p \<and>
                 ia - 1 = [0, 1, 3] ! a) \<and> envelope h = s then 1 else 0)"
  proof (cases "envelope h = s")
    case False
    then show ?thesis by simp
  next
    case True
    from Cons.prems have sa: "singleanswer h players ch rm wp" by simp
    show ?thesis
    proof (cases ?fa)
      case (Inl e)
      with sa show ?thesis by (simp add: singleanswer_def)
    next
      case (Inr r)
      show ?thesis
      proof (cases r)
        case None
        with Inr True show ?thesis by simp
      next
        case (Some pa)
        obtain ip ia where pa: "pa = (ip, ia)" by (cases pa)
        from sa Inr Some pa have ia: "ia = 1 \<or> ia = 2 \<or> ia = 4"
          by (simp add: singleanswer_def)
        from firstanswer_Some [of h players ch rm wp ip ia] Inr Some pa inrange
        have ip: "ip - 1 < nO" by simp
        show ?thesis
          using Inr Some pa True answer_indicator [OF ia ip] by simp
      qed
    qed
  qed
  have "countwhere (\<lambda>h. True) (h # hs) s
      = (if envelope h = s then 1 else 0) + countwhere (\<lambda>h. True) hs s"
    by (simp add: countwhere_Cons)
  also have "countwhere (\<lambda>h. True) hs s =
           countwhere (\<lambda>h. firstanswer h players ch rm wp = Inr None) hs s
           + (\<Sum>p<nO. \<Sum>a<(3::nat). countwhere (\<lambda>h. \<exists>ip ia.
                 firstanswer h players ch rm wp = Inr (Some (ip, ia)) \<and> ip - 1 = p \<and>
                 ia - 1 = [0, 1, 3] ! a) hs s)"
    using Cons by simp
  finally show ?case
    unfolding one by (simp add: countwhere_Cons sum.distrib)
qed

lemma expposteriors_single_le:
  assumes np: "1 \<le> n"
    and ne: "hyps \<noteq> []"
    and shape: "\<forall>h\<in>set hyps. in_shape (envelope h)"
    and single: "\<forall>h\<in>set hyps. singleanswer h [1 ..< nat n] ch rm wp"
    and counts: "\<forall>s. in_shape s \<longrightarrow> T s = real (length (filter (\<lambda>h. envelope h = s) hyps))"
  shows "\<exists>r. expposteriors n hyps ch rm wp = Inr r \<and>
             fle (expEntropy r) (snd (statsfromcounts T))"
proof -
  let ?players = "[1 ..< nat n]"
  define cs where "cs = (\<lambda>p b s. 0 + countwhere (\<lambda>h. \<exists>ip ia.
        firstanswer h ?players ch rm wp = Inr (Some (ip, ia)) \<and> ip - 1 = p \<and> ia - 1 = b) hyps s)"
  define cn where "cn = (\<lambda>s. 0 + countwhere (\<lambda>h. firstanswer h ?players ch rm wp = Inr None) hyps s)"
  have ok: "\<forall>h\<in>set hyps. \<exists>r. firstanswer h ?players ch rm wp = Inr r"
  proof
    fix h assume "h \<in> set hyps"
    with single have "singleanswer h ?players ch rm wp" by simp
    then show "\<exists>r. firstanswer h ?players ch rm wp = Inr r"
      by (cases "firstanswer h ?players ch rm wp") (simp_all add: singleanswer_def)
  qed
  have sorted: "sorthypotheses ?players hyps ch rm wp (\<lambda>p b s. 0, \<lambda>s. 0) = Inr (cs, cn)"
    unfolding cs_def cn_def by (rule sorthypotheses_counts [OF shape ok])
  have nomulti: "cs p b = (\<lambda>s. 0)" if b: "b = 2 \<or> b = 4 \<or> b = 5 \<or> b = 6" for p b
  proof (rule ext)
    fix s
    have "countwhere (\<lambda>h. \<exists>ip ia. firstanswer h ?players ch rm wp = Inr (Some (ip, ia)) \<and>
            ip - 1 = p \<and> ia - 1 = b) hyps s = 0"
    proof (rule countwhere_none, rule ballI, rule notI)
      fix h assume h: "h \<in> set hyps"
        and "\<exists>ip ia. firstanswer h ?players ch rm wp = Inr (Some (ip, ia)) \<and> ip - 1 = p \<and> ia - 1 = b"
      then obtain ip ia where fa: "firstanswer h ?players ch rm wp = Inr (Some (ip, ia))"
        and ia: "ia - 1 = b" by blast
      from single h have "singleanswer h ?players ch rm wp" by blast
      with fa have "ia = 1 \<or> ia = 2 \<or> ia = 4" by (simp add: singleanswer_def)
      with ia b show False by auto
    qed
    then show "cs p b s = 0" by (simp add: cs_def)
  qed
  have singlecs: "singlecard cs p" for p
    by (simp add: singlecard_def nomulti)
  have inrange: "\<forall>ip\<in>set ?players. ip - 1 < nat (n - 1)"
    using np by auto
  have total: "T s = cn s + (\<Sum>p<nat (n - 1). \<Sum>a<3. cs p ([0, 1, 3] ! a) s)" if s: "in_shape s" for s
  proof -
    have "T s = countwhere (\<lambda>h. True) hyps s"
      using counts [rule_format, OF s] by (simp add: countwhere_def)
    also note count_partition [OF single inrange, of s]
    finally show ?thesis by (simp add: cs_def cn_def)
  qed
  have N: "real (length hyps) = sum3 T"
  proof -
    have "sum3 T = sum3 (countwhere (\<lambda>h. True) hyps)"
      by (rule sum3_cong) (simp add: counts [rule_format] countwhere_def)
    then show ?thesis using sum3_countwhere [OF shape, of "\<lambda>h. True"] by simp
  qed
  have pos: "0 < length hyps" using ne by simp
  have "\<exists>r. expectation (nat (n - 1)) (length hyps) cs cn = Inr r \<and>
      fle (expEntropy r) (snd (statsfromcounts T))"
    by (rule expectation_single_le [OF _ _ singlecs total N pos])
       (simp_all add: cs_def cn_def countwhere_nonneg)
  moreover have "expposteriors n hyps ch rm wp =
      expectation (nat (n - 1)) (length hyps) cs cn"
    unfolding expposteriors_def sorted using np by simp
  ultimately show ?thesis by simp
qed

lemma sum3_two:
  assumes "in_shape A" "in_shape B" "A \<noteq> B"
  shows "sum3 (\<lambda>s. if s = A then x else if s = B then y else 0) = x + y"
proof -
  have "(\<lambda>s. if s = A then x else if s = B then y else 0)
      = (\<lambda>s. (if s = A then x else 0) + (if s = B then y else 0))"
    using assms(3) by (auto simp: fun_eq_iff)
  then show ?thesis using assms by (simp add: sum3_add sum3_delta)
qed

lemma sum_lt2: "(\<Sum>p<(2::nat). f p) = f 0 + f (Suc 0)"
  by (simp add: numeral_2_eq_2)

lemma sum_lt3: "(\<Sum>a<(3::nat). f a) = f 0 + f (Suc 0) + f 2"
  by (simp add: numeral_3_eq_3 numeral_2_eq_2)

lemma threeplayer_players: "[1 ..< nat 3] = [Suc 0, 2]"
  by (simp add: upt_conv_Cons)

lemma threeplayer_answers:
  "firstanswer threeplayer_hyp_a [Suc 0, 2] 0 6 15 = Inr (Some (Suc 0, 3))"
  "firstanswer threeplayer_hyp_b [Suc 0, 2] 0 6 15 = Inr (Some (Suc 0, 3))"
  "firstanswer threeplayer_hyp_c [Suc 0, 2] 0 6 15 = Inr (Some (Suc 0, 2))"
  by (simp_all add: threeplayer_hyp_a_def threeplayer_hyp_b_def threeplayer_hyp_c_def
      answerbin_def holds_def)

lemma threeplayer_envelopes:
  "envelope threeplayer_hyp_a = (2, 2, 2)" "envelope threeplayer_hyp_b = (3, 2, 2)"
  "envelope threeplayer_hyp_c = (2, 2, 2)"
  by (simp_all add: threeplayer_hyp_a_def threeplayer_hyp_b_def threeplayer_hyp_c_def)

lemma threeplayer_sorting:
  "sorthypotheses [Suc 0, 2] [threeplayer_hyp_a, threeplayer_hyp_b, threeplayer_hyp_c] 0 6 15
     (\<lambda>p b s. 0, \<lambda>s. 0) = Inr (threeplayer_sorted, \<lambda>s. 0)"
proof -
  let ?hyps = "[threeplayer_hyp_a, threeplayer_hyp_b, threeplayer_hyp_c]"
  have shape: "\<forall>h\<in>set ?hyps. in_shape (envelope h)"
    by (simp add: threeplayer_envelopes in_shape_simp)
  have ok: "\<forall>h\<in>set ?hyps. \<exists>r. firstanswer h [Suc 0, 2] 0 6 15 = Inr r"
    by (simp add: threeplayer_answers del: firstanswer.simps)
  have cs: "(\<lambda>p b s. 0 + countwhere (\<lambda>h. \<exists>ip ia.
        firstanswer h [Suc 0, 2] 0 6 15 = Inr (Some (ip, ia)) \<and> ip - 1 = p \<and> ia - 1 = b) ?hyps s)
      = threeplayer_sorted"
    by (intro ext)
       (auto simp add: countwhere_Cons countwhere_Nil threeplayer_answers threeplayer_envelopes
          threeplayer_sorted_def simp del: firstanswer.simps)
  have cn: "(\<lambda>s. 0 + countwhere (\<lambda>h. firstanswer h [Suc 0, 2] 0 6 15 = Inr None) ?hyps s)
      = (\<lambda>s. 0)"
    by (intro ext)
       (simp add: countwhere_Cons countwhere_Nil threeplayer_answers del: firstanswer.simps)
  show ?thesis
    unfolding sorthypotheses_counts [OF shape ok] cs cn ..
qed

lemma ln_facts:
  "0 < ln 3 - 2 / 3 * ln (2::real)" "ln 3 - 2 / 3 * ln 2 < ln (2::real)"
proof -
  have a: "ln (2::real) < ln 3" by simp
  have b: "0 < ln (2::real)" by simp
  from a b show "0 < ln 3 - 2 / 3 * ln (2::real)" by linarith
  have "ln (27::real) = 3 * ln 3" using ln_realpow [of "3::real" 3] by simp
  moreover have "ln (32::real) = 5 * ln 2" using ln_realpow [of "2::real" 5] by simp
  moreover have "ln (27::real) < ln 32" by simp
  ultimately have "3 * ln (3::real) < 5 * ln 2" by simp
  then show "ln 3 - 2 / 3 * ln 2 < ln (2::real)" by linarith
qed

lemma threeplayer_after:
  "hypCountsAfterAnswer threeplayer_sorted 0 0 = (\<lambda>s. if s = (2, 2, 2) then 1 else if s = (3, 2, 2) then 1 else 0)"
  "hypCountsAfterAnswer threeplayer_sorted 0 (Suc 0) = (\<lambda>s. if s = (2, 2, 2) then 2 else if s = (3, 2, 2) then 1 else 0)"
  "hypCountsAfterAnswer threeplayer_sorted 0 2 = (\<lambda>s. 0)"
  "hypCountsAfterAnswer threeplayer_sorted (Suc 0) a = (\<lambda>s. 0)"
  by (auto simp: fun_eq_iff hypCountsAfterAnswer_def threeplayer_sorted_def)

lemma sums_total: "hypCountSumsAfterAnswer cs p a = sum3 (hypCountsAfterAnswer cs p a)"
  by (simp add: hypCountSumsAfterAnswer_def hypCountsByRoomAfterAnswer_def byroom_total)

lemma threeplayer_sums:
  "hypCountSumsAfterAnswer threeplayer_sorted 0 0 = 2"
  "hypCountSumsAfterAnswer threeplayer_sorted 0 (Suc 0) = 3"
  "hypCountSumsAfterAnswer threeplayer_sorted 0 2 = 0"
  "hypCountSumsAfterAnswer threeplayer_sorted (Suc 0) a = 0"
  by (simp_all add: sums_total threeplayer_after sum3_two in_shape_simp sum3_zero)

lemma threeplayer_ent:
  "entAfterAnswer threeplayer_sorted 0 0 = Fin (ln 2)"
  "entAfterAnswer threeplayer_sorted 0 (Suc 0) = Fin (ln 3 - 2 / 3 * ln 2)"
  "entAfterAnswer threeplayer_sorted 0 2 = Fin 0"
  "entAfterAnswer threeplayer_sorted (Suc 0) a = Fin 0"
proof -
  have "entAfterAnswer threeplayer_sorted 0 0
      = sum3 (\<lambda>s. if s = (2, 2, 2) then Fin (ln 2 / 2) else if s = (3, 2, 2) then Fin (ln 2 / 2) else 0)"
    unfolding entAfterAnswer_def pAfterAnswer_def threeplayer_after threeplayer_sums
    by (rule sum3_cong) (auto simp: entropyterm_Fin zero_npfloat_def ln_div)
  then show "entAfterAnswer threeplayer_sorted 0 0 = Fin (ln 2)"
    by (simp add: sum3_two in_shape_simp plus_npfloat_def)
  have "entAfterAnswer threeplayer_sorted 0 (Suc 0)
      = sum3 (\<lambda>s. if s = (2, 2, 2) then Fin (2 / 3 * (ln 3 - ln 2))
              else if s = (3, 2, 2) then Fin (ln 3 / 3) else 0)"
    unfolding entAfterAnswer_def pAfterAnswer_def threeplayer_after threeplayer_sums
    by (rule sum3_cong) (auto simp: entropyterm_Fin zero_npfloat_def ln_div algebra_simps)
  then show "entAfterAnswer threeplayer_sorted 0 (Suc 0) = Fin (ln 3 - 2 / 3 * ln 2)"
    by (simp add: sum3_two in_shape_simp plus_npfloat_def algebra_simps)
  show "entAfterAnswer threeplayer_sorted 0 2 = Fin 0"
    by (simp add: entAfterAnswer_def pAfterAnswer_def threeplayer_after threeplayer_sums
        entropyterm_NaN sum3_Fin sum3_zero)
  show "entAfterAnswer threeplayer_sorted (Suc 0) a = Fin 0"
    by (simp add: entAfterAnswer_def pAfterAnswer_def threeplayer_after threeplayer_sums
        entropyterm_NaN sum3_Fin sum3_zero)
qed

lemma argsort3_desc:
  "z < y \<Longrightarrow> y < x \<Longrightarrow> rev (argsort [Fin x, Fin y, Fin z]) = [0, Suc 0, 2]"
  by (simp add: argsort_def upt_conv_Cons)

lemma threeplayer_decisions: "playerDecisions threeplayer_sorted 0 = [0, Suc 0, 2]"
  unfolding playerDecisions_def
  using ln_facts by (simp add: threeplayer_ent argsort3_desc del: rev.simps)

lemma threeplayer_received:
  "receivedHypCounts threeplayer_sorted 0 0 = (\<lambda>s. if s = (2, 2, 2) then 1 else if s = (3, 2, 2) then 1 else 0)"
  "receivedHypCounts threeplayer_sorted 0 (Suc 0) = (\<lambda>s. if s = (2, 2, 2) then 1 else if s = (3, 2, 2) then 0 else 0)"
  "receivedHypCounts threeplayer_sorted 0 2 = (\<lambda>s. 0)"
  by (auto simp: fun_eq_iff receivedHypCounts_def threeplayer_decisions Let_def allotted_def
      threeplayer_sorted_def)

lemma threeplayer_received_other: "receivedHypCounts threeplayer_sorted (Suc 0) a = (\<lambda>s. 0)"
  by (auto simp: fun_eq_iff receivedHypCounts_def Let_def threeplayer_sorted_def)

lemma threeplayer_total:
  "totalReceivedCounts threeplayer_sorted 0 0 = 2"
  "totalReceivedCounts threeplayer_sorted 0 (Suc 0) = 1"
  "totalReceivedCounts threeplayer_sorted 0 2 = 0"
  "totalReceivedCounts threeplayer_sorted (Suc 0) a = 0"
  by (simp_all add: totalReceivedCounts_def threeplayer_received threeplayer_received_other
      sum3_two in_shape_simp sum3_zero)

lemma threeplayer_expectation:
  "real n = 3 \<Longrightarrow>
   map_sum id expEntropy (expectation 2 n threeplayer_sorted (\<lambda>s. 0))
     = Inr (Fin ((2 * ln 2 + (ln 3 - 2 / 3 * ln 2)) / 3))"
  by (simp add: expectation_def Let_def sum_lt2 sum_lt3 threeplayer_total threeplayer_ent
      sumNoAnswer_total sum3_zero entNoAnswer_def plus_npfloat_def)

lemma threeplayer_prior:
  "snd (statsfromcounts ((\<lambda>s. 0)((2, 2, 2) := 2, (3, 2, 2) := 1))) = Fin (ln 3 - 2 / 3 * ln 2)"
proof -
  let ?T = "\<lambda>s::scenario. if s = (2, 2, 2) then 2 else if s = (3, 2, 2) then (1::real) else 0"
  have T: "((\<lambda>s::scenario. 0::real)((2, 2, 2) := 2, (3, 2, 2) := 1)) = ?T"
    by (auto simp: fun_eq_iff)
  have s: "sum3 ?T = 3" by (simp add: sum3_two in_shape_simp)
  have x: "sum3 (\<lambda>s. xlogratio (?T s) 3)
      = sum3 (\<lambda>s. if s = (2, 2, 2) then 2 * (ln 3 - ln 2) else if s = (3, 2, 2) then ln 3 else 0)"
    by (rule sum3_cong) (auto simp: xlogratio_def ln_div)
  have "snd (statsfromcounts ?T) = Fin (sum3 (\<lambda>s. xlogratio (?T s) (sum3 ?T)) / sum3 ?T)"
    by (rule statsfromcounts_entropy) (simp_all add: s)
  then show ?thesis
    unfolding T s x by (simp add: sum3_two in_shape_simp field_simps)
qed

text \<open>
  C4.  The expected entropy after a suggestion is to be at most the prior entropy of the
  pool, and \<open>test_expposteriors\<close> (test_core.py) asserts it: the entropy cannot go up
  because of a suggestion.  The method breaks the bound.  In a pool of three hypotheses
  of a three-player game, player 1 holds the suggested character and room in two
  hypotheses (scenarios (2,2,2) and (3,2,2)) and the room alone in the third (scenario
  (2,2,2)).  The entropy after the character is shown is taken over the two hypotheses
  (ln 2), that after the room over all three; the player is taken to show the character
  whenever possible, and the expected entropy (2 ln 2 + H) / 3, about 0.674, exceeds the
  prior entropy H = ln 3 - (2/3) ln 2, about 0.637, by far more than rounding can
  account for.
\<close>

theorem expEntropy_above_prior_counterexample:
  "map_sum id expEntropy (fst (suggestionexpposteriors threeplayer_pool 0 6 15))
     = Inr (Fin ((2 * ln 2 + (ln 3 - 2 / 3 * ln 2)) / 3)) \<and>
   snd (statsfromcounts (hypCountByScenario threeplayer_pool)) = Fin (ln 3 - 2 / 3 * ln 2) \<and>
   \<not> fle (Fin ((2 * ln 2 + (ln 3 - 2 / 3 * ln 2)) / 3)) (Fin (ln 3 - 2 / 3 * ln 2))"
proof (intro conjI)
  have "expposteriors 3 [threeplayer_hyp_a, threeplayer_hyp_b, threeplayer_hyp_c] 0 6 15
      = expectation 2 (length [threeplayer_hyp_a, threeplayer_hyp_b, threeplayer_hyp_c])
          threeplayer_sorted (\<lambda>s. 0)"
    unfolding expposteriors_def threeplayer_players threeplayer_sorting by simp
  then show "map_sum id expEntropy (fst (suggestionexpposteriors threeplayer_pool 0 6 15))
     = Inr (Fin ((2 * ln 2 + (ln 3 - 2 / 3 * ln 2)) / 3))"
    by (simp add: suggestionexpposteriors_def threeplayer_pool_def threeplayer_expectation)
  show "snd (statsfromcounts (hypCountByScenario threeplayer_pool)) = Fin (ln 3 - 2 / 3 * ln 2)"
    by (simp add: threeplayer_pool_def threeplayer_prior)
  show "\<not> fle (Fin ((2 * ln 2 + (ln 3 - 2 / 3 * ln 2)) / 3)) (Fin (ln 3 - 2 / 3 * ln 2))"
    using ln_facts by simp
qed

lemma twoplayer_counted_simps:
  "nPlayers twoplayer_counted = 2"
  "hypotheses twoplayer_counted = [twoplayer_hyp_a, twoplayer_hyp_b]"
  "hypCountByScenario twoplayer_counted = (\<lambda>s. 0)((2, 3, 2) := 1, (3, 3, 2) := 1)"
  by (simp_all add: twoplayer_counted_def twoplayer_pool_def)

subsection \<open>What the events leave unchanged\<close>

lemma nopool_fields:
  assumes "nopool s = nopool self"
  shows "logPasses s = logPasses self" "logSeenAnswers s = logSeenAnswers self"
    "logUnseenAnswers s = logUnseenAnswers self"
    "logIncorrectAccusations s = logIncorrectAccusations self"
    "logMoves s = logMoves self" "logSuggestions s = logSuggestions self"
    "nPlayers s = nPlayers self" "myCardSet s = myCardSet self" "myCards s = myCards self"
    "nCardsHeld s = nCardsHeld self" "forbidden s = forbidden self"
    "forbiddenSets s = forbiddenSets self" "playersOusted s = playersOusted self"
    "ixTurn s = ixTurn self" "myCardsShownTo s = myCardsShownTo self"
    "myCardsShownCounts s = myCardsShownCounts self"
    "HYPSAMPLECOUNT s = HYPSAMPLECOUNT self"
    "THRESHAPPROXHYPCOUNT s = THRESHAPPROXHYPCOUNT self"
    "ixDealer s = ixDealer self"
proof -
  have f: "\<And>g. g (nopool s) = g (nopool self)" using assms by simp
  show "logPasses s = logPasses self" using f [of logPasses] by (simp add: nopool_def)
  show "logSeenAnswers s = logSeenAnswers self" using f [of logSeenAnswers] by (simp add: nopool_def)
  show "logUnseenAnswers s = logUnseenAnswers self"
    using f [of logUnseenAnswers] by (simp add: nopool_def)
  show "logIncorrectAccusations s = logIncorrectAccusations self"
    using f [of logIncorrectAccusations] by (simp add: nopool_def)
  show "logMoves s = logMoves self" using f [of logMoves] by (simp add: nopool_def)
  show "logSuggestions s = logSuggestions self" using f [of logSuggestions] by (simp add: nopool_def)
  show "nPlayers s = nPlayers self" using f [of nPlayers] by (simp add: nopool_def)
  show "myCardSet s = myCardSet self" using f [of myCardSet] by (simp add: nopool_def)
  show "myCards s = myCards self" using f [of myCards] by (simp add: nopool_def)
  show "nCardsHeld s = nCardsHeld self" using f [of nCardsHeld] by (simp add: nopool_def)
  show "forbidden s = forbidden self" using f [of forbidden] by (simp add: nopool_def)
  show "forbiddenSets s = forbiddenSets self" using f [of forbiddenSets] by (simp add: nopool_def)
  show "playersOusted s = playersOusted self" using f [of playersOusted] by (simp add: nopool_def)
  show "ixTurn s = ixTurn self" using f [of ixTurn] by (simp add: nopool_def)
  show "myCardsShownTo s = myCardsShownTo self" using f [of myCardsShownTo] by (simp add: nopool_def)
  show "myCardsShownCounts s = myCardsShownCounts self"
    using f [of myCardsShownCounts] by (simp add: nopool_def)
  show "HYPSAMPLECOUNT s = HYPSAMPLECOUNT self" using f [of HYPSAMPLECOUNT] by (simp add: nopool_def)
  show "THRESHAPPROXHYPCOUNT s = THRESHAPPROXHYPCOUNT self"
    using f [of THRESHAPPROXHYPCOUNT] by (simp add: nopool_def)
  show "ixDealer s = ixDealer self" using f [of ixDealer] by (simp add: nopool_def)
qed

lemma nopool_removehypfromcounts:
  "removehypfromcounts h self = Inr s \<Longrightarrow> nopool s = nopool self"
  by (auto simp: removehypfromcounts_def nopool_def split: prod.splits if_splits)

lemma nopool_addhyptocounts:
  "addhyptocounts h self = Inr s \<Longrightarrow> nopool s = nopool self"
  by (auto simp: addhyptocounts_def nopool_def split: prod.splits if_splits)

lemma nopool_updatestats: "nopool (updatestats s) = nopool s"
  by (simp add: updatestats_def nopool_def split: prod.splits)

lemma nopool_hypotheses: "nopool (s \<lparr> hypotheses := hs \<rparr>) = nopool s"
  by (simp add: nopool_def)

lemma nopool_removeinvalidated:
  "removeinvalidated keep hs hypsNew self = Inr (hypsOut, s) \<Longrightarrow> nopool s = nopool self"
proof (induction hs arbitrary: hypsNew self)
  case Nil
  then show ?case by simp
next
  case (Cons h hs)
  then show ?case
    by (auto split: sum.splits bool.splits dest: nopool_removehypfromcounts)
qed

lemma nopool_counthyps: "counthyps hs self = Inr s \<Longrightarrow> nopool s = nopool self"
proof (induction hs arbitrary: self)
  case Nil
  then show ?case by simp
next
  case (Cons h hs)
  then show ?case by (auto split: sum.splits dest: nopool_addhyptocounts)
qed

lemma nopool_enumerate_deals: "enumerate_deals self = Inr s \<Longrightarrow> nopool s = nopool self"
proof -
  assume a: "enumerate_deals self = Inr s"
  then obtain hyps s0 where c: "counthyps hyps (zerocounts (self \<lparr> hypotheses := hyps \<rparr>)) = Inr s0"
    and s: "s = s0 \<lparr> areHypothesesEnumerable := True \<rparr>"
    by (auto simp: enumerate_deals_def split: sum.splits if_splits)
  have "nopool s0 = nopool (zerocounts (self \<lparr> hypotheses := hyps \<rparr>))"
    using c by (rule nopool_counthyps)
  then show ?thesis
    unfolding s by (simp add: nopool_def zerocounts_def)
qed

lemma nopool_generate: "generate n self rng = Some (Inr s) \<Longrightarrow> nopool s = nopool self"
proof (induction n arbitrary: self rng)
  case 0
  then show ?case by simp
next
  case (Suc n)
  from Suc.prems obtain h g rest s1 where
    a: "addhyptocounts h (self \<lparr> hypotheses := hypotheses self @ [h] \<rparr>) = Inr s1"
    and g: "generate n s1 rest = Some (Inr s)"
    by (auto split: option.splits sum.splits prod.splits)
  have "nopool s1 = nopool self"
    using nopool_addhyptocounts [OF a] by (simp add: nopool_hypotheses)
  with Suc.IH [OF g] show ?case by simp
qed

lemma nopool_rebuildhypotheses:
  "rebuildhypotheses self rng = Returns u s \<Longrightarrow> nopool s = nopool self"
  by (auto simp: rebuildhypotheses_def nopool_updatestats split: if_splits sum.splits option.splits
           dest: nopool_enumerate_deals nopool_generate)

lemma nopool_reducepool:
  "reducepool keep self rng = Returns u s \<Longrightarrow> nopool s = nopool self"
proof -
  assume a: "reducepool keep self rng = Returns u s"
  then obtain hypsNew s1 s2 where
    r: "removeinvalidated keep (hypotheses self) [] self = Inr (hypsNew, s1)"
    and b: "rebuildhypotheses (s1 \<lparr> hypotheses := hypsNew \<rparr>) rng = Returns () s2"
    and s: "s = updatestats s2"
    by (auto simp: reducepool_def split: sum.splits outcome.splits)
  have "nopool s2 = nopool s1"
    using nopool_rebuildhypotheses [OF b] by (simp add: nopool_hypotheses)
  with nopool_removeinvalidated [OF r] show ?thesis
    unfolding s by (simp add: nopool_updatestats)
qed

subsection \<open>C2: a wrong accusation\<close>

lemma lookups_raise:
  assumes "character' = None \<or> room' = None \<or> weapon' = None"
  shows "(case lookupopt CHARINDEX character' of
            Inl e \<Rightarrow> Raises e
          | Inr ixChar \<Rightarrow>
              (case lookupopt ROOMINDEX room' of
                 Inl e \<Rightarrow> Raises e
               | Inr ixRoom \<Rightarrow>
                   (case lookupopt WEAPINDEX weapon' of
                      Inl e \<Rightarrow> Raises e
                    | Inr ixWeap \<Rightarrow> f ixChar ixRoom ixWeap))) \<noteq> Returns u s"
  using assms by (auto simp: lookupopt_def split: sum.splits)

lemma event_accusationwrong_never_returns:
  "event_accusationwrong self character' room' weapon' player rng \<noteq> Returns u s"
proof (cases "character' = None \<or> room' = None \<or> weapon' = None")
  case False
  then obtain ch rm wp where "character' = Some ch" "room' = Some rm" "weapon' = Some wp"
    by auto
  then show ?thesis by (simp add: event_accusationwrong_def)
next
  case True
  show ?thesis
  proof (cases "logIncorrectAccusations self = []")
    case True
    then show ?thesis using \<open>character' = None \<or> room' = None \<or> weapon' = None\<close>
      by (simp add: event_accusationwrong_def)
  next
    case False
    show ?thesis
    proof (cases "oust player self")
      case (Inl e)
      with False True show ?thesis by (simp add: event_accusationwrong_def)
    next
      case (Inr s1)
      with False True lookups_raise [OF True] show ?thesis
        by (simp add: event_accusationwrong_def)
    qed
  qed
qed

text \<open>
  C2.  A call of \<open>event_accusationwrong\<close> with the accused triple and the accusing player
  is to remove the hypotheses of that triple and to oust the player.  The method does
  neither: with the three cards given it raises NameError, for every object, every triple
  and every player, before it has changed the object; and whatever its arguments it
  never returns (\<open>event_accusationwrong_never_returns\<close>).
\<close>

theorem event_accusationwrong_raises:
  "event_accusationwrong self (Some ch) (Some rm) (Some wp) player rng = Raises NameError"
  by (simp add: event_accusationwrong_def)

subsection \<open>C3: replaying the last event\<close>

text \<open>
  C3.  Calling an event method without arguments right after a call with arguments is to
  repeat the mutation of that call.  For \<open>event_unseenresponse\<close> it does not: the
  replay reads the log of passes, not the log of unseen answers.  After a call with
  arguments that returned, on an object that has logged no pass, the replay raises
  IndexError.
\<close>

theorem event_unseenresponse_replay:
  assumes "logPasses self = []"
    and "event_unseenresponse self (Some ch) (Some rm) (Some wp) (Some shower) viewer rng
         = Returns u s"
  shows "event_unseenresponse s None None None None None rng' = Raises IndexError"
proof -
  define event where "event = \<lparr> turn = ixTurn self, actor = shower, character = ch, room = rm,
      weapon = wp, consumer = (case viewer of None \<Rightarrow> 0 | Some p \<Rightarrow> p) \<rparr>"
  from assms(2) have "reducepool (\<lambda>h. holdsany h shower {ch, rm, wp})
      (self \<lparr> logUnseenAnswers := logUnseenAnswers self @ [event] \<rparr>) rng = Returns u s"
    by (simp add: event_unseenresponse_def applyunseen_def Let_def event_def)
  then have "nopool s = nopool (self \<lparr> logUnseenAnswers := logUnseenAnswers self @ [event] \<rparr>)"
    by (rule nopool_reducepool)
  then have "logPasses s = logPasses (self \<lparr> logUnseenAnswers := logUnseenAnswers self @ [event] \<rparr>)"
    by (rule nopool_fields(1))
  with assms(1) show ?thesis
    by (simp add: event_unseenresponse_def)
qed

lemma hypotheses_update_same: "hypotheses r = hs \<Longrightarrow> r \<lparr> hypotheses := hs \<rparr> = r"
  by auto

lemma exact_twoplayer_simps:
  "hypotheses exact_twoplayer = [twoplayer_hyp_a, twoplayer_hyp_b]"
  "areHypothesesEnumerable exact_twoplayer"
  "ixTurn exact_twoplayer = 0"
  "logUnseenAnswers exact_twoplayer = []"
  "logPasses exact_twoplayer = []"
  "logSeenAnswers exact_twoplayer = []"
  "nPlayers exact_twoplayer = 2"
  "myCardSet exact_twoplayer = {0, 1, 4, 8, 10, 11, 15, 18, 20}"
  "myCards exact_twoplayer = [0, 1, 4, 8, 10, 11, 15, 18, 20]"
  by (simp_all add: exact_twoplayer_def twoplayer_counted_def twoplayer_pool_def Detective_def)

theorem event_unseenresponse_replay_witness:
  "logPasses exact_twoplayer = []
   \<and> event_unseenresponse exact_twoplayer (Some 3) (Some 12) (Some 16) (Some 1) None []
       = Returns () after_unseen
   \<and> event_unseenresponse after_unseen None None None None None [] = Raises IndexError"
proof -
  have a: "logPasses exact_twoplayer = []"
    by (simp add: exact_twoplayer_simps)
  have keep: "holdsany twoplayer_hyp_a (Suc 0) {3, 12, 16} = Inr True"
    "holdsany twoplayer_hyp_b (Suc 0) {3, 12, 16} = Inr True"
    by (simp_all add: holdsany_def twoplayer_hyp_a_def twoplayer_hyp_b_def)
  have b: "event_unseenresponse exact_twoplayer (Some 3) (Some 12) (Some 16) (Some 1) None []
           = Returns () after_unseen"
    by (simp add: event_unseenresponse_def applyunseen_def reducepool_def Let_def
          exact_twoplayer_simps keep rebuildhypotheses_def after_unseen_def unseen_event_def
          hypotheses_update_same)
  from event_unseenresponse_replay [OF a b] a b show ?thesis by simp
qed

subsection \<open>C5: initialise and malformed arguments\<close>

lemma families_disjoint:
  "c \<in> ALLOWEDCHARS \<Longrightarrow> c \<notin> ALLOWEDROOMS" "c \<in> ALLOWEDCHARS \<Longrightarrow> c \<notin> ALLOWEDWEAPS"
  "c \<in> ALLOWEDROOMS \<Longrightarrow> c \<notin> ALLOWEDWEAPS"
  by (auto simp: ALLOWEDCHARS_def ALLOWEDROOMS_def ALLOWEDWEAPS_def CHARS_def ROOMS_def WEAPS_def
        NCARDS_def)

lemma elif_counts:
  "length (filter (\<lambda>c. c \<notin> ALLOWEDCHARS \<and> c \<in> ALLOWEDROOMS) hand)
   = length (filter (\<lambda>c. c \<in> ALLOWEDROOMS) hand)"
  "length (filter (\<lambda>c. c \<notin> ALLOWEDCHARS \<and> c \<notin> ALLOWEDROOMS \<and> c \<in> ALLOWEDWEAPS) hand)
   = length (filter (\<lambda>c. c \<in> ALLOWEDWEAPS) hand)"
proof -
  have "(\<lambda>c. c \<notin> ALLOWEDCHARS \<and> c \<in> ALLOWEDROOMS) = (\<lambda>c. c \<in> ALLOWEDROOMS)"
    using families_disjoint by auto
  then show "length (filter (\<lambda>c. c \<notin> ALLOWEDCHARS \<and> c \<in> ALLOWEDROOMS) hand)
   = length (filter (\<lambda>c. c \<in> ALLOWEDROOMS) hand)" by simp
  have "(\<lambda>c. c \<notin> ALLOWEDCHARS \<and> c \<notin> ALLOWEDROOMS \<and> c \<in> ALLOWEDWEAPS) = (\<lambda>c. c \<in> ALLOWEDWEAPS)"
    using families_disjoint by auto
  then show "length (filter (\<lambda>c. c \<notin> ALLOWEDCHARS \<and> c \<notin> ALLOWEDROOMS \<and> c \<in> ALLOWEDWEAPS) hand)
   = length (filter (\<lambda>c. c \<in> ALLOWEDWEAPS) hand)" by simp
qed

lemma dom_CHARINDEX: "dom CHARINDEX = ALLOWEDCHARS"
proof -
  have "map fst (zip CHARS [0 ..< NCHARS]) = CHARS"
    by (simp add: CHARS_def)
  then have "fst ` set (zip CHARS [0 ..< NCHARS]) = set CHARS"
    by (metis set_map)
  then show ?thesis
    by (simp add: CHARINDEX_def ALLOWEDCHARS_def dom_map_of_conv_image_fst)
qed

lemma collect_lookup_chars:
  "set cs \<subseteq> ALLOWEDCHARS \<Longrightarrow> \<exists>ixs. collect (lookup CHARINDEX) cs = Inr ixs \<and> length ixs = length cs"
proof (induction cs)
  case Nil
  show ?case by simp
next
  case (Cons c cs)
  then obtain ixs where ixs: "collect (lookup CHARINDEX) cs = Inr ixs" "length ixs = length cs"
    by auto
  from Cons.prems have "c \<in> ALLOWEDCHARS" by simp
  then have "c \<in> dom CHARINDEX"
    by (simp add: dom_CHARINDEX)
  then obtain i where "CHARINDEX c = Some i" by auto
  then have "lookup CHARINDEX c = Inr i" by (simp add: lookup_def)
  with ixs show ?case by simp
qed

lemma readplayers_rejects:
  assumes "readplayers self chars dealer = Inl (e, s)"
  shows "nosetup s = nosetup self"
  using assms
  by (auto simp: readplayers_def nosetup_def Let_def split: option.splits sum.splits if_splits)

lemma readplayers_dealerbad:
  assumes "dealerbad dealer chars (nPlayers self)"
  shows "\<exists>e s. readplayers self chars dealer = Inl (e, s) \<and> (e = TypeError \<or> e = ValueError)"
proof -
  from assms obtain d cs where d: "dealer = Some d" "chars = Some cs"
    and cs: "set cs \<subseteq> ALLOWEDCHARS" and bad: "d < 0 \<or> d \<ge> nPlayers self"
    by (auto simp: dealerbad_def split: option.splits)
  from collect_lookup_chars [OF cs] obtain ixs where "collect (lookup CHARINDEX) cs = Inr ixs"
    by auto
  with d bad show ?thesis
    by (auto simp: readplayers_def Let_def)
qed

lemma readplayers_error:
  assumes "readplayers self chars dealer = Inl (e, s)" "dealerbad dealer chars n"
  shows "e = TypeError \<or> e = ValueError"
proof -
  from assms(2) obtain d cs where d: "dealer = Some d" "chars = Some cs"
    and cs: "set cs \<subseteq> ALLOWEDCHARS"
    by (auto simp: dealerbad_def split: option.splits)
  from collect_lookup_chars [OF cs] obtain ixs where "collect (lookup CHARINDEX) cs = Inr ixs"
    by auto
  with d assms(1) show ?thesis
    by (auto simp: readplayers_def Let_def split: if_splits)
qed

lemma readscenario_rejects:
  assumes "readscenario self hs chars dealer = Inl (e, s)"
  shows "nosetup s = nosetup self"
proof -
  have n: "\<And>s0. nosetup (s0 \<lparr> nCardsHeld := a, myCards := b, myCardSet := c \<rparr>) = nosetup s0"
    for a b c by (simp add: nosetup_def)
  from assms show ?thesis
    unfolding readscenario_def Let_def
    by (auto simp: nosetup_def n split: sum.splits if_splits dest!: readplayers_rejects)
qed

lemma readscenario_malformed:
  assumes "\<Union> (set (map set hs)) \<noteq> ALLOWEDCARDS \<or> \<not> onepercard (last hs)
           \<or> int (length hs) - 1 < 2 \<or> int (length hs) - 1 > 6
           \<or> dealerbad dealer chars (int (length hs) - 1)"
  shows "\<exists>e s. readscenario self hs chars dealer = Inl (e, s) \<and> (e = TypeError \<or> e = ValueError)"
proof (cases "collect (collect cardname) hs")
  case (Inl e)
  then show ?thesis by (simp add: readscenario_def Let_def)
next
  case (Inr names)
  show ?thesis
  proof (cases "\<Union> (set (map set hs)) \<noteq> ALLOWEDCARDS \<or> \<not> onepercard (last hs)
           \<or> int (length hs) - 1 < 2 \<or> int (length hs) - 1 > 6")
    case True
    with Inr show ?thesis
      unfolding readscenario_def Let_def onepercard_def elif_counts
      by (simp split: if_splits) 
  next
    case False
    with assms have bad: "dealerbad dealer chars (int (length hs) - 1)" by blast
    define s3 where "s3 = self \<lparr> DBGSCENARIO := Some (map set hs),
        DBGSCENARIOREMINDER := ReminderText (map set names),
        nPlayers := int (length hs) - 1,
        nCardsHeld := map (\<lambda>hand. int (length hand)) (butlast hs),
        myCards := hd hs, myCardSet := set (hd hs) \<rparr>"
    have np: "nPlayers s3 = int (length hs) - 1" by (simp add: s3_def)
    from False Inr have "readscenario self hs chars dealer = readplayers s3 chars dealer"
      unfolding readscenario_def Let_def onepercard_def elif_counts s3_def
      by simp
    with readplayers_dealerbad [of dealer chars s3] bad np show ?thesis by simp
  qed
qed

lemma readarguments_rejects:
  assumes "readarguments self n cs dealer counts cards = Inl (e, s)"
  shows "nosetup s = nosetup self"
proof -
  from assms show ?thesis
    unfolding readarguments_def Let_def
    by (auto simp: nosetup_def split: option.splits if_splits dest!: readplayers_rejects)
qed

lemma readarguments_malformed:
  assumes "n < 2 \<or> n > 6 \<or> handsizesbad n counts cards \<or> dealerbad dealer (Some cs) n"
  shows "\<exists>e s. readarguments self n cs dealer counts cards = Inl (e, s)
               \<and> (e = TypeError \<or> e = ValueError)"
proof (cases "n < 2 \<or> n > 6")
  case True
  then show ?thesis by (auto simp: readarguments_def Let_def)
next
  case range: False
  show ?thesis
  proof (cases counts)
    case None
    with range show ?thesis by (auto simp: readarguments_def Let_def)
  next
    case (Some sizes)
    show ?thesis
    proof (cases "int (length sizes) \<noteq> n \<or> list_ex (\<lambda>entry. entry \<le> 0) sizes")
      case True
      with range Some show ?thesis by (auto simp: readarguments_def Let_def)
    next
      case sizes: False
      show ?thesis
      proof (cases cards)
        case None
        with range Some sizes show ?thesis by (auto simp: readarguments_def Let_def)
      next
        case cards: (Some mine)
        show ?thesis
        proof (cases "int (Finite_Set.card (set mine)) \<noteq> hd sizes \<or> \<not> set mine \<subseteq> ALLOWEDCARDS")
          case True
          with range Some sizes cards show ?thesis by (auto simp: readarguments_def Let_def)
        next
          case False
          with range Some sizes cards assms have bad: "dealerbad dealer (Some cs) n"
            by (auto simp: handsizesbad_def)
          define s3 where "s3 = self \<lparr> DBGSCENARIO := None,
              DBGSCENARIOREMINDER := ReminderFlag False, nPlayers := n, nCardsHeld := sizes,
              myCards := mine, myCardSet := set mine \<rparr>"
          have np: "nPlayers s3 = n" by (simp add: s3_def)
          from range Some sizes cards False
          have "readarguments self n cs dealer counts cards = readplayers s3 (Some cs) dealer"
            unfolding readarguments_def Let_def s3_def by simp
          with readplayers_dealerbad [of dealer "Some cs" s3] bad np show ?thesis by simp
        qed
      qed
    qed
  qed
qed

text \<open>
  C5.  A call of \<open>initialise\<close> with malformed arguments raises TypeError or ValueError
  before the game is set up: no log, pool, count or forbidden location is touched.  What
  the call may have changed are the fields of the setup that it read before the
  malformation was found.
\<close>

theorem initialise_rejects:
  assumes "malformed n chars dealer counts cards scenario"
  shows "\<exists>e s. initialise self n chars dealer counts cards scenario collected rng = Rejected e s
               \<and> (e = TypeError \<or> e = ValueError) \<and> nosetup s = nosetup self"
proof (cases scenario)
  case (Some hs)
  with assms readscenario_malformed [of hs dealer chars self] obtain e s
    where r: "readscenario self hs chars dealer = Inl (e, s)" and e: "e = TypeError \<or> e = ValueError"
    unfolding malformed_def by auto
  from readscenario_rejects [OF r] r e Some show ?thesis
    by (simp add: initialise_def)
next
  case None
  with assms obtain k cs where k: "n = Some k" "chars = Some cs"
    and bad: "k < 2 \<or> k > 6 \<or> handsizesbad k counts cards \<or> dealerbad dealer (Some cs) k"
    unfolding malformed_def by (auto split: option.splits)
  from readarguments_malformed [OF bad, of self] obtain e s
    where r: "readarguments self k cs dealer counts cards = Inl (e, s)"
      and e: "e = TypeError \<or> e = ValueError"
    by auto
  from readarguments_rejects [OF r] r e None k show ?thesis
    by (simp add: initialise_def)
qed

text \<open>
  A call for seven players on a new object raises ValueError and leaves the object with
  seven players and the reminder of the scenario switched off.
\<close>

theorem initialise_partial_counterexample:
  "initialise Detective (Some 7) (Some [0, 1, 2, 3, 4, 5, 0]) (Some 0)
     (Some [3, 3, 3, 3, 2, 2, 2]) (Some [1, 7, 16]) None no_setup []
   = Rejected ValueError
       (Detective \<lparr> DBGSCENARIO := None, DBGSCENARIOREMINDER := ReminderFlag False,
                    nPlayers := 7 \<rparr>)
   \<and> nPlayers (Detective \<lparr> DBGSCENARIO := None, DBGSCENARIOREMINDER := ReminderFlag False,
                            nPlayers := 7 \<rparr>) = 7
   \<and> nPlayers Detective = 0"
  by (simp add: initialise_def readarguments_def Let_def Detective_def)

theorem initialise_rejects_witness:
  "malformed (Some 7) (Some [0, 1, 2, 3, 4, 5, 0]) (Some 0) (Some [3, 3, 3, 3, 2, 2, 2])
     (Some [1, 7, 16]) None
   \<and> (\<exists>e s. initialise Detective (Some 7) (Some [0, 1, 2, 3, 4, 5, 0]) (Some 0)
               (Some [3, 3, 3, 3, 2, 2, 2]) (Some [1, 7, 16]) None no_setup [] = Rejected e s
             \<and> (e = TypeError \<or> e = ValueError) \<and> nosetup s = nosetup Detective)"
proof -
  have m: "malformed (Some 7) (Some [0, 1, 2, 3, 4, 5, 0]) (Some 0) (Some [3, 3, 3, 3, 2, 2, 2])
     (Some [1, 7, 16]) None"
    by (simp add: malformed_def)
  from initialise_rejects [OF m] m show ?thesis by blast
qed

subsection \<open>C10: answering a suggestion\<close>

subsection \<open>The estimate of the number of deals reads four fields\<close>

lemma isforbidden_cong:
  "forbidden s = forbidden t \<Longrightarrow> isforbidden s = isforbidden t"
  by (intro ext) (simp add: isforbidden_def cong: option.case_cong)

lemma firstallowed_cong:
  "forbidden s = forbidden t \<Longrightarrow> firstallowed s c ixs = firstallowed t c ixs"
  by (induction ixs) (simp_all add: isforbidden_cong [of s t] cong: sum.case_cong bool.case_cong)

lemma forbiddenincolumn_cong:
  "forbidden s = forbidden t \<Longrightarrow> forbiddenincolumn s = forbiddenincolumn t"
  by (intro ext) (simp add: forbiddenincolumn_def isforbidden_cong [of s t])

lemma forbiddeninrow_cong:
  "forbidden s = forbidden t \<Longrightarrow> forbiddeninrow s = forbiddeninrow t"
  by (intro ext) (simp add: forbiddeninrow_def)

lemma murderforbidden_cong:
  "forbidden s = forbidden t \<Longrightarrow> nPlayers s = nPlayers t \<Longrightarrow> murderforbidden s = murderforbidden t"
  by (intro ext) (simp add: murderforbidden_def isforbidden_cong [of s t] cong: option.case_cong)

lemma knowncards_cong:
  assumes "forbidden s = forbidden t" "nPlayers s = nPlayers t"
  shows "knowncards s cs acc = knowncards t cs acc"
proof (induction cs arbitrary: acc)
  case Nil
  show ?case by simp
next
  case (Cons c cs)
  obtain dealSpaces cardsLeft where acc: "acc = (dealSpaces, cardsLeft)" by (cases acc)
  show ?case
    unfolding acc
    by (simp add: forbiddenincolumn_cong [OF assms(1)] firstallowed_cong [OF assms(1)] assms(2) Cons
          cong: sum.case_cong option.case_cong if_cong)
qed

lemma dealfactors_cong:
  assumes "forbidden s = forbidden t"
  shows "dealfactors s ixs dealSpaces acc = dealfactors t ixs dealSpaces acc"
proof (induction ixs arbitrary: acc)
  case Nil
  show ?case by simp
next
  case (Cons ix ixs)
  obtain n cardsLeft where acc: "acc = (n, cardsLeft)" by (cases acc)
  show ?case
    unfolding acc by (simp add: forbiddeninrow_cong [OF assms] Cons cong: sum.case_cong if_cong)
qed

lemma nHypsApprox_cong:
  assumes "forbidden s = forbidden t" "nPlayers s = nPlayers t" "nCardsHeld s = nCardsHeld t"
    "ixDealer s = ixDealer t"
  shows "nHypsApprox s = nHypsApprox t"
  unfolding nHypsApprox_def dealorder_def knowncards_cong [OF assms(1,2)]
    murderforbidden_cong [OF assms(1,2)] dealfactors_cong [OF assms(1)] assms(2-4)
  by (rule refl)

lemma rebuilt_returns:
  assumes "rebuilt self" "forbidden s = forbidden self" "nPlayers s = nPlayers self"
    "nCardsHeld s = nCardsHeld self" "ixDealer s = ixDealer self"
    "areHypothesesEnumerable s = areHypothesesEnumerable self"
    "THRESHAPPROXHYPCOUNT s = THRESHAPPROXHYPCOUNT self"
    "HYPSAMPLECOUNT s = HYPSAMPLECOUNT self"
    "length (hypotheses s) = length (hypotheses self)"
  shows "\<exists>s'. rebuildhypotheses s rng = Returns () s' \<and> nopool s' = nopool s"
proof (cases "areHypothesesEnumerable self")
  case True
  with assms(6) show ?thesis by (simp add: rebuildhypotheses_def)
next
  case False
  with assms(1) obtain n where n: "nHypsApprox self = Inr n" "THRESHAPPROXHYPCOUNT self \<le> n"
    "length (hypotheses self) = HYPSAMPLECOUNT self"
    by (auto simp: rebuilt_def split: sum.splits)
  have "nHypsApprox s = Inr n"
    using nHypsApprox_cong [OF assms(2-5)] n(1) by simp
  with False n assms(6-9) show ?thesis
    by (simp add: rebuildhypotheses_def nopool_updatestats)
qed

subsection \<open>Cards and families\<close>

lemma NCARDS_eq: "NCARDS = 21"
  by (simp add: NCARDS_def NCHARS_eq NROOMS_eq NWEAPS_eq)

lemma ALLOWEDCHARS_iff: "c \<in> ALLOWEDCHARS \<longleftrightarrow> 0 \<le> c \<and> c < 6"
  apply (simp add: ALLOWEDCHARS_def CHARS_def NCHARS_eq upt_conv_Cons)
  apply presburger
  done

lemma ALLOWEDROOMS_iff: "c \<in> ALLOWEDROOMS \<longleftrightarrow> 6 \<le> c \<and> c < 15"
  apply (simp add: ALLOWEDROOMS_def ROOMS_def NCHARS_eq NROOMS_eq upt_conv_Cons)
  apply presburger
  done

lemma ALLOWEDWEAPS_iff: "c \<in> ALLOWEDWEAPS \<longleftrightarrow> 15 \<le> c \<and> c < 21"
  apply (simp add: ALLOWEDWEAPS_def WEAPS_def NCHARS_eq NROOMS_eq NCARDS_eq upt_conv_Cons)
  apply presburger
  done

lemma ALLOWEDCARDS_iff: "c \<in> ALLOWEDCARDS \<longleftrightarrow> 0 \<le> c \<and> c < 21"
  by (auto simp: ALLOWEDCARDS_def ALLOWEDCHARS_iff ALLOWEDROOMS_iff ALLOWEDWEAPS_iff)

lemma cardfamily_simps:
  "c \<in> ALLOWEDCHARS \<Longrightarrow> cardfamily c = ALLOWEDCHARS"
  "c \<in> ALLOWEDROOMS \<Longrightarrow> cardfamily c = ALLOWEDROOMS"
  "c \<in> ALLOWEDWEAPS \<Longrightarrow> cardfamily c = ALLOWEDWEAPS"
  by (auto simp: cardfamily_def ALLOWEDCHARS_iff ALLOWEDROOMS_iff ALLOWEDWEAPS_iff)

lemma finite_families: "finite ALLOWEDCHARS" "finite ALLOWEDROOMS" "finite ALLOWEDWEAPS"
  by (simp_all add: ALLOWEDCHARS_def ALLOWEDROOMS_def ALLOWEDWEAPS_def)

lemma npindex_card: "c \<in> ALLOWEDCARDS \<Longrightarrow> npindex NCARDS c = Some (nat c)"
  by (simp add: npindex_def ALLOWEDCARDS_iff NCARDS_eq)

lemma list_all_cards:
  "list_all P (sorted_list_of_set ALLOWEDCARDS) \<longleftrightarrow> (\<forall>c\<in>ALLOWEDCARDS. P c)"
  by (simp add: list_all_iff finite_ALLOWEDCARDS)

subsection \<open>An event of the detective's own hand leaves the forbidden matrix as it is\<close>

lemma forbid_known:
  assumes "ix < length (forbidden t)" "length (forbidden t ! ix) = NCARDS"
    "c \<in> ALLOWEDCARDS" "forbidden t ! ix ! nat c" "ix < length (forbiddenSets t)"
  shows "forbid ix c t = Inr (t \<lparr> forbiddenSets := (forbiddenSets t)[ix := insert c (forbiddenSets t ! ix)] \<rparr>)"
proof -
  have "(forbidden t)[ix := (forbidden t ! ix)[nat c := True]] = forbidden t"
    using assms(4) by (metis list_update_id)
  then have "setforbidden ix c True t = Inr t"
    using assms(1-3) by (simp add: setforbidden_def npindex_card)
  with assms(5) show ?thesis by (simp add: forbid_def)
qed

lemma unforbid_known:
  assumes "ix < length (forbidden t)" "length (forbidden t ! ix) = NCARDS"
    "c \<in> ALLOWEDCARDS" "\<not> forbidden t ! ix ! nat c"
  shows "setforbidden ix c False t = Inr t"
proof -
  have "(forbidden t)[ix := (forbidden t ! ix)[nat c := False]] = forbidden t"
    using assms(4) by (metis list_update_id)
  then show ?thesis
    using assms(1-3) by (simp add: setforbidden_def npindex_card)
qed

lemma seenforbid_own:
  assumes rows: "length (forbidden self) = nat (nPlayers self + 1)"
    "list_all (\<lambda>row. length row = NCARDS) (forbidden self)"
    and c: "c \<in> ALLOWEDCARDS" "\<not> forbidden self ! 0 ! nat c"
    and others: "\<forall>ix. 1 \<le> ix \<and> ix < nat (nPlayers self + 1) \<longrightarrow> forbidden self ! ix ! nat c"
    and ixs: "set ixs \<subseteq> {..< nat (nPlayers self + 1)}"
    and len: "length F = nat (nPlayers self + 1)"
  shows "\<exists>F'. seenforbid 0 c ixs (self \<lparr> forbiddenSets := F \<rparr>) = Inr (self \<lparr> forbiddenSets := F' \<rparr>)
              \<and> length F' = nat (nPlayers self + 1)"
  using ixs len
proof (induction ixs arbitrary: F)
  case Nil
  have "seenforbid 0 c [] (self \<lparr> forbiddenSets := F \<rparr>) = Inr (self \<lparr> forbiddenSets := F \<rparr>)"
    by simp
  with Nil.prems(2) show ?case by blast
next
  case (Cons ix ixs)
  let ?t = "self \<lparr> forbiddenSets := F \<rparr>"
  from Cons.prems have ix: "ix < nat (nPlayers self + 1)" and rest: "set ixs \<subseteq> {..< nat (nPlayers self + 1)}"
    by auto
  have row: "length (forbidden self ! ix) = NCARDS"
    using rows ix by (simp add: list_all_length)
  have t: "forbidden ?t = forbidden self" "forbiddenSets ?t = F"
    by simp_all
  show ?case
  proof (cases "ix = 0")
    case True
    let ?G = "F[0 := F ! 0 - {c}]"
    have "setforbidden 0 c False ?t = Inr ?t"
    proof (rule unforbid_known)
      show "0 < length (forbidden ?t)" unfolding t using rows(1) ix by simp
      show "length (forbidden ?t ! 0) = NCARDS" unfolding t using row True by simp
      show "c \<in> ALLOWEDCARDS" by (rule c(1))
      show "\<not> forbidden ?t ! 0 ! nat c" unfolding t by (rule c(2))
    qed
    then have u: "setforbidden 0 c False ?t = Inr ?t" .
    have zero: "0 < length (forbiddenSets ?t)" unfolding t using Cons.prems(2) ix by simp
    have upd: "?t \<lparr> forbiddenSets := (forbiddenSets ?t)[0 := forbiddenSets ?t ! 0 - {c}] \<rparr>
               = self \<lparr> forbiddenSets := ?G \<rparr>"
      by simp
    have len': "length ?G = nat (nPlayers self + 1)" using Cons.prems(2) by simp
    from Cons.IH [OF rest len'] obtain F' where
      F': "seenforbid 0 c ixs (self \<lparr> forbiddenSets := ?G \<rparr>) = Inr (self \<lparr> forbiddenSets := F' \<rparr>)"
      "length F' = nat (nPlayers self + 1)"
      by blast
    have "seenforbid 0 c (0 # ixs) ?t = Inr (self \<lparr> forbiddenSets := F' \<rparr>)"
      by (simp only: seenforbid.simps u sum.case zero if_True upd F' simp_thms if_False)
    then have "seenforbid 0 c (ix # ixs) ?t = Inr (self \<lparr> forbiddenSets := F' \<rparr>)"
      using True by simp
    with F'(2) show ?thesis by blast
  next
    case False
    let ?G = "F[ix := insert c (F ! ix)]"
    have "forbid ix c ?t = Inr (?t \<lparr> forbiddenSets := (forbiddenSets ?t)[ix := insert c (forbiddenSets ?t ! ix)] \<rparr>)"
    proof (rule forbid_known)
      show "ix < length (forbidden ?t)" unfolding t using rows(1) ix by simp
      show "length (forbidden ?t ! ix) = NCARDS" unfolding t by (rule row)
      show "c \<in> ALLOWEDCARDS" by (rule c(1))
      show "forbidden ?t ! ix ! nat c" unfolding t using others ix False by simp
      show "ix < length (forbiddenSets ?t)" unfolding t using Cons.prems(2) ix by simp
    qed
    then have f: "forbid ix c ?t = Inr (self \<lparr> forbiddenSets := ?G \<rparr>)"
      by simp
    have len': "length ?G = nat (nPlayers self + 1)" using Cons.prems(2) by simp
    from Cons.IH [OF rest len'] obtain F' where
      F': "seenforbid 0 c ixs (self \<lparr> forbiddenSets := ?G \<rparr>) = Inr (self \<lparr> forbiddenSets := F' \<rparr>)"
      "length F' = nat (nPlayers self + 1)"
      by blast
    have "seenforbid 0 c (ix # ixs) ?t = Inr (self \<lparr> forbiddenSets := F' \<rparr>)"
      using False by (simp only: seenforbid.simps f sum.case F' if_True simp_thms)
    with F'(2) show ?thesis by blast
  qed
qed

lemma forbidall_known:
  assumes row: "ix < length (forbidden self)" "length (forbidden self ! ix) = NCARDS"
    and cs: "\<forall>d\<in>set ds. d \<in> ALLOWEDCARDS \<and> forbidden self ! ix ! nat d"
    and len: "ix < length F"
  shows "\<exists>F'. forbidall ix ds (self \<lparr> forbiddenSets := F \<rparr>) = Inr (self \<lparr> forbiddenSets := F' \<rparr>)
              \<and> length F' = length F"
  using cs len
proof (induction ds arbitrary: F)
  case Nil
  have "forbidall ix [] (self \<lparr> forbiddenSets := F \<rparr>) = Inr (self \<lparr> forbiddenSets := F \<rparr>)"
    by simp
  then show ?case by blast
next
  case (Cons d ds)
  let ?t = "self \<lparr> forbiddenSets := F \<rparr>"
  let ?G = "F[ix := insert d (F ! ix)]"
  from Cons.prems(1) have d: "d \<in> ALLOWEDCARDS" "forbidden self ! ix ! nat d"
    and ds: "\<forall>d\<in>set ds. d \<in> ALLOWEDCARDS \<and> forbidden self ! ix ! nat d"
    by simp_all
  have t: "forbidden ?t = forbidden self" "forbiddenSets ?t = F"
    by simp_all
  have "forbid ix d ?t = Inr (?t \<lparr> forbiddenSets := (forbiddenSets ?t)[ix := insert d (forbiddenSets ?t ! ix)] \<rparr>)"
  proof (rule forbid_known)
    show "ix < length (forbidden ?t)" unfolding t by (rule row(1))
    show "length (forbidden ?t ! ix) = NCARDS" unfolding t by (rule row(2))
    show "d \<in> ALLOWEDCARDS" by (rule d(1))
    show "forbidden ?t ! ix ! nat d" unfolding t by (rule d(2))
    show "ix < length (forbiddenSets ?t)" unfolding t by (rule Cons.prems(2))
  qed
  then have f: "forbid ix d ?t = Inr (self \<lparr> forbiddenSets := ?G \<rparr>)"
    by simp
  have len': "ix < length ?G" using Cons.prems(2) by simp
  from Cons.IH [OF ds len'] obtain F' where
    F': "forbidall ix ds (self \<lparr> forbiddenSets := ?G \<rparr>) = Inr (self \<lparr> forbiddenSets := F' \<rparr>)"
    "length F' = length ?G"
    by blast
  have "forbidall ix (d # ds) ?t = Inr (self \<lparr> forbiddenSets := F' \<rparr>)"
    by (simp only: forbidall.simps f sum.case F')
  moreover have "length F' = length F" using F'(2) by simp
  ultimately show ?case by blast
qed

lemma removeinvalidated_keep_all:
  assumes "\<forall>h\<in>set hs. keep h = Inr True"
  shows "removeinvalidated keep hs hypsNew s = Inr (hypsNew @ hs, s)"
  using assms by (induction hs arbitrary: hypsNew) simp_all

lemma rebuilt_cong:
  assumes "forbidden t = forbidden self" "nPlayers t = nPlayers self"
    "nCardsHeld t = nCardsHeld self" "ixDealer t = ixDealer self"
    "areHypothesesEnumerable t = areHypothesesEnumerable self"
    "THRESHAPPROXHYPCOUNT t = THRESHAPPROXHYPCOUNT self"
    "HYPSAMPLECOUNT t = HYPSAMPLECOUNT self" "hypotheses t = hypotheses self"
  shows "rebuilt t = rebuilt self"
  unfolding rebuilt_def nHypsApprox_cong [OF assms(1-4)] assms(5-8) by (rule refl)

lemma reducepool_keep_all:
  assumes "rebuilt t" "\<forall>h\<in>set (hypotheses t). keep h = Inr True"
  shows "\<exists>s'. reducepool keep t rng = Returns () s' \<and> nopool s' = nopool t"
proof -
  have r: "removeinvalidated keep (hypotheses t) [] t = Inr (hypotheses t, t)"
    using removeinvalidated_keep_all [OF assms(2), of "[]" t] by simp
  have same: "t \<lparr> hypotheses := hypotheses t \<rparr> = t" by simp
  from rebuilt_returns [OF assms(1), of t rng] obtain s2 where
    s2: "rebuildhypotheses t rng = Returns () s2" "nopool s2 = nopool t"
    by auto
  have "reducepool keep t rng = Returns () (updatestats s2)"
    unfolding reducepool_def r by (simp add: same s2(1))
  moreover have "nopool (updatestats s2) = nopool t"
    using s2(2) by (simp add: nopool_updatestats)
  ultimately show ?thesis by blast
qed

lemma ownhandD:
  assumes "ownhand t"
  shows "set (myCards t) = myCardSet t" "myCardSet t \<subseteq> ALLOWEDCARDS"
    "\<And>c. c \<in> ALLOWEDCARDS \<Longrightarrow> forbidden t ! 0 ! nat c = (c \<notin> myCardSet t)"
    "\<And>ix c. 1 \<le> ix \<Longrightarrow> ix < nat (nPlayers t + 1) \<Longrightarrow> c \<in> myCardSet t \<Longrightarrow> forbidden t ! ix ! nat c"
    "\<And>h. h \<in> set (hypotheses t) \<Longrightarrow> hands h \<noteq> [] \<and> hd (hands h) = myCardSet t \<and> in_shape (envelope h)"
proof -
  show "set (myCards t) = myCardSet t" "myCardSet t \<subseteq> ALLOWEDCARDS"
    using assms by (simp_all add: ownhand_def)
  show "forbidden t ! 0 ! nat c = (c \<notin> myCardSet t)" if "c \<in> ALLOWEDCARDS" for c
    using assms that by (simp add: ownhand_def list_all_cards)
  show "forbidden t ! ix ! nat c"
    if "1 \<le> ix" "ix < nat (nPlayers t + 1)" "c \<in> myCardSet t" for ix c
  proof -
    from assms have "\<forall>ix\<in>set [1 ..< nat (nPlayers t + 1)]. \<forall>c\<in>ALLOWEDCARDS.
        c \<in> myCardSet t \<longrightarrow> forbidden t ! ix ! nat c"
      by (simp add: ownhand_def list_all_iff finite_ALLOWEDCARDS)
    moreover have "ix \<in> set [1 ..< nat (nPlayers t + 1)]" using that by simp
    moreover have "c \<in> ALLOWEDCARDS" using that(3) \<open>myCardSet t \<subseteq> ALLOWEDCARDS\<close> by blast
    ultimately show ?thesis using that(3) by blast
  qed
  show "hands h \<noteq> [] \<and> hd (hands h) = myCardSet t \<and> in_shape (envelope h)"
    if "h \<in> set (hypotheses t)" for h
    using assms that by (simp add: ownhand_def list_all_iff)
qed

lemma shapesD:
  assumes "shapes t"
  shows "2 \<le> nPlayers t" "length (forbidden t) = nat (nPlayers t + 1)"
    "list_all (\<lambda>row. length row = NCARDS) (forbidden t)"
    "length (forbiddenSets t) = nat (nPlayers t + 1)"
    "length (myCardsShownTo t) = nat (nPlayers t - 1)"
    "list_all (\<lambda>row. length row = length (myCards t)) (myCardsShownTo t)"
    "length (myCardsShownCounts t) = length (myCards t)"
  using assms by (simp_all add: shapes_def)

lemma applyseen_own:
  assumes sh: "shapes t" and own: "ownhand t" and rb: "rebuilt t" and c: "c \<in> myCardSet t"
  shows "\<exists>s'. applyseen t 0 c rng = Returns () s'
              \<and> logSeenAnswers s' = logSeenAnswers t \<and> logPasses s' = logPasses t"
proof -
  have cA: "c \<in> ALLOWEDCARDS" using c ownhandD(2) [OF own] by blast
  have same: "t \<lparr> forbiddenSets := forbiddenSets t \<rparr> = t" by simp
  have "\<exists>F'. seenforbid 0 c [0 ..< nat (nPlayers t + 1)] (t \<lparr> forbiddenSets := forbiddenSets t \<rparr>)
               = Inr (t \<lparr> forbiddenSets := F' \<rparr>) \<and> length F' = nat (nPlayers t + 1)"
  proof (rule seenforbid_own)
    show "length (forbidden t) = nat (nPlayers t + 1)" by (rule shapesD(2) [OF sh])
    show "list_all (\<lambda>row. length row = NCARDS) (forbidden t)" by (rule shapesD(3) [OF sh])
    show "c \<in> ALLOWEDCARDS" by (rule cA)
    show "\<not> forbidden t ! 0 ! nat c" using ownhandD(3) [OF own cA] c by simp
    show "\<forall>ix. 1 \<le> ix \<and> ix < nat (nPlayers t + 1) \<longrightarrow> forbidden t ! ix ! nat c"
      using ownhandD(4) [OF own _ _ c] by blast
    show "set [0 ..< nat (nPlayers t + 1)] \<subseteq> {..< nat (nPlayers t + 1)}" by auto
    show "length (forbiddenSets t) = nat (nPlayers t + 1)" by (rule shapesD(4) [OF sh])
  qed
  then obtain F' where F': "seenforbid 0 c [0 ..< nat (nPlayers t + 1)] t = Inr (t \<lparr> forbiddenSets := F' \<rparr>)"
    unfolding same by blast
  let ?t1 = "t \<lparr> forbiddenSets := F' \<rparr>"
  have rb1: "rebuilt ?t1"
    using rb rebuilt_cong [of ?t1 t] by simp
  have keep: "\<forall>h\<in>set (hypotheses ?t1). holds h 0 c = Inr True"
  proof
    fix h assume "h \<in> set (hypotheses ?t1)"
    then have "h \<in> set (hypotheses t)" by simp
    from ownhandD(5) [OF own this] have "hands h \<noteq> []" "hd (hands h) = myCardSet t" by simp_all
    then have "hands h ! 0 = myCardSet t" "0 < length (hands h)"
      by (simp_all add: hd_conv_nth)
    with c show "holds h 0 c = Inr True" by (simp add: holds_def)
  qed
  from reducepool_keep_all [OF rb1 keep, of rng] obtain s' where
    s': "reducepool (\<lambda>h. holds h 0 c) ?t1 rng = Returns () s'" "nopool s' = nopool ?t1"
    by blast
  have "applyseen t 0 c rng = Returns () s'"
    unfolding applyseen_def F' by (simp add: s'(1))
  moreover have "logSeenAnswers s' = logSeenAnswers ?t1" "logPasses s' = logPasses ?t1"
    using s'(2) by (rule nopool_fields)+
  ultimately show ?thesis by simp
qed

lemma passcard_own:
  assumes sh: "shapes t" and own: "ownhand t" and mr: "murderruledout t"
    and fam: "family = ALLOWEDCHARS \<or> family = ALLOWEDROOMS \<or> family = ALLOWEDWEAPS"
    and c: "c \<in> family" "c \<notin> myCardSet t"
    and len: "length F = nat (nPlayers t + 1)"
  shows "\<exists>F'. passcard family 0 c (t \<lparr> forbiddenSets := F \<rparr>) = Inr (t \<lparr> forbiddenSets := F' \<rparr>)
              \<and> length F' = nat (nPlayers t + 1)"
proof -
  let ?t = "t \<lparr> forbiddenSets := F \<rparr>"
  let ?G = "F[0 := insert c (F ! 0)]"
  let ?u = "t \<lparr> forbiddenSets := ?G \<rparr>"
  let ?n = "nat (nPlayers t)"
  have np: "2 \<le> nPlayers t" by (rule shapesD(1) [OF sh])
  have cA: "c \<in> ALLOWEDCARDS" using c(1) fam by (auto simp: ALLOWEDCARDS_def)
  have famc: "cardfamily c = family"
    using fam c(1) cardfamily_simps by blast
  have finfam: "finite family" using fam finite_families by blast
  have tf: "forbidden ?t = forbidden t" "forbiddenSets ?t = F" by simp_all
  have "forbid 0 c ?t = Inr (?t \<lparr> forbiddenSets := (forbiddenSets ?t)[0 := insert c (forbiddenSets ?t ! 0)] \<rparr>)"
  proof (rule forbid_known)
    show "0 < length (forbidden ?t)" unfolding tf using shapesD(2) [OF sh] np by simp
    show "length (forbidden ?t ! 0) = NCARDS"
      unfolding tf using shapesD(2,3) [OF sh] np by (simp add: list_all_length)
    show "c \<in> ALLOWEDCARDS" by (rule cA)
    show "forbidden ?t ! 0 ! nat c" unfolding tf using ownhandD(3) [OF own cA] c(2) by simp
    show "0 < length (forbiddenSets ?t)" unfolding tf using len np by simp
  qed
  then have f: "forbid 0 c ?t = Inr ?u" by simp
  have lenG: "length ?G = nat (nPlayers t + 1)" using len by simp
  have a: "allplayersforbidden ?u c
           = Inr (list_all (\<lambda>row. row ! nat c) (take ?n (forbidden t)))"
    by (simp add: allplayersforbidden_def npindex_card [OF cA])
  show ?thesis
  proof (cases "list_all (\<lambda>row. row ! nat c) (take ?n (forbidden t))")
    case False
    have "passcard family 0 c ?t = Inr ?u"
      unfolding passcard_def f using a False by simp
    with lenG show ?thesis by blast
  next
    case True
    from mr cA have "list_all (\<lambda>row. row ! nat c) (take ?n (forbidden t))
        \<longrightarrow> list_all (\<lambda>d. d = c \<or> forbidden t ! ?n ! nat d) (sorted_list_of_set (cardfamily c))"
      by (simp add: murderruledout_def list_all_iff finite_ALLOWEDCARDS)
    with True famc finfam have ruled: "\<forall>d\<in>family. d = c \<or> forbidden t ! ?n ! nat d"
      by (simp add: list_all_iff)
    have "\<exists>F'. forbidall ?n (sorted_list_of_set (family - {c})) (t \<lparr> forbiddenSets := ?G \<rparr>)
                = Inr (t \<lparr> forbiddenSets := F' \<rparr>) \<and> length F' = length ?G"
    proof (rule forbidall_known)
      show "?n < length (forbidden t)" using shapesD(2) [OF sh] np by simp
      show "length (forbidden t ! ?n) = NCARDS"
        using shapesD(2,3) [OF sh] np by (simp add: list_all_length)
      show "\<forall>d\<in>set (sorted_list_of_set (family - {c})). d \<in> ALLOWEDCARDS \<and> forbidden t ! ?n ! nat d"
        using ruled finfam fam by (auto simp: ALLOWEDCARDS_def)
      show "?n < length ?G" using lenG np by simp
    qed
    then obtain F' where F': "forbidall ?n (sorted_list_of_set (family - {c})) ?u = Inr (t \<lparr> forbiddenSets := F' \<rparr>)"
      "length F' = length ?G"
      by blast
    have nu: "nat (nPlayers ?u) = ?n" by simp
    have "passcard family 0 c ?t = Inr (t \<lparr> forbiddenSets := F' \<rparr>)"
      unfolding passcard_def f using a True c(1) by (simp add: F'(1))
    with F'(2) lenG show ?thesis by auto
  qed
qed

lemma applypass_own:
  assumes sh: "shapes t" and own: "ownhand t" and mr: "murderruledout t" and rb: "rebuilt t"
    and cards: "ch \<in> ALLOWEDCHARS" "rm \<in> ALLOWEDROOMS" "wp \<in> ALLOWEDWEAPS"
    and none: "myCardSet t \<inter> {ch, rm, wp} = {}"
  shows "\<exists>s'. applypass t 0 ch rm wp rng = Returns () s'
              \<and> logSeenAnswers s' = logSeenAnswers t \<and> logPasses s' = logPasses t"
proof -
  have same: "t \<lparr> forbiddenSets := forbiddenSets t \<rparr> = t" by simp
  from none have nch: "ch \<notin> myCardSet t" and nrm: "rm \<notin> myCardSet t" and nwp: "wp \<notin> myCardSet t"
    by auto
  from passcard_own [OF sh own mr _ cards(1) nch shapesD(4) [OF sh]] obtain F1 where
    F1: "passcard ALLOWEDCHARS 0 ch t = Inr (t \<lparr> forbiddenSets := F1 \<rparr>)"
    "length F1 = nat (nPlayers t + 1)"
    unfolding same by blast
  from passcard_own [OF sh own mr _ cards(2) nrm F1(2)] obtain F2 where
    F2: "passcard ALLOWEDROOMS 0 rm (t \<lparr> forbiddenSets := F1 \<rparr>) = Inr (t \<lparr> forbiddenSets := F2 \<rparr>)"
    "length F2 = nat (nPlayers t + 1)"
    by blast
  from passcard_own [OF sh own mr _ cards(3) nwp F2(2)] obtain F3 where
    F3: "passcard ALLOWEDWEAPS 0 wp (t \<lparr> forbiddenSets := F2 \<rparr>) = Inr (t \<lparr> forbiddenSets := F3 \<rparr>)"
    "length F3 = nat (nPlayers t + 1)"
    by blast
  let ?t3 = "t \<lparr> forbiddenSets := F3 \<rparr>"
  let ?keep = "\<lambda>h. case holdsany h 0 {ch, rm, wp} of Inl e \<Rightarrow> Inl e | Inr b \<Rightarrow> Inr (\<not> b)"
  have rb3: "rebuilt ?t3"
    using rb rebuilt_cong [of ?t3 t] by simp
  have keep: "\<forall>h\<in>set (hypotheses ?t3). ?keep h = Inr True"
  proof
    fix h assume "h \<in> set (hypotheses ?t3)"
    then have "h \<in> set (hypotheses t)" by simp
    from ownhandD(5) [OF own this] have "hands h \<noteq> []" "hd (hands h) = myCardSet t" by simp_all
    then have "hands h ! 0 = myCardSet t" "0 < length (hands h)"
      by (simp_all add: hd_conv_nth)
    with none show "?keep h = Inr True" by (simp add: holdsany_def Int_commute)
  qed
  from reducepool_keep_all [OF rb3 keep, of rng] obtain s' where
    s': "reducepool ?keep ?t3 rng = Returns () s'" "nopool s' = nopool ?t3"
    by blast
  have "applypass t 0 ch rm wp rng = Returns () s'"
    unfolding applypass_def F1(1) by (simp add: F2(1) F3(1) s'(1))
  moreover have "logSeenAnswers s' = logSeenAnswers ?t3" "logPasses s' = logPasses ?t3"
    using s'(2) by (rule nopool_fields)+
  ultimately show ?thesis by simp
qed

lemma pyindex_found:
  "c \<in> set xs \<Longrightarrow> \<exists>i. pyindex xs c = Inr i \<and> i < length xs \<and> xs ! i = c"
proof (induction xs)
  case Nil
  then show ?case by simp
next
  case (Cons x xs)
  show ?case
  proof (cases "x = c")
    case True
    then show ?thesis by simp
  next
    case False
    with Cons.prems have "c \<in> set xs" by simp
    from Cons.IH [OF this] obtain i where "pyindex xs c = Inr i" "i < length xs" "xs ! i = c"
      by blast
    with False show ?thesis by simp
  qed
qed

lemma collect_all:
  assumes "\<forall>x\<in>set xs. \<exists>y. f x = Inr y \<and> P x y"
  shows "\<exists>ys. collect f xs = Inr ys \<and> list_all2 P xs ys"
  using assms
proof (induction xs)
  case Nil
  show ?case by simp
next
  case (Cons x xs)
  from Cons.prems obtain y where y: "f x = Inr y" "P x y" by auto
  from Cons.prems have "\<forall>x\<in>set xs. \<exists>y. f x = Inr y \<and> P x y" by simp
  from Cons.IH [OF this] obtain ys where "collect f xs = Inr ys" "list_all2 P xs ys" by blast
  with y show ?case by simp
qed

lemma argmax_less: "xs \<noteq> [] \<Longrightarrow> argmax xs < length xs"
proof (induction xs)
  case Nil
  then show ?case by simp
next
  case (Cons x xs)
  show ?case
  proof (cases "list_all (\<lambda>y. y \<le> x) xs")
    case True
    then show ?thesis by simp
  next
    case False
    then have "xs \<noteq> []" by auto
    with Cons.IH False show ?thesis by simp
  qed
qed

lemma shown_row:
  assumes "shapes self" "suggester < nat (nPlayers self)"
  shows "\<exists>r. npindex (length (myCardsShownTo self)) (int suggester - 1) = Some r
             \<and> r < length (myCardsShownTo self)
             \<and> length (myCardsShownTo self ! r) = length (myCards self)"
proof -
  have len: "length (myCardsShownTo self) = nat (nPlayers self - 1)" "2 \<le> nPlayers self"
    using shapesD(5,1) [OF assms(1)] by simp_all
  have "\<exists>r. npindex (length (myCardsShownTo self)) (int suggester - 1) = Some r
            \<and> r < length (myCardsShownTo self)"
  proof (cases "suggester = 0")
    case True
    have "npindex (nat (nPlayers self - 1)) (- 1) = Some (nat (nPlayers self - 1) - 1)"
      using len(2) by (auto simp: npindex_def)
    with True len show ?thesis by simp
  next
    case False
    have "npindex (nat (nPlayers self - 1)) (int suggester - 1) = Some (suggester - 1)"
      using len(2) assms(2) False by (auto simp: npindex_def)
    moreover have "suggester - 1 < nat (nPlayers self - 1)"
      using len(2) assms(2) False by linarith
    ultimately show ?thesis using len by simp
  qed
  then obtain r where r: "npindex (length (myCardsShownTo self)) (int suggester - 1) = Some r"
    "r < length (myCardsShownTo self)"
    by blast
  moreover have "length (myCardsShownTo self ! r) = length (myCards self)"
    using shapesD(6) [OF assms(1)] r(2) by (simp add: list_all_length)
  ultimately show ?thesis by blast
qed

lemma NULLCARD_not_card: "c \<in> ALLOWEDCARDS \<Longrightarrow> c \<noteq> NULLCARD"
  by (simp add: ALLOWEDCARDS_iff NULLCARD_def NCARDS_eq)

text \<open>
  The object that \<open>event_seenresponse\<close> works on when the detective shows a card: the
  tables of the cards shown have been updated and the event is logged.
\<close>

lemma seen_own_returns:
  assumes rd: "ready self"
    and A: "length A = length (myCardsShownTo self)"
      "list_all (\<lambda>row. length row = length (myCards self)) A"
    and B: "length B = length (myCardsShownCounts self)"
    and c: "c \<in> myCardSet self"
  shows "\<exists>s. event_seenresponse (self \<lparr> myCardsShownTo := A, myCardsShownCounts := B \<rparr>)
               (Some c) (Some 0) (Some suggester) rng = Returns () s
             \<and> logSeenAnswers s = logSeenAnswers self @
                 [\<lparr> turn = ixTurn self, actor = 0, consumer_seen = suggester, card = c \<rparr>]
             \<and> logPasses s = logPasses self"
proof -
  let ?ev = "\<lparr> turn = ixTurn self, actor = 0, consumer_seen = suggester, card = c \<rparr>"
  let ?w = "self \<lparr> myCardsShownTo := A, myCardsShownCounts := B,
                    logSeenAnswers := logSeenAnswers self @ [?ev] \<rparr>"
  from rd have sh: "shapes self" and own: "ownhand self" and rb: "rebuilt self"
    by (simp_all add: ready_def)
  have shw: "shapes ?w"
    using sh A B by (simp add: shapes_def)
  have ownw: "ownhand ?w"
    using own by (simp add: ownhand_def)
  have rbw: "rebuilt ?w"
    using rb rebuilt_cong [of ?w self] by simp
  have cw: "c \<in> myCardSet ?w" using c by simp
  from applyseen_own [OF shw ownw rbw cw, of rng] obtain s where
    s: "applyseen ?w 0 c rng = Returns () s" "logSeenAnswers s = logSeenAnswers ?w"
    "logPasses s = logPasses ?w"
    by blast
  have "event_seenresponse (self \<lparr> myCardsShownTo := A, myCardsShownCounts := B \<rparr>)
          (Some c) (Some 0) (Some suggester) rng = applyseen ?w 0 c rng"
    by (simp add: event_seenresponse_def Let_def)
  with s show ?thesis by simp
qed

lemma pass_own_returns:
  assumes rd: "ready self"
    and cards: "ch \<in> ALLOWEDCHARS" "rm \<in> ALLOWEDROOMS" "wp \<in> ALLOWEDWEAPS"
    and none: "myCardSet self \<inter> {ch, rm, wp} = {}"
  shows "\<exists>s. event_pass self (Some ch) (Some rm) (Some wp) (Some 0) rng = Returns () s
             \<and> logPasses s = logPasses self @
                 [\<lparr> turn = ixTurn self, actor = 0, character = ch, room = rm, weapon = wp \<rparr>]
             \<and> logSeenAnswers s = logSeenAnswers self"
proof -
  let ?ev = "\<lparr> turn = ixTurn self, actor = 0, character = ch, room = rm, weapon = wp \<rparr>"
  let ?w = "self \<lparr> logPasses := logPasses self @ [?ev] \<rparr>"
  from rd have sh: "shapes self" and own: "ownhand self" and mr: "murderruledout self"
    and rb: "rebuilt self"
    by (simp_all add: ready_def)
  have shw: "shapes ?w" using sh by (simp add: shapes_def)
  have ownw: "ownhand ?w" using own by (simp add: ownhand_def)
  have mrw: "murderruledout ?w" using mr by (simp add: murderruledout_def)
  have rbw: "rebuilt ?w" using rb rebuilt_cong [of ?w self] by simp
  have nonew: "myCardSet ?w \<inter> {ch, rm, wp} = {}" using none by simp
  from applypass_own [OF shw ownw mrw rbw cards nonew, of rng] obtain s where
    s: "applypass ?w 0 ch rm wp rng = Returns () s" "logSeenAnswers s = logSeenAnswers ?w"
    "logPasses s = logPasses ?w"
    by blast
  have "event_pass self (Some ch) (Some rm) (Some wp) (Some 0) rng = applypass ?w 0 ch rm wp rng"
    by (simp add: event_pass_def Let_def)
  with s show ?thesis by simp
qed

lemma list_all2_set2:
  "list_all2 P xs ys \<Longrightarrow> y \<in> set ys \<Longrightarrow> \<exists>x\<in>set xs. P x y"
  by (metis in_set_conv_nth list_all2_conv_all_nth)

lemma answer_choice:
  assumes rd: "ready self" and sg: "suggester < nat (nPlayers self)"
    and ne: "myCardSet self \<inter> {ch, rm, wp} \<noteq> {}"
  shows "\<exists>ixCard A B.
           ixCard < length (myCards self)
           \<and> myCards self ! ixCard \<in> myCardSet self \<inter> {ch, rm, wp}
           \<and> length A = length (myCardsShownTo self)
           \<and> list_all (\<lambda>row. length row = length (myCards self)) A
           \<and> length B = length (myCardsShownCounts self)
           \<and> answersuggestion self ch rm wp suggester rng =
               (case event_seenresponse (self \<lparr> myCardsShownTo := A, myCardsShownCounts := B \<rparr>)
                       (Some (myCards self ! ixCard)) (Some 0) (Some suggester) rng of
                  Returns u s \<Rightarrow> Returns (myCards self ! ixCard) s
                | Raises e \<Rightarrow> Raises e
                | Exhausted \<Rightarrow> Exhausted)"
proof -
  let ?S = "myCardSet self \<inter> {ch, rm, wp}"
  let ?showables = "sorted_list_of_set ?S"
  let ?P = "\<lambda>x i. i < length (myCards self) \<and> myCards self ! i = x"
  from rd have sh: "shapes self" and own: "ownhand self"
    by (simp_all add: ready_def)
  have fin: "finite ?S" by simp
  have setS: "set ?showables = ?S" using fin by simp
  have "\<forall>x\<in>set ?showables. \<exists>i. pyindex (myCards self) x = Inr i \<and> ?P x i"
  proof
    fix x assume "x \<in> set ?showables"
    then have "x \<in> set (myCards self)" using setS ownhandD(1) [OF own] by blast
    from pyindex_found [OF this] show "\<exists>i. pyindex (myCards self) x = Inr i \<and> ?P x i" by blast
  qed
  from collect_all [OF this] obtain ixs where
    ixs: "collect (pyindex (myCards self)) ?showables = Inr ixs" "list_all2 ?P ?showables ixs"
    by blast
  have ixsne: "ixs \<noteq> []"
    using ixs(2) ne setS by (auto dest: list_all2_lengthD)
  have inixs: "i < length (myCards self) \<and> myCards self ! i \<in> ?S" if "i \<in> set ixs" for i
    using list_all2_set2 [OF ixs(2) that] setS by auto
  from shown_row [OF sh sg] obtain r where
    r: "npindex (length (myCardsShownTo self)) (int suggester - 1) = Some r"
    "r < length (myCardsShownTo self)" "length (myCardsShownTo self ! r) = length (myCards self)"
    by blast
  have "\<forall>i\<in>set ixs. \<exists>b. shownto self suggester i = Inr b \<and> True"
    using inixs r by (simp add: shownto_def)
  from collect_all [OF this] obtain flags where
    flags: "collect (shownto self suggester) ixs = Inr flags"
    by blast
  let ?shown = "map fst (filter snd (zip ixs flags))"
  have shownsub: "set ?shown \<subseteq> set ixs"
    by (auto dest: set_zip_leftD)
  have lenc: "length (myCardsShownCounts self) = length (myCards self)"
    by (rule shapesD(7) [OF sh])
  have counts_of: "\<exists>counts. collect (listindex (myCardsShownCounts self)) js = Inr counts
                     \<and> length counts = length js" if "set js \<subseteq> set ixs" for js
  proof -
    have "\<forall>i\<in>set js. \<exists>n. listindex (myCardsShownCounts self) i = Inr n \<and> True"
      using that inixs lenc by (auto simp: listindex_def)
    from collect_all [OF this] obtain counts where
      "collect (listindex (myCardsShownCounts self)) js = Inr counts" "list_all2 (\<lambda>i n. True) js counts"
      by blast
    then show ?thesis by (auto dest: list_all2_lengthD)
  qed
  show ?thesis
  proof (cases "?shown = []")
    case False
    from counts_of [OF shownsub] obtain counts where
      counts: "collect (listindex (myCardsShownCounts self)) ?shown = Inr counts"
      "length counts = length ?shown"
      by blast
    let ?ixCard = "?shown ! argmax counts"
    let ?B = "(myCardsShownCounts self)[?ixCard := myCardsShownCounts self ! ?ixCard + 1]"
    have "counts \<noteq> []" using counts(2) False by auto
    then have "argmax counts < length ?shown" using argmax_less counts(2) by metis
    then have "?ixCard \<in> set ?shown" by (rule nth_mem)
    then have mem: "?ixCard \<in> set ixs" using shownsub by blast
    have upd: "countshown ?ixCard self
               = self \<lparr> myCardsShownTo := myCardsShownTo self, myCardsShownCounts := ?B \<rparr>"
      by (simp add: countshown_def)
    have "answersuggestion self ch rm wp suggester rng =
               (case event_seenresponse (self \<lparr> myCardsShownTo := myCardsShownTo self, myCardsShownCounts := ?B \<rparr>)
                       (Some (myCards self ! ?ixCard)) (Some 0) (Some suggester) rng of
                  Returns u s \<Rightarrow> Returns (myCards self ! ?ixCard) s
                | Raises e \<Rightarrow> Raises e
                | Exhausted \<Rightarrow> Exhausted)"
      unfolding answersuggestion_def Let_def ixs(1) sum.case flags
      using False ixsne by (simp only: if_True if_False counts(1) sum.case upd simp_thms)
    moreover have "length ?B = length (myCardsShownCounts self)" by simp
    moreover have "list_all (\<lambda>row. length row = length (myCards self)) (myCardsShownTo self)"
      by (rule shapesD(6) [OF sh])
    ultimately show ?thesis using inixs [OF mem] by blast
  next
    case True
    from counts_of [of ixs] obtain counts where
      counts: "collect (listindex (myCardsShownCounts self)) ixs = Inr counts"
      "length counts = length ixs"
      by blast
    let ?ixCard = "ixs ! argmax counts"
    let ?A = "(myCardsShownTo self)[r := (myCardsShownTo self ! r)[?ixCard := True]]"
    let ?B = "(myCardsShownCounts self)[?ixCard := myCardsShownCounts self ! ?ixCard + 1]"
    have "counts \<noteq> []" using counts(2) ixsne by auto
    then have "argmax counts < length ixs" using argmax_less counts(2) by metis
    then have mem: "?ixCard \<in> set ixs" by (rule nth_mem)
    have set1: "setshownto suggester ?ixCard self = Inr (self \<lparr> myCardsShownTo := ?A \<rparr>)"
      using r inixs [OF mem] by (simp add: setshownto_def)
    have upd: "countshown ?ixCard (self \<lparr> myCardsShownTo := ?A \<rparr>)
               = self \<lparr> myCardsShownTo := ?A, myCardsShownCounts := ?B \<rparr>"
      by (simp add: countshown_def)
    have "answersuggestion self ch rm wp suggester rng =
               (case event_seenresponse (self \<lparr> myCardsShownTo := ?A, myCardsShownCounts := ?B \<rparr>)
                       (Some (myCards self ! ?ixCard)) (Some 0) (Some suggester) rng of
                  Returns u s \<Rightarrow> Returns (myCards self ! ?ixCard) s
                | Raises e \<Rightarrow> Raises e
                | Exhausted \<Rightarrow> Exhausted)"
      unfolding answersuggestion_def Let_def ixs(1) sum.case flags
      using True ixsne by (simp only: if_True if_False counts(1) sum.case set1 upd simp_thms)
    moreover have "length ?A = length (myCardsShownTo self)" "length ?B = length (myCardsShownCounts self)"
      by simp_all
    moreover have "list_all (\<lambda>row. length row = length (myCards self)) ?A"
    proof -
      have "set ?A \<subseteq> insert ((myCardsShownTo self ! r)[?ixCard := True]) (set (myCardsShownTo self))"
        by (rule set_update_subset_insert)
      then show ?thesis
        using shapesD(6) [OF sh] r(3) by (auto simp: list_all_iff)
    qed
    ultimately show ?thesis using inixs [OF mem] by blast
  qed
qed

text \<open>
  C10.  On an object that is ready, for a suggester among the players and a suggestion
  of a character, a room and a weapon, \<open>answersuggestion\<close> returns.  When the detective
  holds none of the three cards it returns \<open>NULLCARD\<close> and has logged a pass of the
  detective; otherwise it returns one of the cards of the suggestion that the detective
  holds, which is not \<open>NULLCARD\<close>, and has logged that card as seen, shown by the
  detective to the suggester.
\<close>

theorem answersuggestion_card:
  assumes rd: "ready self" and sg: "suggester < nat (nPlayers self)"
    and cards: "ch \<in> ALLOWEDCHARS" "rm \<in> ALLOWEDROOMS" "wp \<in> ALLOWEDWEAPS"
  shows "\<exists>c s. answersuggestion self ch rm wp suggester rng = Returns c s
               \<and> (if myCardSet self \<inter> {ch, rm, wp} = {}
                  then c = NULLCARD
                       \<and> logPasses s = logPasses self @
                           [\<lparr> turn = ixTurn self, actor = 0, character = ch, room = rm, weapon = wp \<rparr>]
                       \<and> logSeenAnswers s = logSeenAnswers self
                  else c \<in> myCardSet self \<inter> {ch, rm, wp} \<and> c \<noteq> NULLCARD
                       \<and> logSeenAnswers s = logSeenAnswers self @
                           [\<lparr> turn = ixTurn self, actor = 0, consumer_seen = suggester, card = c \<rparr>]
                       \<and> logPasses s = logPasses self)"
proof (cases "myCardSet self \<inter> {ch, rm, wp} = {}")
  case True
  from pass_own_returns [OF rd cards True, of rng] obtain s where
    s: "event_pass self (Some ch) (Some rm) (Some wp) (Some 0) rng = Returns () s"
    "logPasses s = logPasses self @
       [\<lparr> turn = ixTurn self, actor = 0, character = ch, room = rm, weapon = wp \<rparr>]"
    "logSeenAnswers s = logSeenAnswers self"
    by blast
  have "answersuggestion self ch rm wp suggester rng = Returns NULLCARD s"
    by (simp add: answersuggestion_def True s(1))
  with s(2,3) True show ?thesis by simp
next
  case False
  from answer_choice [OF rd sg False, of rng] obtain ixCard A B where
    ch: "myCards self ! ixCard \<in> myCardSet self \<inter> {ch, rm, wp}"
    and A: "length A = length (myCardsShownTo self)"
      "list_all (\<lambda>row. length row = length (myCards self)) A"
    and B: "length B = length (myCardsShownCounts self)"
    and ans: "answersuggestion self ch rm wp suggester rng =
               (case event_seenresponse (self \<lparr> myCardsShownTo := A, myCardsShownCounts := B \<rparr>)
                       (Some (myCards self ! ixCard)) (Some 0) (Some suggester) rng of
                  Returns u s \<Rightarrow> Returns (myCards self ! ixCard) s
                | Raises e \<Rightarrow> Raises e
                | Exhausted \<Rightarrow> Exhausted)"
    by blast
  let ?c = "myCards self ! ixCard"
  have mine: "?c \<in> myCardSet self" using ch by simp
  from seen_own_returns [OF rd A B mine, of suggester rng] obtain s where
    s: "event_seenresponse (self \<lparr> myCardsShownTo := A, myCardsShownCounts := B \<rparr>)
          (Some ?c) (Some 0) (Some suggester) rng = Returns () s"
    "logSeenAnswers s = logSeenAnswers self @
       [\<lparr> turn = ixTurn self, actor = 0, consumer_seen = suggester, card = ?c \<rparr>]"
    "logPasses s = logPasses self"
    by blast
  have r: "answersuggestion self ch rm wp suggester rng = Returns ?c s"
    unfolding ans s(1) by simp
  from rd have "myCardSet self \<subseteq> ALLOWEDCARDS"
    by (simp add: ready_def ownhand_def)
  with mine have "?c \<noteq> NULLCARD" using NULLCARD_not_card by blast
  with r s(2,3) ch False show ?thesis by simp
qed

lemma ready_exact_twoplayer: "ready exact_twoplayer"
proof -
  define M :: "int set" where "M = {0, 1, 4, 8, 10, 11, 15, 18, 20}"
  define R0 where "R0 = map (\<lambda>c. c \<notin> M) (map int [0 ..< 21])"
  define R1 where "R1 = map (\<lambda>c. c \<in> M) (map int [0 ..< 21])"
  have len: "length R0 = 21" "length R1 = 21"
    by (simp_all add: R0_def R1_def)
  have entry: "R0 ! nat c = (c \<notin> M)" "R1 ! nat c = (c \<in> M)" if "c \<in> ALLOWEDCARDS" for c
  proof -
    from that have "0 \<le> c" "c < 21" by (simp_all add: ALLOWEDCARDS_iff)
    then have "nat c < 21" "int (nat c) = c" by linarith+
    then show "R0 ! nat c = (c \<notin> M)" "R1 ! nat c = (c \<in> M)"
      unfolding R0_def R1_def by (simp_all del: upt_Suc)
  qed
  have f: "forbidden exact_twoplayer = [R0, R1, R1]"
    "myCardSet exact_twoplayer = M"
    "set (myCards exact_twoplayer) = M"
    "length (myCards exact_twoplayer) = 9"
    "length (forbiddenSets exact_twoplayer) = 3"
    "myCardsShownTo exact_twoplayer = [replicate 9 False]"
    "length (myCardsShownCounts exact_twoplayer) = 9"
    "nPlayers exact_twoplayer = 2"
    "hypotheses exact_twoplayer = [twoplayer_hyp_a, twoplayer_hyp_b]"
    unfolding R0_def R1_def M_def
    by (simp_all add: exact_twoplayer_def twoplayer_counted_def twoplayer_pool_def del: upt_Suc)
  have hyps: "hd (hands twoplayer_hyp_a) = M" "hd (hands twoplayer_hyp_b) = M"
    "hands twoplayer_hyp_a \<noteq> []" "hands twoplayer_hyp_b \<noteq> []"
    "in_shape (envelope twoplayer_hyp_a)" "in_shape (envelope twoplayer_hyp_b)"
    by (simp_all add: twoplayer_hyp_a_def twoplayer_hyp_b_def M_def in_shape_simp)
  have MA: "M \<subseteq> ALLOWEDCARDS"
    by (simp add: M_def ALLOWEDCARDS_iff)
  have players: "[1 ..< nat (2 + 1)] = [1, 2]"
    by (simp add: upt_conv_Cons)
  have sh: "shapes exact_twoplayer"
    unfolding shapes_def f by (simp add: len NCARDS_eq)
  have own: "ownhand exact_twoplayer"
    unfolding ownhand_def list_all_cards f players
    by (simp add: entry hyps MA)
  have mr: "murderruledout exact_twoplayer"
    unfolding murderruledout_def list_all_cards f
    by (simp add: entry)
  have rb: "rebuilt exact_twoplayer"
    by (simp add: rebuilt_def exact_twoplayer_simps)
  from sh own mr rb show ?thesis by (simp add: ready_def)
qed

theorem answersuggestion_card_witness:
  "ready exact_twoplayer \<and> 1 < nat (nPlayers exact_twoplayer)
   \<and> 4 \<in> ALLOWEDCHARS \<and> 8 \<in> ALLOWEDROOMS \<and> 15 \<in> ALLOWEDWEAPS
   \<and> (\<exists>c s. answersuggestion exact_twoplayer 4 8 15 1 [] = Returns c s
          \<and> c \<in> myCardSet exact_twoplayer \<inter> {4, 8, 15} \<and> c \<noteq> NULLCARD
          \<and> logSeenAnswers s = logSeenAnswers exact_twoplayer @
               [\<lparr> turn = ixTurn exact_twoplayer, actor = 0, consumer_seen = 1, card = c \<rparr>]
          \<and> logPasses s = logPasses exact_twoplayer)"
proof -
  have sg: "1 < nat (nPlayers exact_twoplayer)" by (simp add: exact_twoplayer_simps)
  have cards: "4 \<in> ALLOWEDCHARS" "8 \<in> ALLOWEDROOMS" "15 \<in> ALLOWEDWEAPS"
    by (simp_all add: ALLOWEDCHARS_iff ALLOWEDROOMS_iff ALLOWEDWEAPS_iff)
  have ne: "myCardSet exact_twoplayer \<inter> {4, 8, 15} \<noteq> {}"
    by (simp add: exact_twoplayer_simps)
  from answersuggestion_card [OF ready_exact_twoplayer sg cards, of "[]"] ne
  have "\<exists>c s. answersuggestion exact_twoplayer 4 8 15 1 [] = Returns c s
          \<and> c \<in> myCardSet exact_twoplayer \<inter> {4, 8, 15} \<and> c \<noteq> NULLCARD
          \<and> logSeenAnswers s = logSeenAnswers exact_twoplayer @
               [\<lparr> turn = ixTurn exact_twoplayer, actor = 0, consumer_seen = 1, card = c \<rparr>]
          \<and> logPasses s = logPasses exact_twoplayer"
    by (simp only: if_False)
  with ready_exact_twoplayer sg cards show ?thesis by blast
qed

end
